(* ===== verification/Prelude.thy ===== *)
theory Prelude
  imports Main "HOL-Library.Word" "HOL-Library.Monad_Syntax"
begin

text \<open>
  Shared vocabulary of the development: machine integer types, the part of the C string and
  conversion library the sources call (\<open>printf\<close> of \<open>%d\<close>, \<open>%u\<close> and \<open>%02u\<close>, \<open>strtol\<close>,
  \<open>rindex\<close>, \<open>strstr\<close>, \<open>strcmp\<close> with a possible null argument), and the generic lemmas
  on lists and options the components use.

  Null pointers are \<^const>\<open>None\<close>.  Operations that would dereference one return
  \<^const>\<open>None\<close> as a whole, so that a crash is a value and its absence is a theorem.
\<close>

unbundle bit_operations_syntax

type_synonym u8 = "8 word"
type_synonym u16 = "16 word"
type_synonym u32 = "32 word"
type_synonym cstr = "string option"

named_theorems io_defs \<open>unfolding the primitive input/output operations\<close>
named_theorems frame \<open>what an operation leaves unchanged\<close>

section \<open>Characters and strings\<close>

definition nl :: string where
  "nl = [CHR 0x0A]"

definition sq :: string where
  "sq = [CHR 0x27]"

definition dq :: string where
  "dq = [CHR 0x22]"

text \<open>The \<open>%s\<close> conversion of the C library: a null argument prints as \<open>(null)\<close>.\<close>

definition pstr :: "cstr \<Rightarrow> string" where
  "pstr s = (case s of None \<Rightarrow> ''(null)'' | Some t \<Rightarrow> t)"

lemma pstr_simps [simp]:
  "pstr (Some s) = s"
  "pstr None = ''(null)''"
  by (simp_all add: pstr_def)

text \<open>\<open>!strcmp (a, "lit")\<close>: comparing a null pointer crashes.\<close>

definition streq :: "cstr \<Rightarrow> string \<Rightarrow> bool option" where
  "streq a b = (case a of None \<Rightarrow> None | Some s \<Rightarrow> Some (s = b))"

lemma streq_simps [simp]:
  "streq (Some s) t = Some (s = t)"
  "streq None t = None"
  by (simp_all add: streq_def)

fun rindex :: "string \<Rightarrow> char \<Rightarrow> string option" where
  "rindex [] c = None"
| "rindex (x # xs) c =
     (case rindex xs c of
        Some t \<Rightarrow> Some t
      | None \<Rightarrow> if x = c then Some (x # xs) else None)"

text \<open>\<open>basename\<close> and \<open>dirname\<close> of a name that does not end in a slash (the sources only take
  them of such).\<close>

definition basename :: "string \<Rightarrow> string" where
  "basename p = (case rindex p (CHR ''/'') of None \<Rightarrow> p | Some t \<Rightarrow> tl t)"

definition dirname :: "string \<Rightarrow> string" where
  "dirname p =
     (case rindex p (CHR ''/'') of
        None \<Rightarrow> ''.''
      | Some t \<Rightarrow> (let d = take (length p - length t) p in if d = [] then ''/'' else d))"

text \<open>\<open>snprintf\<close> into a buffer of \<open>n\<close> bytes keeps the first \<open>n - 1\<close> characters.\<close>

definition snprintf :: "nat \<Rightarrow> string \<Rightarrow> string" where
  "snprintf n s = take (n - 1) s"

fun has_prefix :: "string \<Rightarrow> string \<Rightarrow> bool" where
  "has_prefix [] s = True"
| "has_prefix (p # ps) [] = False"
| "has_prefix (p # ps) (x # xs) = (p = x \<and> has_prefix ps xs)"

text \<open>\<open>strstr\<close> split in two: what precedes the first match, and the rest from it on.\<close>

fun split_at_first :: "string \<Rightarrow> string \<Rightarrow> (string \<times> string) option" where
  "split_at_first pat [] = (if pat = [] then Some ([], []) else None)"
| "split_at_first pat (x # xs) =
     (if has_prefix pat (x # xs) then Some ([], x # xs)
      else (case split_at_first pat xs of
              None \<Rightarrow> None
            | Some (a, b) \<Rightarrow> Some (x # a, b)))"

lemma has_prefix_iff: "has_prefix p s \<longleftrightarrow> (\<exists>t. s = p @ t)"
  by (induction p s rule: has_prefix.induct) auto

lemma rindex_Some_split:
  "rindex s c = Some t \<Longrightarrow> \<exists>a b. s = a @ c # b \<and> t = c # b \<and> c \<notin> set b"
proof (induction s arbitrary: t)
  case Nil
  then show ?case by simp
next
  case (Cons x xs)
  show ?case
  proof (cases "rindex xs c")
    case None
    then have "c \<notin> set xs"
      by (induction xs) (auto split: option.splits if_splits)
    with None Cons.prems show ?thesis by (auto split: if_splits)
  next
    case (Some u)
    with Cons.prems have "t = u" by simp
    moreover from Cons.IH [OF Some] obtain a b
      where "xs = a @ c # b" "u = c # b" "c \<notin> set b" by blast
    ultimately show ?thesis by (metis append_Cons)
  qed
qed

lemma rindex_append_same [simp]:
  "c \<notin> set b \<Longrightarrow> rindex (a @ c # b) c = Some (c # b)"
proof -
  assume b: "c \<notin> set b"
  then have *: "rindex b c = None" by (induction b) auto
  show ?thesis by (induction a) (simp_all add: *)
qed

lemma rindex_None_iff: "rindex s c = None \<longleftrightarrow> c \<notin> set s"
  by (induction s) (auto split: option.splits)

lemma split_at_first_append: "split_at_first p s = Some (a, b) \<Longrightarrow> s = a @ b \<and> has_prefix p b"
proof (induction p s arbitrary: a b rule: split_at_first.induct)
  case (1 pat)
  then show ?case by (auto split: if_splits)
next
  case (2 pat x xs)
  then show ?case by (auto split: if_splits option.splits)
qed

section \<open>Decimal conversion\<close>

definition digit_char :: "nat \<Rightarrow> char" where
  "digit_char d = ''0123456789'' ! d"

fun dec_nat :: "nat \<Rightarrow> string" where
  "dec_nat n = (if n < 10 then [digit_char n] else dec_nat (n div 10) @ [digit_char (n mod 10)])"

declare dec_nat.simps [simp del]

text \<open>\<open>%d\<close> and, for words, \<open>%u\<close>.\<close>

definition dec_int :: "int \<Rightarrow> string" where
  "dec_int i = (if i < 0 then CHR ''-'' # dec_nat (nat (- i)) else dec_nat (nat i))"

definition dec_u :: "'a::len word \<Rightarrow> string" where
  "dec_u x = dec_nat (unat x)"

text \<open>\<open>%02u\<close>.\<close>

definition dec02 :: "nat \<Rightarrow> string" where
  "dec02 n = (if n < 10 then CHR ''0'' # dec_nat n else dec_nat n)"

text \<open>The value of a digit in a base, as \<open>strtol\<close> reads it.\<close>

definition digit_of :: "nat \<Rightarrow> char \<Rightarrow> nat option" where
  "digit_of base c =
     (let n = (of_char c :: nat);
          v = (if 48 \<le> n \<and> n \<le> 57 then Some (n - 48)
               else if 97 \<le> n \<and> n \<le> 122 then Some (n - 87)
               else if 65 \<le> n \<and> n \<le> 90 then Some (n - 55)
               else None)
      in case v of None \<Rightarrow> None | Some d \<Rightarrow> if d < base then Some d else None)"

definition is_space :: "char \<Rightarrow> bool" where
  "is_space c = (let n = (of_char c :: nat) in n = 32 \<or> (9 \<le> n \<and> n \<le> 13))"

definition is_digit :: "char \<Rightarrow> bool" where
  "is_digit c = (digit_of 10 c \<noteq> None)"

fun strto_acc :: "nat \<Rightarrow> nat \<Rightarrow> string \<Rightarrow> nat" where
  "strto_acc base a [] = a"
| "strto_acc base a (c # cs) =
     (case digit_of base c of None \<Rightarrow> a | Some d \<Rightarrow> strto_acc base (a * base + d) cs)"

text \<open>Base selection of \<open>strtol (..., 0)\<close>: \<open>0x\<close> before a hex digit, then a leading zero.\<close>

fun strto_base0 :: "string \<Rightarrow> nat \<times> string" where
  "strto_base0 [] = (10, [])"
| "strto_base0 (c # s) =
     (if c \<noteq> CHR ''0'' then (10, c # s)
      else (case s of
              x # d # rest \<Rightarrow>
                if (x = CHR ''x'' \<or> x = CHR ''X'') \<and> digit_of 16 d \<noteq> None then (16, d # rest)
                else (8, c # s)
            | _ \<Rightarrow> (8, c # s)))"

fun strto_sign :: "string \<Rightarrow> bool \<times> string" where
  "strto_sign [] = (False, [])"
| "strto_sign (c # s) =
     (if is_space c then strto_sign s
      else if c = CHR ''-'' then (True, s)
      else if c = CHR ''+'' then (False, s)
      else (False, c # s))"

definition LLONG_MAX :: int where "LLONG_MAX = 2 ^ 63 - 1"
definition LLONG_MIN :: int where "LLONG_MIN = - (2 ^ 63)"
definition INT_MAX :: int where "INT_MAX = 2147483647"
definition INT_MIN :: int where "INT_MIN = - 2147483648"

text \<open>\<open>strtoll\<close>: the value, and whether it was out of range and so saturated (\<open>ERANGE\<close>).\<close>

definition strtoll :: "nat \<Rightarrow> string \<Rightarrow> int \<times> bool" where
  "strtoll base s =
     (let (neg, t) = strto_sign s;
          (b, u) = (if base = 0 then strto_base0 t else (base, t));
          v = int (strto_acc b 0 u);
          i = (if neg then - v else v)
      in if LLONG_MAX < i then (LLONG_MAX, True)
         else if i < LLONG_MIN then (LLONG_MIN, True)
         else (i, False))"

lemma of_char_digit_char [simp]: "d < 10 \<Longrightarrow> of_char (digit_char d) = (48 + d :: nat)"
proof -
  have "\<forall>d \<in> set [0..<10]. of_char (digit_char d) = (48 + d :: nat)"
    by (simp add: digit_char_def upt_rec)
  moreover assume "d < 10"
  ultimately show ?thesis by simp
qed

lemma digit_of_digit_char [simp]: "d < 10 \<Longrightarrow> digit_of 10 (digit_char d) = Some d"
  by (simp add: digit_of_def)

lemma digit_char_not_space [simp]: "d < 10 \<Longrightarrow> \<not> is_space (digit_char d)"
  by (simp add: is_space_def)

lemma digit_char_eq_iff:
  assumes "d < 10"
  shows "digit_char d = c \<longleftrightarrow> of_char c = (48 + d :: nat)"
    and "c = digit_char d \<longleftrightarrow> of_char c = (48 + d :: nat)"
  using of_char_digit_char [OF assms] by (metis char_of_char)+

lemma dec_nat_digits: "c \<in> set (dec_nat n) \<Longrightarrow> \<exists>d < 10. c = digit_char d"
proof (induction n rule: dec_nat.induct)
  case (1 n)
  show ?case
  proof (cases "n < 10")
    case True
    with "1.prems" show ?thesis by (auto simp: dec_nat.simps [of n])
  next
    case False
    from False "1.prems" have "c \<in> set (dec_nat (n div 10)) \<or> c = digit_char (n mod 10)"
      by (subst (asm) dec_nat.simps) auto
    then show ?thesis
    proof
      assume "c \<in> set (dec_nat (n div 10))"
      with "1.IH" [OF False] show ?thesis by blast
    next
      assume "c = digit_char (n mod 10)"
      moreover have "n mod 10 < 10" by simp
      ultimately show ?thesis by blast
    qed
  qed
qed

lemma dec_nat_nonempty [simp]: "dec_nat n \<noteq> []"
  by (subst dec_nat.simps) simp

lemma dec_nat_no_slash [simp]: "CHR ''/'' \<notin> set (dec_nat n)"
  by (auto simp: digit_char_eq_iff dest!: dec_nat_digits)

lemma dec_nat_no_minus [simp]: "CHR ''-'' \<notin> set (dec_nat n)"
  by (auto simp: digit_char_eq_iff dest!: dec_nat_digits)

lemma dec_int_no_slash [simp]: "CHR ''/'' \<notin> set (dec_int i)"
  by (simp add: dec_int_def)

lemma strto_acc_append:
  "list_all (\<lambda>c. digit_of b c \<noteq> None) s \<Longrightarrow>
     strto_acc b a (s @ t) = strto_acc b (strto_acc b a s) t"
  by (induction s arbitrary: a) auto

lemma dec_nat_list_all: "list_all (\<lambda>c. digit_of 10 c \<noteq> None) (dec_nat n)"
  by (auto simp: list_all_iff dest!: dec_nat_digits)

lemma strto_acc_dec_nat: "strto_acc 10 0 (dec_nat n) = n"
proof (induction n rule: dec_nat.induct)
  case (1 n)
  show ?case
  proof (cases "n < 10")
    case True
    then show ?thesis by (subst dec_nat.simps) simp
  next
    case False
    have "strto_acc 10 0 (dec_nat n)
        = strto_acc 10 (strto_acc 10 0 (dec_nat (n div 10))) [digit_char (n mod 10)]"
      using False by (subst dec_nat.simps) (simp add: strto_acc_append [OF dec_nat_list_all])
    also have "\<dots> = n div 10 * 10 + n mod 10"
      using "1.IH" [OF False] by simp
    finally show ?thesis by simp
  qed
qed

lemma hd_dec_nat_zero: "hd (dec_nat n) = CHR ''0'' \<Longrightarrow> n = 0"
proof (induction n rule: dec_nat.induct)
  case (1 n)
  show ?case
  proof (cases "n < 10")
    case True
    with "1.prems" show ?thesis by (subst (asm) dec_nat.simps) (simp add: digit_char_eq_iff)
  next
    case False
    from False have "hd (dec_nat n) = hd (dec_nat (n div 10))"
      by (subst dec_nat.simps) simp
    with "1.IH" [OF False] "1.prems" False show ?thesis by simp
  qed
qed

lemma strto_acc_stop: "digit_of b c = None \<Longrightarrow> strto_acc b a (c # cs) = a"
  by simp

lemma dec_nat_inj: "dec_nat m = dec_nat n \<longleftrightarrow> m = n"
  by (metis strto_acc_dec_nat)

text \<open>Printing and reading back: \<open>strtoll\<close> in base 0 inverts \<open>"%d\n"\<close>.\<close>

lemma strto_base0_dec_nat:
  assumes "digit_of 10 c = None" "c \<noteq> CHR ''x''" "c \<noteq> CHR ''X''"
  shows "(case strto_base0 (dec_nat n @ c # cs) of (b, u) \<Rightarrow> strto_acc b 0 u) = n"
proof (cases "n = 0")
  case True
  have z: "dec_nat 0 = [CHR ''0'']"
    by (subst dec_nat.simps) (simp add: digit_char_def)
  from assms(1) have "digit_of 8 c = None"
    by (auto simp: digit_of_def Let_def split: if_splits option.splits)
  then show ?thesis
    using assms by (auto simp: True z digit_of_def split: list.splits)
next
  case False
  obtain x xs where d: "dec_nat n = x # xs"
    using dec_nat_nonempty by (meson list.exhaust)
  have "x \<noteq> CHR ''0''"
    using hd_dec_nat_zero [of n] False d by auto
  then have "strto_base0 (dec_nat n @ c # cs) = (10, dec_nat n @ c # cs)"
    unfolding d by simp
  then show ?thesis
    by (simp add: strto_acc_append [OF dec_nat_list_all] strto_acc_dec_nat assms(1))
qed

lemma strto_sign_dec_int:
  "strto_sign (dec_int i @ t) = (i < 0, dec_nat (nat \<bar>i\<bar>) @ t)"
proof (cases "i < 0")
  case True
  then show ?thesis by (simp add: dec_int_def is_space_def)
next
  case False
  obtain x xs where d: "dec_nat (nat i) = x # xs"
    using dec_nat_nonempty by (meson list.exhaust)
  then have "\<exists>e < 10. x = digit_char e"
    using dec_nat_digits [of x "nat i"] by simp
  then have "\<not> is_space x" "x \<noteq> CHR ''-''" "x \<noteq> CHR ''+''"
    by (auto simp: digit_char_eq_iff)
  with False d show ?thesis by (simp add: dec_int_def)
qed

theorem strtoll_dec_int:
  assumes "INT_MIN \<le> i" "i \<le> INT_MAX"
  shows "strtoll 0 (dec_int i @ nl) = (i, False)"
proof -
  have "digit_of 10 (CHR 0x0A) = None" by (simp add: digit_of_def)
  then have "(case strto_base0 (dec_nat (nat \<bar>i\<bar>) @ nl) of (b, u) \<Rightarrow> strto_acc b 0 u) = nat \<bar>i\<bar>"
    unfolding nl_def by (intro strto_base0_dec_nat) simp_all
  then show ?thesis
    using assms
    by (auto simp: strtoll_def strto_sign_dec_int INT_MIN_def INT_MAX_def LLONG_MAX_def
        LLONG_MIN_def Let_def split: prod.splits)
qed

end
