(* ===== verification/Posix.thy ===== *)
theory Posix
  imports Prelude
begin

text \<open>
  The operating system as the daemons see it.  The file system is a partial map from absolute
  path names to nodes; a \<open>FILE *\<close> is the path it was opened on, and writes reach the file at
  once (the sources never read a stream they are writing, and close it before anyone else looks).

  What the sources do not contain is collected in the record \<open>os\<close>, an argument of every
  operation that depends on it: \<open>os_sh\<close> is the shell behind \<open>systemf\<close> (exit status, the
  \<open>errno\<close> left behind, the file system afterwards), \<open>os_open\<close> and \<open>os_chmod\<close> say when the
  kernel refuses to open a file or change its mode, and the remaining fields stand for the kernel's
  table of network interfaces and for the JSON that \<open>ip -d -j link\<close> prints.  The printf-style
  wrappers of libite (\<open>systemf\<close>, \<open>fopenf\<close>, \<open>touchf\<close>) are the libc call they wrap.
\<close>

datatype fnode =
    FFile (content: string) (executable: bool)
  | FDir
  | FLink string

type_synonym fs = "string \<Rightarrow> fnode option"

record os =
  os_sh :: "string \<Rightarrow> fs \<Rightarrow> int \<times> int \<times> fs"
  os_open :: "string \<Rightarrow> string \<Rightarrow> fs \<Rightarrow> int"
  os_chmod :: "string \<Rightarrow> bool"
  os_ifindex :: "string \<Rightarrow> bool"
  os_popen_json :: "string \<Rightarrow> string option"
  os_json_str :: "string \<Rightarrow> string list \<Rightarrow> string option"

record world =
  w_fs :: fs
  w_errno :: int
  w_log :: "string list"

definition ENOENT :: int where "ENOENT = 2"
definition EIO :: int where "EIO = 5"
definition EEXIST :: int where "EEXIST = 17"
definition EISDIR :: int where "EISDIR = 21"
definition EINVAL :: int where "EINVAL = 22"
definition ERANGE :: int where "ERANGE = 34"
definition ENOSYS :: int where "ENOSYS = 38"
definition EUNATCH :: int where "EUNATCH = 49"
definition ENODATA :: int where "ENODATA = 61"
definition EOVERFLOW :: int where "EOVERFLOW = 75"

lemmas errno_defs =
  ENOENT_def EIO_def EEXIST_def EISDIR_def EINVAL_def ERANGE_def ENOSYS_def EUNATCH_def
  ENODATA_def EOVERFLOW_def

section \<open>Status of a process\<close>

text \<open>The status \<open>system\<close> returns, as the macros of \<open>wait\<close> take it apart; -1 if it could not run the
  command.\<close>

definition WEXITSTATUS :: "int \<Rightarrow> int" where "WEXITSTATUS status = status div 256 mod 256"
definition WIFEXITED :: "int \<Rightarrow> bool" where "WIFEXITED status = (status mod 128 = 0)"
definition WIFSIGNALED :: "int \<Rightarrow> bool" where
  "WIFSIGNALED status = (0 < status mod 128 \<and> status mod 128 < 127)"

section \<open>Primitive operations\<close>

definition systemf :: "os \<Rightarrow> string \<Rightarrow> world \<Rightarrow> int \<times> world" where
  "systemf os cmd w =
     (case os_sh os cmd (w_fs w) of
        (rc, e, fs') \<Rightarrow> (rc, w\<lparr>w_fs := fs', w_errno := e, w_log := w_log w @ [cmd]\<rparr>))"

definition fopen :: "os \<Rightarrow> string \<Rightarrow> string \<Rightarrow> world \<Rightarrow> string option \<times> world" where
  "fopen os path mode w =
     (if os_open os path mode (w_fs w) \<noteq> 0
      then (None, w\<lparr>w_errno := os_open os path mode (w_fs w)\<rparr>)
      else case w_fs w path of
        Some (FFile c x) \<Rightarrow>
          if mode = ''wx'' then (None, w\<lparr>w_errno := EEXIST\<rparr>)
          else if mode = ''w'' then (Some path, w\<lparr>w_fs := (w_fs w)(path \<mapsto> FFile [] x)\<rparr>)
          else (Some path, w)
      | Some n \<Rightarrow> (None, w\<lparr>w_errno := (if mode = ''wx'' then EEXIST else EISDIR)\<rparr>)
      | None \<Rightarrow>
          if mode = ''r'' then (None, w\<lparr>w_errno := ENOENT\<rparr>)
          else (Some path, w\<lparr>w_fs := (w_fs w)(path \<mapsto> FFile [] False)\<rparr>))"

definition fput :: "string \<Rightarrow> string \<Rightarrow> world \<Rightarrow> world" where
  "fput fp s w =
     (case w_fs w fp of
        Some (FFile c x) \<Rightarrow> w\<lparr>w_fs := (w_fs w)(fp \<mapsto> FFile (c @ s) x)\<rparr>
      | _ \<Rightarrow> w)"

text \<open>\<open>fchmod\<close> to a mode with the execute bits set.\<close>

definition fchmod_x :: "os \<Rightarrow> string \<Rightarrow> world \<Rightarrow> int \<times> world" where
  "fchmod_x os fp w =
     (if os_chmod os fp
      then (0, case w_fs w fp of
                 Some (FFile c x) \<Rightarrow> w\<lparr>w_fs := (w_fs w)(fp \<mapsto> FFile c True)\<rparr>
               | _ \<Rightarrow> w)
      else (-1, w))"

definition touchf :: "os \<Rightarrow> string \<Rightarrow> world \<Rightarrow> world" where
  "touchf os path w =
     (if os_open os path ''touch'' (w_fs w) \<noteq> 0
      then w\<lparr>w_errno := os_open os path ''touch'' (w_fs w)\<rparr>
      else case w_fs w path of
        None \<Rightarrow> w\<lparr>w_fs := (w_fs w)(path \<mapsto> FFile [] False)\<rparr>
      | Some _ \<Rightarrow> w)"

definition remove_file :: "string \<Rightarrow> world \<Rightarrow> world" where
  "remove_file path w = w\<lparr>w_fs := (w_fs w)(path := None)\<rparr>"

definition rename_file :: "string \<Rightarrow> string \<Rightarrow> world \<Rightarrow> world" where
  "rename_file a b w =
     (case w_fs w a of
        None \<Rightarrow> w\<lparr>w_errno := ENOENT\<rparr>
      | Some n \<Rightarrow> w\<lparr>w_fs := ((w_fs w)(b \<mapsto> n))(a := (if a = b then Some n else None))\<rparr>)"

text \<open>\<open>fgets\<close> with a buffer of \<open>n\<close> bytes: one line, its newline included, or \<open>n - 1\<close>
  characters of it.  \<^const>\<open>None\<close> is end of file.\<close>

fun get_line :: "nat \<Rightarrow> string \<Rightarrow> string \<times> string" where
  "get_line 0 s = ([], s)"
| "get_line (Suc k) [] = ([], [])"
| "get_line (Suc k) (c # cs) =
     (if c = CHR 0x0A then ([c], cs)
      else (case get_line k cs of (l, r) \<Rightarrow> (c # l, r)))"

definition fgets :: "nat \<Rightarrow> string \<Rightarrow> (string \<times> string) option" where
  "fgets n s = (if s = [] then None else Some (get_line (n - 1) s))"

text \<open>Words the shell takes literally: letters, digits and \<open>/ . - : @ _\<close>.  The sources pass names
  to the shell without quoting them, so what a command does is only known for such names.\<close>

definition safe_char :: "char \<Rightarrow> bool" where
  "safe_char c =
     (let n = (of_char c :: nat) in
      (45 \<le> n \<and> n \<le> 58) \<or> (64 \<le> n \<and> n \<le> 90) \<or> (97 \<le> n \<and> n \<le> 122) \<or> n = 95)"

definition shell_safe :: "string \<Rightarrow> bool" where
  "shell_safe s = (s \<noteq> [] \<and> list_all safe_char s)"

text \<open>A command that only adds names, and never changes or removes one that is there.\<close>

definition adds_only :: "os \<Rightarrow> string \<Rightarrow> bool" where
  "adds_only os cmd = (\<forall>fs q n. fs q = Some n \<longrightarrow> snd (snd (os_sh os cmd fs)) q = Some n)"

text \<open>\<open>mkdir -p\<close> and \<open>ln -s\<close> are such commands.\<close>

definition posix_tools :: "os \<Rightarrow> bool" where
  "posix_tools os =
     ((\<forall>p. shell_safe p \<longrightarrow> adds_only os (''mkdir -p '' @ p))
      \<and> (\<forall>t p. shell_safe t \<longrightarrow> shell_safe p \<longrightarrow> adds_only os (''ln -s '' @ t @ '' '' @ p)))"

section \<open>Frame and content lemmas\<close>

lemma fput_other [simp]: "q \<noteq> p \<Longrightarrow> w_fs (fput p s w) q = w_fs w q"
  by (simp add: fput_def split: option.splits fnode.splits)

lemma fput_same: "w_fs w p = Some (FFile c x) \<Longrightarrow> w_fs (fput p s w) p = Some (FFile (c @ s) x)"
  by (simp add: fput_def)

lemma fput_log [simp]: "w_log (fput p s w) = w_log w" "w_errno (fput p s w) = w_errno w"
  by (simp_all add: fput_def split: option.splits fnode.splits)

lemma fput_fput [simp]: "fput p t (fput p s w) = fput p (s @ t) w"
  by (simp add: fput_def split: option.splits fnode.splits)

lemma fopen_other: "fopen os p m w = (r, w') \<Longrightarrow> q \<noteq> p \<Longrightarrow> w_fs w' q = w_fs w q"
  by (auto simp: fopen_def split: if_splits option.splits fnode.splits)

lemma fopen_log: "fopen os p m w = (r, w') \<Longrightarrow> w_log w' = w_log w"
  by (auto simp: fopen_def split: if_splits option.splits fnode.splits)

lemma fopen_Some_path: "fopen os p m w = (Some fp, w') \<Longrightarrow> fp = p"
  by (auto simp: fopen_def split: if_splits option.splits fnode.splits)

lemma fopen_w_truncates:
  "fopen os p ''w'' w = (Some fp, w') \<Longrightarrow> \<exists>x. w_fs w' p = Some (FFile [] x)"
  by (auto simp: fopen_def split: if_splits option.splits fnode.splits)

lemma fopen_wx_fresh:
  "fopen os p ''wx'' w = (Some fp, w') \<Longrightarrow>
     w_fs w p = None \<and> w' = w\<lparr>w_fs := (w_fs w)(p \<mapsto> FFile [] False)\<rparr>"
  by (auto simp: fopen_def split: if_splits option.splits fnode.splits)

lemma fopen_wx_exists: "w_fs w p \<noteq> None \<Longrightarrow> fst (fopen os p ''wx'' w) = None"
  by (auto simp: fopen_def split: option.splits fnode.splits)

lemma fchmod_x_other:
  "fchmod_x os p w = (r, w') \<Longrightarrow> q \<noteq> p \<Longrightarrow> w_fs w' q = w_fs w q"
  by (auto simp: fchmod_x_def split: if_splits option.splits fnode.splits)

lemma fchmod_x_log: "fchmod_x os p w = (r, w') \<Longrightarrow> w_log w' = w_log w"
  by (auto simp: fchmod_x_def split: if_splits option.splits fnode.splits)

lemma fchmod_x_ok:
  "fchmod_x os p w = (0, w') \<Longrightarrow> w_fs w p = Some (FFile c x) \<Longrightarrow> w_fs w' p = Some (FFile c True)"
  by (auto simp: fchmod_x_def split: if_splits)

lemma touchf_log [simp]: "w_log (touchf os p w) = w_log w"
  by (simp add: touchf_def split: option.splits)

lemma touchf_other: "q \<noteq> p \<Longrightarrow> w_fs (touchf os p w) q = w_fs w q"
  by (simp add: touchf_def split: option.splits)

lemma systemf_log: "systemf os c w = (r, w') \<Longrightarrow> w_log w' = w_log w @ [c]"
  by (auto simp: systemf_def split: prod.splits)

lemma systemf_fs: "systemf os c w = (rc, w') \<Longrightarrow> \<exists>e. os_sh os c (w_fs w) = (rc, e, w_fs w')"
  by (auto simp: systemf_def split: prod.splits)

lemma systemf_sh:
  assumes "systemf os c w = (rc, w')"
  shows "fst (os_sh os c (w_fs w)) = rc" "snd (snd (os_sh os c (w_fs w))) = w_fs w'"
  using systemf_fs [OF assms] by auto

lemma get_line_append: "get_line k s = (l, r) \<Longrightarrow> s = l @ r"
  by (induction k s arbitrary: l r rule: get_line.induct) (auto split: if_splits prod.splits)

lemma get_line_length: "get_line k s = (l, r) \<Longrightarrow> length l \<le> k"
  by (induction k s arbitrary: l r rule: get_line.induct) (auto split: if_splits prod.splits)

lemma get_line_exact:
  "CHR 0x0A \<notin> set s \<Longrightarrow> length s < k \<Longrightarrow> get_line k (s @ CHR 0x0A # t) = (s @ [CHR 0x0A], t)"
proof (induction s arbitrary: k)
  case Nil
  then obtain k' where "k = Suc k'" by (cases k) auto
  then show ?case by simp
next
  case (Cons c s)
  then obtain k' where "k = Suc k'" "length s < k'" by (cases k) auto
  with Cons show ?case by auto
qed

lemma systemf_adds_only:
  "adds_only os c \<Longrightarrow> systemf os c w = (rc, w') \<Longrightarrow> w_fs w q = Some n \<Longrightarrow> w_fs w' q = Some n"
  by (auto simp: adds_only_def systemf_def split: prod.splits) (metis snd_conv)

lemma safe_char_dec_int: "list_all safe_char (dec_int i)"
  by (auto simp: dec_int_def safe_char_def list_all_iff Let_def dest!: dec_nat_digits)

lemma posix_toolsD:
  "posix_tools os \<Longrightarrow> shell_safe p \<Longrightarrow> adds_only os (''mkdir -p '' @ p)"
  "posix_tools os \<Longrightarrow> shell_safe t \<Longrightarrow> shell_safe p \<Longrightarrow> adds_only os (''ln -s '' @ t @ '' '' @ p)"
  unfolding posix_tools_def by blast+

end
