(* ===== verification/Helpers.thy ===== *)
theory Helpers
  imports Posix
begin

text \<open>
  \<open>src/src/confd/src/lib/helpers.c\<close>: files whose name is given by a format string.  The model
  takes the formatted name; \<open>vreadllf\<close> and \<open>readdf\<close> return \<^const>\<open>None\<close> where the source
  returns -1.
\<close>

definition fexistf :: "string \<Rightarrow> world \<Rightarrow> bool" where
  "fexistf file w = (w_fs w file \<noteq> None)"

definition open_file :: "os \<Rightarrow> string \<Rightarrow> string \<Rightarrow> world \<Rightarrow> string option \<times> world" where
  "open_file os mode file w = fopen os file mode w"

definition file_text :: "world \<Rightarrow> string \<Rightarrow> string" where
  "file_text w fp = (case w_fs w fp of Some (FFile c x) \<Rightarrow> c | _ \<Rightarrow> [])"

definition vreadllf :: "os \<Rightarrow> string \<Rightarrow> world \<Rightarrow> int option \<times> world" where
  "vreadllf os file w =
     (case open_file os ''r'' file w of
        (None, w) \<Rightarrow> (None, w)
      | (Some fp, w) \<Rightarrow>
          (case fgets 256 (file_text w fp) of
             None \<Rightarrow> (None, w)
           | Some (line, rest) \<Rightarrow>
               (case strtoll 0 line of
                  (v, erange) \<Rightarrow>
                    if erange then (None, w\<lparr>w_errno := ERANGE\<rparr>)
                    else (Some v, w\<lparr>w_errno := 0\<rparr>))))"

definition readllf :: "os \<Rightarrow> string \<Rightarrow> world \<Rightarrow> int option \<times> world" where
  "readllf os file w = vreadllf os file w"

definition readdf :: "os \<Rightarrow> string \<Rightarrow> world \<Rightarrow> int option \<times> world" where
  "readdf os file w =
     (case vreadllf os file w of
        (None, w) \<Rightarrow> (None, w)
      | (Some tmp, w) \<Rightarrow>
          if tmp < INT_MIN \<or> INT_MAX < tmp then (None, w) else (Some tmp, w))"

definition writedf :: "os \<Rightarrow> int \<Rightarrow> string \<Rightarrow> string \<Rightarrow> world \<Rightarrow> int \<times> world" where
  "writedf os value mode file w =
     (case open_file os mode file w of
        (None, w) \<Rightarrow> (-1, w)
      | (Some fp, w) \<Rightarrow> (0, fput fp (dec_int value @ nl) w))"

definition writesf :: "os \<Rightarrow> string \<Rightarrow> string \<Rightarrow> string \<Rightarrow> world \<Rightarrow> int \<times> world" where
  "writesf os str mode file w =
     (case open_file os mode file w of
        (None, w) \<Rightarrow> (-1, w)
      | (Some fp, w) \<Rightarrow> (0, fput fp (str @ nl) w))"

lemma vreadllf_fs: "vreadllf os file w = (r, w') \<Longrightarrow> w_fs w' = w_fs w \<and> w_log w' = w_log w"
  by (auto simp: vreadllf_def open_file_def fopen_def
      split: option.splits prod.splits if_splits fnode.splits)

lemma readdf_fs: "readdf os file w = (r, w') \<Longrightarrow> w_fs w' = w_fs w \<and> w_log w' = w_log w"
  by (auto simp: readdf_def dest!: vreadllf_fs split: prod.splits option.splits if_splits)

lemma readdf_range: "readdf os file w = (Some v, w') \<Longrightarrow> INT_MIN \<le> v \<and> v \<le> INT_MAX"
  by (auto simp: readdf_def split: prod.splits option.splits if_splits)

lemma readdf_missing: "w_fs w file = None \<Longrightarrow> fst (readdf os file w) = None"
  by (simp add: readdf_def vreadllf_def open_file_def fopen_def split: if_splits)

lemma readdf_cong:
  assumes "w_fs w file = w_fs v file"
    and "os_open os file ''r'' (w_fs w) = 0" "os_open os file ''r'' (w_fs v) = 0"
  shows "fst (readdf os file w) = fst (readdf os file v)"
  using assms
  by (auto simp: readdf_def vreadllf_def open_file_def fopen_def file_text_def
      split: option.splits prod.splits fnode.splits)

lemma dec_int_no_newline: "CHR 0x0A \<notin> set (dec_int i)"
  by (auto simp: dec_int_def digit_char_eq_iff dest!: dec_nat_digits)

lemma length_dec_nat: "n < 10 ^ Suc k \<Longrightarrow> length (dec_nat n) \<le> Suc k"
proof (induction k arbitrary: n)
  case 0
  then show ?case by (subst dec_nat.simps) simp
next
  case (Suc k)
  show ?case
  proof (cases "n < 10")
    case True
    then show ?thesis by (subst dec_nat.simps) simp
  next
    case False
    from Suc.prems have "n div 10 < 10 ^ Suc k" by (simp add: less_mult_imp_div_less)
    then have "length (dec_nat (n div 10)) \<le> Suc k" by (rule Suc.IH)
    with False show ?thesis by (subst dec_nat.simps) simp
  qed
qed

lemma length_dec_int:
  assumes "INT_MIN \<le> i" "i \<le> INT_MAX"
  shows "length (dec_int i) \<le> 11"
proof -
  have "nat \<bar>i\<bar> < 10 ^ Suc 9"
    using assms by (simp add: INT_MIN_def INT_MAX_def)
  then have "length (dec_nat (nat \<bar>i\<bar>)) \<le> 10"
    using length_dec_nat [of "nat \<bar>i\<bar>" 9] by simp
  then show ?thesis
    by (cases "i < 0") (simp_all add: dec_int_def)
qed

lemma readdf_text:
  assumes "w_fs w file = Some (FFile (dec_int i @ nl) x)"
    and "os_open os file ''r'' (w_fs w) = 0"
    and "INT_MIN \<le> i" "i \<le> INT_MAX"
  shows "fst (readdf os file w) = Some i"
proof -
  have "get_line 255 (dec_int i @ nl) = (dec_int i @ nl, [])"
    using get_line_exact [OF dec_int_no_newline, of i 255 "[]"] length_dec_int [OF assms(3,4)]
    by (simp add: nl_def)
  then have "fgets 256 (dec_int i @ nl) = Some (dec_int i @ nl, [])"
    by (simp add: fgets_def nl_def)
  then show ?thesis
    using assms strtoll_dec_int [OF assms(3,4)]
    by (simp add: readdf_def vreadllf_def open_file_def fopen_def file_text_def)
qed

section \<open>Reading a file line by line\<close>

text \<open>The lines a loop over \<open>fgets\<close> with a buffer of \<open>n\<close> bytes sees.  The buffers of the source
  have room for at least one character; with less the loop would not advance.\<close>

function read_lines :: "nat \<Rightarrow> string \<Rightarrow> string list" where
  "read_lines n s =
     (case fgets n s of
        None \<Rightarrow> []
      | Some (l, r) \<Rightarrow> if n < 2 then [] else l # read_lines n r)"
  by auto
termination
proof (relation "measure (\<lambda>(n, s). length s)", goal_cases)
  case (2 n s y l r)
  then obtain c cs k where "s = c # cs" "n - 1 = Suc k"
    by (cases s; cases "n - 1") (auto simp: fgets_def)
  with 2 show ?case
    by (auto simp: fgets_def split: if_splits prod.splits dest: get_line_append)
qed simp

declare read_lines.simps [simp del]

abbreviation unlines :: "string list \<Rightarrow> string" where
  "unlines xs \<equiv> concat (map (\<lambda>x. x @ nl) xs)"

lemma read_lines_Nil [simp]: "read_lines n [] = []"
  by (subst read_lines.simps) (simp add: fgets_def)

lemma read_lines_line:
  "CHR 0x0A \<notin> set x \<Longrightarrow> length x + 1 < n \<Longrightarrow> read_lines n (x @ nl @ t) = (x @ nl) # read_lines n t"
  by (subst read_lines.simps) (simp add: fgets_def nl_def get_line_exact)

lemma read_lines_unlines:
  "\<forall>x \<in> set xs. CHR 0x0A \<notin> set x \<and> length x + 1 < n \<Longrightarrow>
     read_lines n (unlines xs) = map (\<lambda>x. x @ nl) xs"
  by (induction xs) (simp_all add: read_lines_line)

section \<open>The text of a file\<close>

definition text_of :: "world \<Rightarrow> string \<Rightarrow> string option" where
  "text_of w path = (case w_fs w path of Some (FFile c m) \<Rightarrow> Some c | _ \<Rightarrow> None)"

lemma text_of_cong: "w_fs w' q = w_fs w q \<Longrightarrow> text_of w' q = text_of w q"
  by (simp add: text_of_def)

lemma remove_file_fs [simp]: "w_fs (remove_file p w) q = (if q = p then None else w_fs w q)"
  by (simp add: remove_file_def)

lemma fopen_w_put:
  assumes "fopen os p ''w'' w = (Some fp, w')"
  shows "text_of (fput fp s w') p = Some s" "\<forall>q. q \<noteq> p \<longrightarrow> w_fs (fput fp s w') q = w_fs w q"
  using assms
  by (auto simp: fopen_def fput_def text_of_def split: if_splits option.splits fnode.splits)

lemma fopen_w_fail: "fopen os p m w = (None, w') \<Longrightarrow> w_fs w' = w_fs w"
  by (auto simp: fopen_def split: if_splits option.splits fnode.splits)

end
