(* ===== verification/NetTool.thy ===== *)
theory NetTool
  imports Helpers "HOL-Library.Word"
begin

text \<open>
  The \<open>net\<close> tool, \<open>src/src/net/src/main.c\<close>: it takes the system from the current network
  generation to the next one by running the scripts of each interface, the interfaces an interface
  depends on first, and it brings interfaces up and down.

  A generation is a directory \<open><net>/<gen>\<close> with one directory per interface, whose
  sub-directory \<open>deps\<close> holds links to the interfaces it depends on.  That tree is not changed
  while the tool runs and is read through libite and the kernel: the record \<open>net_env\<close> has the
  entries of a directory (\<open>n_ls\<close>, in the order \<open>dir\<close> lists them), \<open>realpath\<close> (an errno on
  the left, the resolved name on the right), \<open>access\<close> (0 or an errno), \<open>makedir\<close>, \<open>getenv\<close>,
  \<open>popen\<close>, the result of \<open>fclose\<close> and libite's \<open>chomp\<close>.  The files the tool itself reads and
  writes (\<open>deps\<close>, \<open>rdeps\<close>, \<open>gen\<close>, \<open>next\<close>, \<open>admin-state\<close> and the scripts) are those of
  the file system of the theory \<open>Posix\<close>.

  \<^const>\<open>None\<close> is a run that does not return: the use of a stream that was closed, or a recursion
  of \<open>deps\<close> deeper than the given number of calls.  \<open>Inl c\<close> is \<open>exit (c)\<close>.  What reaches the
  two pipes and the shell is recorded in \<open>n_trace\<close>.  Messages are not modelled.
\<close>

datatype cmd_t = INVAL | DO | UP | DOWN

datatype pipe = IpPipe | BridgePipe

datatype pipe_state = PNull | POpen | PClosed

datatype nev =
    RunPipe pipe string "string list"
  | RunShell string
  | ClosePipe pipe

record net_env =
  n_os :: os
  n_ls :: "string \<Rightarrow> string list"
  n_realpath :: "string \<Rightarrow> int + string"
  n_access :: "string \<Rightarrow> int"
  n_makedir :: "string \<Rightarrow> bool"
  n_getenv :: "string \<Rightarrow> string option"
  n_popen :: "string \<Rightarrow> bool"
  n_fclose :: "string \<Rightarrow> int"
  n_chomp :: "string \<Rightarrow> string"

record net_st =
  n_w :: world
  iface_list :: "string list"
  dep :: int
  ip_stream :: pipe_state
  bridge_stream :: pipe_state
  n_trace :: "nev list"

definition IFNAMSIZ :: nat where "IFNAMSIZ = 16"
definition ENOTDIR :: int where "ENOTDIR = 20"
definition EX_USAGE :: int where "EX_USAGE = 64"
definition EX_OSFILE :: int where "EX_OSFILE = 72"
definition EX_IOERR :: int where "EX_IOERR = 74"

section \<open>Strings and streams\<close>

definition atoi :: "string \<Rightarrow> int" where
  "atoi s = sint (word_of_int (fst (strtoll 10 s)) :: 32 word)"

section \<open>The list of interfaces\<close>

definition addif :: "string \<Rightarrow> net_st \<Rightarrow> net_st" where
  "addif ifname st = st\<lparr>iface_list := iface_list st @ [take (IFNAMSIZ - 1) ifname]\<rparr>"

definition findif :: "string \<Rightarrow> net_st \<Rightarrow> bool" where
  "findif ifname st = (ifname \<in> set (iface_list st))"

definition freeifs :: "net_st \<Rightarrow> net_st" where
  "freeifs st = st\<lparr>iface_list := []\<rparr>"

definition savedep :: "net_env \<Rightarrow> string \<Rightarrow> net_st \<Rightarrow> net_st" where
  "savedep env ipath st =
     (let ifname = basename ipath; path = dirname ipath in
      case fopen (n_os env) (path @ ''/deps'') ''a+'' (n_w st) of
        (None, w) \<Rightarrow> st\<lparr>n_w := w\<rparr>
      | (Some fp, w) \<Rightarrow>
          if ifname \<in> set (map (n_chomp env) (read_lines 20 (file_text w fp)))
          then st\<lparr>n_w := w\<rparr>
          else st\<lparr>dep := dep st + 1, n_w := fput fp (ifname @ nl) w\<rparr>)"

definition save_rdeps :: "net_env \<Rightarrow> string \<Rightarrow> string \<Rightarrow> net_st \<Rightarrow> int \<times> net_st" where
  "save_rdeps env path gen st =
     (case systemf (n_os env)
             (''sed '' @ sq @ ''1!G;h;$!d'' @ sq @ '' < '' @ path @ ''/'' @ gen @ ''/deps >'' @
              path @ ''/'' @ gen @ ''/rdeps'') (n_w st) of
        (rc, w) \<Rightarrow> (rc, st\<lparr>n_w := w\<rparr>))"

section \<open>Running an action\<close>

definition stream_of :: "net_st \<Rightarrow> pipe \<Rightarrow> pipe_state" where
  "stream_of st p = (case p of IpPipe \<Rightarrow> ip_stream st | BridgePipe \<Rightarrow> bridge_stream st)"

definition pipep :: "net_st \<Rightarrow> string \<Rightarrow> pipe option" where
  "pipep st action =
     (let some = (\<lambda>p. if stream_of st p = PNull then None else Some p) in
      case rindex action (CHR ''.'') of
        None \<Rightarrow> None
      | Some ptr \<Rightarrow>
          if ptr = ''.ip'' then some IpPipe
          else if ptr = ''.bridge'' then some BridgePipe
          else None)"

definition pipeit :: "net_env \<Rightarrow> pipe \<Rightarrow> string \<Rightarrow> net_st \<Rightarrow> (int \<times> net_st) option" where
  "pipeit env pp action st =
     (case fopen (n_os env) action ''r'' (n_w st) of
        (None, w) \<Rightarrow> Some (0, st\<lparr>n_w := w, n_trace := n_trace st @ [RunPipe pp action []]\<rparr>)
      | (Some fp, w) \<Rightarrow>
          (let lines = map (n_chomp env) (read_lines 256 (file_text w fp)) in
           if lines \<noteq> [] \<and> stream_of st pp \<noteq> POpen then None
           else Some (n_fclose env action,
                      st\<lparr>n_w := w, n_trace := n_trace st @ [RunPipe pp action lines]\<rparr>)))"

definition run :: "net_env \<Rightarrow> string \<Rightarrow> net_st \<Rightarrow> (int \<times> net_st) option" where
  "run env action st =
     (case pipep st action of
        Some pp \<Rightarrow> pipeit env pp action st
      | None \<Rightarrow>
          (case systemf (n_os env) action (n_w st) of
             (rc, w) \<Rightarrow> Some (0, st\<lparr>n_w := w, n_trace := n_trace st @ [RunShell action]\<rparr>)))"

definition pclose :: "pipe \<Rightarrow> net_st \<Rightarrow> net_st option" where
  "pclose pp st =
     (if stream_of st pp \<noteq> POpen then None
      else Some ((case pp of
                    IpPipe \<Rightarrow> st\<lparr>ip_stream := PClosed\<rparr>
                  | BridgePipe \<Rightarrow> st\<lparr>bridge_stream := PClosed\<rparr>)
                 \<lparr>n_trace := n_trace st @ [ClosePipe pp]\<rparr>))"

section \<open>Dependency order\<close>

definition dir_filter :: "string \<Rightarrow> bool" where
  "dir_filter file = (file \<notin> set [''deps'', ''rdeps'', ''admin-state''])"

definition dir :: "net_env \<Rightarrow> string \<Rightarrow> string list" where
  "dir env path = filter dir_filter (n_ls env path)"

text \<open>The loop of \<open>deps\<close> over the links: \<open>call\<close> is the recursive call, whose result the source
  drops.\<close>

fun deps_loop ::
  "net_env \<Rightarrow> (string \<Rightarrow> string \<Rightarrow> net_st \<Rightarrow> (int \<times> net_st) option) \<Rightarrow> string \<Rightarrow> string list \<Rightarrow>
   net_st \<Rightarrow> net_st option" where
  "deps_loop env call path [] st = Some st"
| "deps_loop env call path (ifnm # files) st =
     (case n_realpath env (path @ ''/'' @ ifnm) of
        Inl e \<Rightarrow> deps_loop env call path files st
      | Inr rp \<Rightarrow> do { (rc, st) \<leftarrow> call rp ifnm st; deps_loop env call path files st })"

definition do_action :: "net_env \<Rightarrow> string \<Rightarrow> string \<Rightarrow> net_st \<Rightarrow> (int \<times> net_st) option" where
  "do_action env ipath action st =
     (let no_action = (\<lambda>e. Some (if e = ENOENT \<or> e = ENOTDIR then 0 else -1, st)) in
      case n_realpath env (ipath @ ''/'' @ action) of
        Inl e \<Rightarrow> no_action e
      | Inr cmd \<Rightarrow>
          if n_access env cmd \<noteq> 0 then no_action (n_access env cmd) else run env cmd st)"

primrec deps ::
  "nat \<Rightarrow> net_env \<Rightarrow> string \<Rightarrow> string \<Rightarrow> string \<Rightarrow> net_st \<Rightarrow> (int \<times> net_st) option" where
  "deps 0 env ipath ifname action st = None"
| "deps (Suc n) env ipath ifname action st =
     do {
       st \<leftarrow> deps_loop env (\<lambda>rp ifnm. deps n env rp ifnm action) (ipath @ ''/deps'')
              (dir env (ipath @ ''/deps'')) st;
       let st = savedep env ipath st;
       if findif ifname st then Some (0, st)
       else do {
         (rc, st) \<leftarrow> do_action env ipath action st;
         Some (rc, addif ifname st)
       }
     }"

fun iter_loop ::
  "nat \<Rightarrow> net_env \<Rightarrow> string \<Rightarrow> nat \<Rightarrow> string \<Rightarrow> string list \<Rightarrow> int \<Rightarrow> net_st \<Rightarrow>
   (int \<times> net_st) option" where
  "iter_loop n env path len action [] rc st = Some (rc, st)"
| "iter_loop n env path len action (ifname # files) rc st =
     do {
       (r, st) \<leftarrow> deps n env (snprintf len (path @ ''/'' @ ifname)) ifname action st;
       iter_loop n env path len action files (rc + r) st
     }"

definition iter ::
  "nat \<Rightarrow> net_env \<Rightarrow> string \<Rightarrow> nat \<Rightarrow> string \<Rightarrow> net_st \<Rightarrow> (int \<times> net_st) option" where
  "iter n env path len action st =
     do {
       (rc, st) \<leftarrow> iter_loop n env path len action (dir env path) 0 st;
       let st = freeifs st;
       st \<leftarrow> (case pipep st action of None \<Rightarrow> Some st | Some pp \<Rightarrow> pclose pp st);
       Some (rc, st)
     }"

fun rdeps_loop ::
  "net_env \<Rightarrow> string \<Rightarrow> nat \<Rightarrow> string \<Rightarrow> string list \<Rightarrow> int \<Rightarrow> net_st \<Rightarrow> (int \<times> net_st) option" where
  "rdeps_loop env path len action [] rc st = Some (rc, st)"
| "rdeps_loop env path len action (line # lines) rc st =
     (let cmd = snprintf (len + 20 + length action)
                  (path @ ''/'' @ n_chomp env line @ ''/'' @ action) in
      if n_access env cmd \<noteq> 0 then rdeps_loop env path len action lines rc st
      else do {
        (r, st) \<leftarrow> run env cmd st;
        rdeps_loop env path len action lines (rc + r) st
      })"

definition rdeps ::
  "net_env \<Rightarrow> string \<Rightarrow> nat \<Rightarrow> string \<Rightarrow> net_st \<Rightarrow> (int \<times> net_st) option" where
  "rdeps env path len action st =
     (case fopen (n_os env) (path @ ''/rdeps'') ''r'' (n_w st) of
        (None, w) \<Rightarrow> Some (0, st\<lparr>n_w := w\<rparr>)
      | (Some fp, w) \<Rightarrow>
          rdeps_loop env path len action (read_lines 20 (file_text w fp)) 0 (st\<lparr>n_w := w\<rparr>))"

section \<open>Generations\<close>

text \<open>The loop of \<open>activate\<close> and \<open>deactivate\<close> over their actions.\<close>

fun each_action ::
  "(string \<Rightarrow> net_st \<Rightarrow> (int \<times> net_st) option) \<Rightarrow> string list \<Rightarrow> int \<Rightarrow> net_st \<Rightarrow>
   (int \<times> net_st) option" where
  "each_action f [] rc st = Some (rc, st)"
| "each_action f (a # as) rc st = do { (r, st) \<leftarrow> f a st; each_action f as (rc + r) st }"

definition deactivate :: "net_env \<Rightarrow> string \<Rightarrow> string \<Rightarrow> net_st \<Rightarrow> (int \<times> net_st) option" where
  "deactivate env net gen st =
     (let len = length net + length gen + 5 + IFNAMSIZ; path = snprintf len (net @ ''/'' @ gen) in
      each_action (rdeps env path len) [''exit.bridge'', ''exit.ip'', ''exit-ethtool.sh''] 0 st)"

definition activate ::
  "nat \<Rightarrow> net_env \<Rightarrow> string \<Rightarrow> string \<Rightarrow> net_st \<Rightarrow> (int \<times> net_st) option" where
  "activate n env net gen st =
     (let len = length net + length gen + 5 + IFNAMSIZ; path = snprintf len (net @ ''/'' @ gen) in
      each_action (iter n env path len) [''init-ethtool.sh'', ''init.ip'', ''init.bridge''] 0 st)"

text \<open>The result code, the line read and the state.\<close>

definition load_gen ::
  "net_env \<Rightarrow> string \<Rightarrow> string \<Rightarrow> nat \<Rightarrow> net_st \<Rightarrow> int \<times> string \<times> net_st" where
  "load_gen env net gen len st =
     (case fopen (n_os env) (net @ ''/'' @ gen) ''r'' (n_w st) of
        (None, w) \<Rightarrow> (EX_OSFILE, [], st\<lparr>n_w := w\<rparr>)
      | (Some fp, w) \<Rightarrow>
          (case fgets len (file_text w fp) of
             None \<Rightarrow> (EX_IOERR, [], st\<lparr>n_w := w\<rparr>)
           | Some (buf, r) \<Rightarrow> (0, n_chomp env buf, st\<lparr>n_w := w\<rparr>)))"

definition save_gen :: "net_env \<Rightarrow> string \<Rightarrow> string \<Rightarrow> string \<Rightarrow> net_st \<Rightarrow> int \<times> net_st" where
  "save_gen env net gen buf st =
     (case fopen (n_os env) (net @ ''/'' @ gen) ''w'' (n_w st) of
        (None, w) \<Rightarrow> (-1, st\<lparr>n_w := w\<rparr>)
      | (Some fp, w) \<Rightarrow> (0, st\<lparr>n_w := fput fp (buf @ nl) w\<rparr>))"

definition pipe_init :: "net_env \<Rightarrow> net_st \<Rightarrow> (int + unit) \<times> net_st" where
  "pipe_init env st =
     (if \<not> n_popen env ''ip -batch -'' then (Inl 1, st)
      else if \<not> n_popen env ''bridge -batch -'' then (Inl 1, st\<lparr>ip_stream := POpen\<rparr>)
      else (Inr (), st\<lparr>ip_stream := POpen, bridge_stream := POpen\<rparr>))"

definition getnet :: "net_env \<Rightarrow> int + string" where
  "getnet env =
     (let net = (case n_getenv env ''NET_DIR'' of None \<Rightarrow> ''/run/net'' | Some d \<Rightarrow> d) in
      if n_access env net \<noteq> 0 \<and> \<not> n_makedir env net then Inl 1 else Inr net)"

definition getpath :: "net_env \<Rightarrow> net_st \<Rightarrow> (int + string) \<times> net_st" where
  "getpath env st =
     (case getnet env of
        Inl c \<Rightarrow> (Inl c, st)
      | Inr net \<Rightarrow>
          (case fopen (n_os env) (net @ ''/gen'') ''r'' (n_w st) of
             (None, w) \<Rightarrow> (Inl 1, st\<lparr>n_w := w\<rparr>)
           | (Some fp, w) \<Rightarrow>
               (case fgets 40 (file_text w fp) of
                  None \<Rightarrow> (Inl 1, st\<lparr>n_w := w\<rparr>)
                | Some (buf, r) \<Rightarrow>
                    (Inr (snprintf (length net + 42) (net @ ''/'' @ dec_int (atoi buf))),
                     st\<lparr>n_w := w\<rparr>))))"

definition getifs :: "net_env \<Rightarrow> net_st \<Rightarrow> (int + unit) \<times> net_st" where
  "getifs env st =
     (case getpath env st of
        (Inl c, st) \<Rightarrow> (Inl c, st)
      | (Inr path, st) \<Rightarrow> (Inr (), fold addif (dir env path) st))"

definition ifadmin :: "net_env \<Rightarrow> string \<Rightarrow> nat \<Rightarrow> net_st \<Rightarrow> (int + string) \<times> net_st" where
  "ifadmin env ifname len st =
     (case getpath env st of
        (Inl c, st) \<Rightarrow> (Inl c, st)
      | (Inr path, st) \<Rightarrow> (Inr (snprintf len (path @ ''/'' @ ifname @ ''/admin-state'')), st))"

definition allowed :: "net_env \<Rightarrow> string \<Rightarrow> net_st \<Rightarrow> (int + bool) \<times> net_st" where
  "allowed env ifname st =
     (case ifadmin env ifname 128 st of
        (Inl c, st) \<Rightarrow> (Inl c, st)
      | (Inr buf, st) \<Rightarrow>
          (case fopen (n_os env) buf ''r'' (n_w st) of
             (None, w) \<Rightarrow> (Inr True, st\<lparr>n_w := w\<rparr>)
           | (Some fp, w) \<Rightarrow>
               (case fgets 128 (file_text w fp) of
                  None \<Rightarrow> (Inr True, st\<lparr>n_w := w\<rparr>)
                | Some (line, r) \<Rightarrow> (Inr (n_chomp env line \<noteq> ''disabled''), st\<lparr>n_w := w\<rparr>))))"

definition save_admin :: "net_env \<Rightarrow> string \<Rightarrow> string \<Rightarrow> net_st \<Rightarrow> (int + unit) \<times> net_st" where
  "save_admin env ifname action st =
     (case ifadmin env ifname 128 st of
        (Inl c, st) \<Rightarrow> (Inl c, st)
      | (Inr buf, st) \<Rightarrow>
          (case fopen (n_os env) buf ''w'' (n_w st) of
             (None, w) \<Rightarrow> (Inr (), st\<lparr>n_w := w\<rparr>)
           | (Some fp, w) \<Rightarrow> (Inr (), st\<lparr>n_w := fput fp (action @ nl) w\<rparr>)))"

fun ifupdown_loop ::
  "net_env \<Rightarrow> string \<Rightarrow> string list \<Rightarrow> int \<Rightarrow> net_st \<Rightarrow> (int + int) \<times> net_st" where
  "ifupdown_loop env action [] rc st = (Inr rc, st)"
| "ifupdown_loop env action (ifname # ifs) rc st =
     (case allowed env ifname st of
        (Inl c, st) \<Rightarrow> (Inl c, st)
      | (Inr False, st) \<Rightarrow> ifupdown_loop env action ifs rc st
      | (Inr True, st) \<Rightarrow>
          (case systemf (n_os env) (''ip link set '' @ ifname @ '' '' @ action) (n_w st) of
             (result, w) \<Rightarrow>
               if result \<noteq> 0 then ifupdown_loop env action ifs (rc + result) (st\<lparr>n_w := w\<rparr>)
               else (case save_admin env ifname action (st\<lparr>n_w := w\<rparr>) of
                       (Inl c, st) \<Rightarrow> (Inl c, st)
                     | (Inr u, st) \<Rightarrow> ifupdown_loop env action ifs (rc + result) st)))"

definition ifupdown :: "net_env \<Rightarrow> bool \<Rightarrow> net_st \<Rightarrow> (int + int) \<times> net_st" where
  "ifupdown env updown st =
     (let action = (if updown then ''up'' else ''down'') in
      case (if iface_list st = [] then getifs env st else (Inr (), st)) of
        (Inl c, st) \<Rightarrow> (Inl c, st)
      | (Inr u, st) \<Rightarrow> ifupdown_loop env action (iface_list st) 0 st)"

definition fremove :: "string \<Rightarrow> net_st \<Rightarrow> int \<times> net_st" where
  "fremove path st =
     (if w_fs (n_w st) path = None then (-1, st) else (0, st\<lparr>n_w := remove_file path (n_w st)\<rparr>))"

text \<open>The second half of \<open>activate_next\<close>, from the call of \<open>activate\<close> on.\<close>

definition activate_new ::
  "nat \<Rightarrow> net_env \<Rightarrow> string \<Rightarrow> string \<Rightarrow> net_st \<Rightarrow> ((int + int) \<times> net_st) option" where
  "activate_new n env net next st =
     do {
       (rc, st) \<leftarrow> activate n env net next st;
       if rc \<noteq> 0 then Some (Inl 1, st)
       else (case (if dep st \<noteq> 0 then save_rdeps env net next st else (0, st)) of
         (rc, st) \<Rightarrow>
           if rc \<noteq> 0 then Some (Inl 1, st)
           else (case save_gen env net ''gen'' next st of
             (rc, st) \<Rightarrow>
               if rc \<noteq> 0 then Some (Inl 1, st)
               else (case fremove (net @ ''/next'') st of
                 (rc, st) \<Rightarrow> if rc \<noteq> 0 then Some (Inl 1, st) else Some (Inr 0, st))))
     }"

definition activate_next :: "nat \<Rightarrow> net_env \<Rightarrow> net_st \<Rightarrow> ((int + int) \<times> net_st) option" where
  "activate_next n env st =
     (case getnet env of
        Inl c \<Rightarrow> Some (Inl c, st)
      | Inr net \<Rightarrow>
          (case pipe_init env st of
             (Inl c, st) \<Rightarrow> Some (Inl c, st)
           | (Inr u, st) \<Rightarrow>
               (case load_gen env net ''next'' 512 st of
                  (rc, next, st) \<Rightarrow>
                    if rc \<noteq> 0 then Some (Inl 0, st)
                    else (case load_gen env net ''gen'' 512 st of
                      (rc, cur, st) \<Rightarrow>
                        if rc = EX_IOERR then Some (Inl rc, st)
                        else if rc \<noteq> 0 then activate_new n env net next st
                        else do {
                          (rc, st) \<leftarrow> deactivate env net cur st;
                          if rc \<noteq> 0 then Some (Inl 1, st) else activate_new n env net next st
                        }))))"

section \<open>The command line\<close>

definition act :: "nat \<Rightarrow> net_env \<Rightarrow> cmd_t \<Rightarrow> net_st \<Rightarrow> ((int + int) \<times> net_st) option" where
  "act n env cmd st =
     (case cmd of
        DO \<Rightarrow> activate_next n env st
      | UP \<Rightarrow> Some (ifupdown env True st)
      | DOWN \<Rightarrow> Some (ifupdown env False st)
      | INVAL \<Rightarrow> Some (Inr EX_USAGE, freeifs st))"

definition transform :: "string \<Rightarrow> cmd_t" where
  "transform arg0 =
     (let prognm = (case rindex arg0 (CHR ''/'') of None \<Rightarrow> arg0 | Some t \<Rightarrow> tl t) in
      if prognm = ''ifup'' then UP else if prognm = ''ifdown'' then DOWN else INVAL)"

text \<open>The loop over \<open>getopt (argc, argv, "adhv")\<close>, with the operands it leaves behind: options may
  stand anywhere before \<open>--\<close>.  On the left is the argument of \<open>usage\<close>.\<close>

fun net_opts :: "string \<Rightarrow> int + unit" where
  "net_opts [] = Inr ()"
| "net_opts (c # cs) =
     (if c \<in> set ''adv'' then net_opts cs else if c = CHR ''h'' then Inl 0 else Inl 1)"

fun net_getopt :: "string list \<Rightarrow> int + string list" where
  "net_getopt [] = Inr []"
| "net_getopt (a # as) =
     (if a = ''--'' then Inr as
      else if 2 \<le> length a \<and> hd a = CHR ''-'' then
        (case net_opts (tl a) of Inl c \<Rightarrow> Inl c | Inr u \<Rightarrow> net_getopt as)
      else (case net_getopt as of Inl c \<Rightarrow> Inl c | Inr ops \<Rightarrow> Inr (a # ops)))"

fun operands :: "string list \<Rightarrow> cmd_t \<Rightarrow> net_st \<Rightarrow> cmd_t \<times> net_st" where
  "operands [] cmd st = (cmd, st)"
| "operands (a # as) cmd st =
     (if cmd = INVAL then
        operands as (if a = ''do'' \<or> a = ''apply'' then DO else if a = ''up'' then UP
                     else if a = ''down'' then DOWN else INVAL) st
      else operands as cmd (addif a st))"

definition net_main ::
  "nat \<Rightarrow> net_env \<Rightarrow> string \<Rightarrow> string list \<Rightarrow> net_st \<Rightarrow> ((int + int) \<times> net_st) option" where
  "net_main n env arg0 args st =
     (case net_getopt args of
        Inl c \<Rightarrow> Some (Inr c, st)
      | Inr ops \<Rightarrow>
          (case operands ops (transform arg0) st of
             (cmd, st) \<Rightarrow> if cmd = INVAL then Some (Inr EX_USAGE, st) else act n env cmd st))"

end
