(* ===== verification/Order.thy ===== *)
theory Order
  imports Prelude
begin

text \<open>
  Orders of a dependency graph, as both runners of generations use them: the \<open>net\<close> tool
  (\<open>src/src/net/src/main.c\<close>) and the script \<open>src/board/common/rootfs/sbin/dagger\<close>.
\<close>

text \<open>Every name of the list comes once, and after the names it depends on.\<close>

fun deps_first :: "(string \<Rightarrow> string list) \<Rightarrow> string list \<Rightarrow> string list \<Rightarrow> bool" where
  "deps_first D seen [] = True"
| "deps_first D seen (x # xs) =
     (x \<notin> set seen \<and> set (D x) \<subseteq> set seen \<and> deps_first D (seen @ [x]) xs)"

lemma deps_first_snoc:
  "deps_first D seen (xs @ [x]) \<longleftrightarrow>
     deps_first D seen xs \<and> x \<notin> set (seen @ xs) \<and> set (D x) \<subseteq> set (seen @ xs)"
  by (induction xs arbitrary: seen) auto

lemma deps_first_distinct: "deps_first D seen xs \<Longrightarrow> distinct xs \<and> set xs \<inter> set seen = {}"
  by (induction xs arbitrary: seen) fastforce+

lemma deps_first_closed:
  "deps_first D seen xs \<Longrightarrow> x \<in> set xs \<Longrightarrow> set (D x) \<subseteq> set (seen @ xs)"
  by (induction xs arbitrary: seen) fastforce+

section \<open>Removing repetitions\<close>

text \<open>\<open>awk '!seen[$0]++'\<close>: every line the first time it comes.\<close>

fun first_seen :: "string list \<Rightarrow> string list \<Rightarrow> string list" where
  "first_seen seen [] = []"
| "first_seen seen (x # xs) =
     (if x \<in> set seen then first_seen seen xs else x # first_seen (seen @ [x]) xs)"

text \<open>A listing in which every occurrence of a name comes after an occurrence of each name it depends
  on; names may come more than once.\<close>

fun post_ordered :: "(string \<Rightarrow> string list) \<Rightarrow> string list \<Rightarrow> string list \<Rightarrow> bool" where
  "post_ordered D seen [] = True"
| "post_ordered D seen (x # xs) = (set (D x) \<subseteq> set seen \<and> post_ordered D (seen @ [x]) xs)"

lemma post_ordered_cong: "set seen = set seen' \<Longrightarrow> post_ordered D seen xs = post_ordered D seen' xs"
proof (induction xs arbitrary: seen seen')
  case (Cons x xs)
  then have "set (seen @ [x]) = set (seen' @ [x])" by simp
  from Cons.IH [OF this] Cons.prems show ?case by simp
qed simp

lemma set_first_seen: "set (first_seen seen xs) = set xs - set seen"
  by (induction seen xs rule: first_seen.induct) auto

lemma first_seen_deps_first: "post_ordered D seen xs \<Longrightarrow> deps_first D seen (first_seen seen xs)"
proof (induction seen xs rule: first_seen.induct)
  case (2 seen x xs)
  show ?case
  proof (cases "x \<in> set seen")
    case True
    then have "set (seen @ [x]) = set seen" by auto
    from post_ordered_cong [OF this, of D xs] 2(3) have "post_ordered D seen xs" by simp
    from 2(1) [OF True this] True show ?thesis by simp
  next
    case False
    from 2(3) have "post_ordered D (seen @ [x]) xs" "set (D x) \<subseteq> set seen" by simp_all
    with 2(2) [OF False] False show ?thesis by simp
  qed
qed simp

end
