(* ===== verification/NetOrder.thy ===== *)
theory NetOrder
  imports NetTool Order
begin

text \<open>
  The order in which the \<open>net\<close> tool runs the scripts of a generation.  The order is described by a
  depth first walk of the dependencies (\<open>visit\<close>) on lists of names; \<open>deps\<close>, \<open>iter\<close> and
  \<open>activate\<close> are shown to follow it, both in the scripts they run and in the file \<open>deps\<close> they
  leave behind, from which \<open>deactivate\<close> takes the reverse order.
\<close>

section \<open>A generation\<close>

text \<open>The interfaces the directory \<open>deps\<close> of an interface links to, and the scripts of an interface
  that there are.\<close>

definition resolves :: "net_env \<Rightarrow> string \<Rightarrow> bool" where
  "resolves env p = (case n_realpath env p of Inl e \<Rightarrow> False | Inr rp \<Rightarrow> True)"

definition gen_deps :: "net_env \<Rightarrow> string \<Rightarrow> string \<Rightarrow> string list" where
  "gen_deps env path x =
     filter (\<lambda>y. resolves env (path @ ''/'' @ x @ ''/deps/'' @ y)) (dir env (path @ ''/'' @ x @ ''/deps''))"

definition scripts :: "net_env \<Rightarrow> string \<Rightarrow> string \<Rightarrow> string \<Rightarrow> string list" where
  "scripts env path action x =
     (let cmd = path @ ''/'' @ x @ ''/'' @ action in
      if resolves env cmd \<and> n_access env cmd = 0 then [cmd] else [])"

text \<open>Names the kernel accepts for an interface.\<close>

definition if_name :: "string \<Rightarrow> bool" where
  "if_name x = (x \<noteq> [] \<and> length x < IFNAMSIZ \<and> CHR ''/'' \<notin> set x \<and> CHR 0x0A \<notin> set x)"

text \<open>A generation as the daemon lays it out: every link in \<open>deps\<close> leads to the directory of an
  interface of the same generation that has the name of the link, and the scripts are plain files.\<close>

definition gen_tree :: "net_env \<Rightarrow> string \<Rightarrow> bool" where
  "gen_tree env path =
     (path \<noteq> [] \<and>
      (\<forall>x \<in> set (dir env path).
         if_name x \<and>
         (\<forall>y \<in> set (gen_deps env path x).
            y \<in> set (dir env path) \<and>
            n_realpath env (path @ ''/'' @ x @ ''/deps/'' @ y) = Inr (path @ ''/'' @ y)) \<and>
         (\<forall>a \<in> set [''init-ethtool.sh'', ''init.ip'', ''init.bridge''].
            resolves env (path @ ''/'' @ x @ ''/'' @ a) \<longrightarrow>
            n_realpath env (path @ ''/'' @ x @ ''/'' @ a) = Inr (path @ ''/'' @ x @ ''/'' @ a))))"

text \<open>\<open>chomp\<close> takes the newline off the end of a line.\<close>

definition chomps :: "net_env \<Rightarrow> bool" where
  "chomps env = (\<forall>s. CHR 0x0A \<notin> set s \<longrightarrow> n_chomp env (s @ nl) = s)"

text \<open>The scripts of a generation leave the file \<open>q\<close> alone.\<close>

definition leaves_alone :: "net_env \<Rightarrow> string \<Rightarrow> string \<Rightarrow> bool" where
  "leaves_alone env cmd q = (\<forall>fs. snd (snd (os_sh (n_os env) cmd fs)) q = fs q)"

definition scripts_keep :: "net_env \<Rightarrow> string \<Rightarrow> string \<Rightarrow> bool" where
  "scripts_keep env path q =
     (\<forall>x \<in> set (dir env path). \<forall>a \<in> set [''init-ethtool.sh'', ''init.ip'', ''init.bridge''].
        \<forall>cmd \<in> set (scripts env path a x). leaves_alone env cmd q)"

text \<open>The scripts run, in order.\<close>

fun ran_ev :: "nev \<Rightarrow> string list" where
  "ran_ev (RunPipe p a ls) = [a]"
| "ran_ev (RunShell a) = [a]"
| "ran_ev (ClosePipe p) = []"

definition ran :: "net_st \<Rightarrow> string list" where
  "ran st = concat (map ran_ev (n_trace st))"

section \<open>The walk\<close>

definition ins :: "string \<Rightarrow> string list \<Rightarrow> string list" where
  "ins x vs = (if x \<in> set vs then vs else vs @ [x])"

primrec visit :: "nat \<Rightarrow> (string \<Rightarrow> string list) \<Rightarrow> string \<Rightarrow> string list \<Rightarrow> string list" where
  "visit 0 D x vs = vs"
| "visit (Suc n) D x vs = ins x (fold (visit n D) (D x) vs)"

text \<open>Keeping the names visited in the list, and adding only to its end.\<close>

lemma fold_extends:
  "(\<And>y us. \<exists>zs. f y us = us @ zs) \<Longrightarrow> \<exists>zs. fold f ys vs = (vs :: 'a list) @ zs"
proof (induction ys arbitrary: vs)
  case (Cons y ys)
  obtain zs where "f y vs = vs @ zs" using Cons.prems by blast
  moreover obtain zs' where "fold f ys (f y vs) = f y vs @ zs'" using Cons by blast
  ultimately show ?case by simp
qed simp

lemma visit_extends: "\<exists>zs. visit n D x vs = vs @ zs"
proof (induction n arbitrary: x vs)
  case (Suc n)
  obtain zs where "fold (visit n D) (D x) vs = vs @ zs"
    using fold_extends [of "visit n D" "D x" vs] Suc by blast
  then show ?case by (auto simp: ins_def)
qed simp

lemma visit_keeps: "set vs \<subseteq> set (visit n D x vs)"
  using visit_extends [of n D x vs] by auto

lemma fold_visit_keeps: "set vs \<subseteq> set (fold (visit n D) ys vs)"
  using fold_extends [of "visit n D" ys vs] visit_extends by auto

text \<open>A dependency lies in \<open>V\<close> and has a smaller rank: there are no cycles.\<close>

definition ranked :: "(string \<Rightarrow> string list) \<Rightarrow> string set \<Rightarrow> (string \<Rightarrow> nat) \<Rightarrow> bool" where
  "ranked D V r = (\<forall>x \<in> V. \<forall>y \<in> set (D x). y \<in> V \<and> r y < r x)"

lemma visit_fold_lift:
  assumes "\<And>y us. y \<in> set ys \<Longrightarrow> deps_first D [] us \<Longrightarrow> set us \<subseteq> V \<Longrightarrow>
      deps_first D [] (visit n D y us) \<and> y \<in> set (visit n D y us) \<and> set (visit n D y us) \<subseteq> V"
    and "deps_first D [] vs" "set vs \<subseteq> V"
  shows "deps_first D [] (fold (visit n D) ys vs) \<and> set ys \<subseteq> set (fold (visit n D) ys vs) \<and>
    set (fold (visit n D) ys vs) \<subseteq> V"
  using assms
proof (induction ys arbitrary: vs)
  case (Cons y ys)
  let ?us = "visit n D y vs"
  have us: "deps_first D [] ?us" "y \<in> set ?us" "set ?us \<subseteq> V" using Cons.prems by auto
  have "deps_first D [] (fold (visit n D) ys ?us) \<and> set ys \<subseteq> set (fold (visit n D) ys ?us) \<and>
      set (fold (visit n D) ys ?us) \<subseteq> V"
    by (rule Cons.IH) (use Cons.prems us in auto)
  moreover have "set ?us \<subseteq> set (fold (visit n D) ys ?us)" by (rule fold_visit_keeps)
  ultimately show ?case using us(2) by auto
qed simp

lemma visit_ok:
  assumes D: "ranked D V r" and "x \<in> V" "r x < n" "deps_first D [] vs" "set vs \<subseteq> V"
  shows "deps_first D [] (visit n D x vs) \<and> x \<in> set (visit n D x vs) \<and> set (visit n D x vs) \<subseteq> V"
  using assms(2-)
proof (induction n arbitrary: x vs)
  case (Suc n)
  let ?us = "fold (visit n D) (D x) vs"
  have "deps_first D [] ?us \<and> set (D x) \<subseteq> set ?us \<and> set ?us \<subseteq> V"
  proof (rule visit_fold_lift)
    fix y us assume "y \<in> set (D x)" "deps_first D [] us" "set us \<subseteq> V"
    moreover from this(1) Suc.prems D have "y \<in> V" "r y < n"
      by (fastforce simp: ranked_def)+
    ultimately show "deps_first D [] (visit n D y us) \<and> y \<in> set (visit n D y us) \<and>
        set (visit n D y us) \<subseteq> V"
      using Suc.IH by blast
  qed (use Suc.prems in auto)
  then show ?case using Suc.prems(1) by (auto simp: ins_def deps_first_snoc)
qed simp

lemma order_ok:
  assumes "ranked D V r" "\<And>x. x \<in> set xs \<Longrightarrow> x \<in> V \<and> r x < n" "deps_first D [] vs" "set vs \<subseteq> V"
  shows "deps_first D [] (fold (visit n D) xs vs) \<and> set xs \<subseteq> set (fold (visit n D) xs vs) \<and>
    set (fold (visit n D) xs vs) \<subseteq> V"
  using assms visit_ok [OF assms(1)] by (intro visit_fold_lift) auto

text \<open>Visiting again changes nothing.\<close>

lemma visit_again:
  assumes "deps_first D [] vs" "x \<in> set vs"
  shows "visit n D x vs = vs"
  using assms(2)
proof (induction n arbitrary: x)
  case (Suc n)
  have "set (D x) \<subseteq> set vs" using deps_first_closed [OF assms(1) Suc.prems] by simp
  then have "fold (visit n D) ys vs = vs" if "set ys \<subseteq> set (D x)" for ys
    using that Suc.IH by (induction ys) auto
  then show ?case using Suc.prems by (simp add: ins_def)
qed simp

lemma order_again: "deps_first D [] vs \<Longrightarrow> set xs \<subseteq> set vs \<Longrightarrow> fold (visit n D) xs vs = vs"
  using visit_again by (induction xs) auto

section \<open>Names and files\<close>

lemma rindex_appendI: "rindex b c = Some t \<Longrightarrow> rindex (a @ b) c = Some t"
  by (induction a) auto

lemma path_parts:
  assumes "if_name x" "path \<noteq> []"
  shows "basename (path @ ''/'' @ x) = x" "dirname (path @ ''/'' @ x) = path"
  using assms rindex_append_same [of "CHR ''/''" x path]
  by (simp_all add: basename_def dirname_def if_name_def)

lemma chomp_lines:
  "chomps env \<Longrightarrow> \<forall>x \<in> set xs. if_name x \<Longrightarrow>
     map (n_chomp env) (read_lines 20 (unlines xs)) = xs"
  by (subst read_lines_unlines)
     (auto simp: if_name_def IFNAMSIZ_def chomps_def intro!: map_idI)

text \<open>The file \<open>q\<close> holds these names, one on a line.\<close>

definition holds_names :: "string \<Rightarrow> string list \<Rightarrow> net_st \<Rightarrow> bool" where
  "holds_names q xs st =
     (case w_fs (n_w st) q of
        None \<Rightarrow> xs = []
      | Some (FFile c x) \<Rightarrow> c = unlines xs
      | _ \<Rightarrow> False)"

lemma holds_names_cong:
  "w_fs (n_w st') q = w_fs (n_w st) q \<Longrightarrow> holds_names q xs st' = holds_names q xs st"
  by (simp add: holds_names_def)

section \<open>Steps\<close>

text \<open>What a step of the walk leaves as it was.\<close>

definition same_streams :: "net_st \<Rightarrow> net_st \<Rightarrow> bool" where
  "same_streams st st' = (ip_stream st' = ip_stream st \<and> bridge_stream st' = bridge_stream st)"

lemma savedep_names:
  assumes "holds_names (path @ ''/deps'') ds st" "\<forall>x \<in> set ds. if_name x" "chomps env"
    and "os_open (n_os env) (path @ ''/deps'') ''a+'' (w_fs (n_w st)) = 0"
    and "if_name x" "path \<noteq> []"
  shows "holds_names (path @ ''/deps'') (ins x ds) (savedep env (path @ ''/'' @ x) st)"
  using assms(1,4) chomp_lines [OF assms(3,2)]
  unfolding savedep_def path_parts [OF assms(5,6)] Let_def
  by (auto simp: holds_names_def fopen_def file_text_def fput_def ins_def
      simp del: set_map split: option.splits fnode.splits)

lemma savedep_frame [simp]:
  "iface_list (savedep env p st) = iface_list st" "n_trace (savedep env p st) = n_trace st"
  "same_streams st (savedep env p st)"
  by (auto simp: savedep_def same_streams_def Let_def split: prod.splits option.splits)

definition usable :: "net_st \<Rightarrow> string \<Rightarrow> bool" where
  "usable st cmd = (case pipep st cmd of None \<Rightarrow> True | Some pp \<Rightarrow> stream_of st pp = POpen)"

lemma usable_cong: "same_streams st st' \<Longrightarrow> usable st' cmd = usable st cmd"
  by (simp add: usable_def pipep_def stream_of_def same_streams_def cong: pipe.case_cong
      split: option.splits pipe.splits)

lemma run_step:
  assumes "usable st cmd"
  obtains rc st' where "run env cmd st = Some (rc, st')" "iface_list st' = iface_list st"
    "same_streams st st'" "ran st' = ran st @ [cmd]"
    "\<forall>q. leaves_alone env cmd q \<longrightarrow> w_fs (n_w st') q = w_fs (n_w st) q"
proof -
  have "\<exists>rc st'. run env cmd st = Some (rc, st') \<and> iface_list st' = iface_list st \<and>
      same_streams st st' \<and> ran st' = ran st @ [cmd] \<and>
      (\<forall>q. leaves_alone env cmd q \<longrightarrow> w_fs (n_w st') q = w_fs (n_w st) q)"
    using assms
    by (auto simp: run_def usable_def pipeit_def systemf_def fopen_def ran_def same_streams_def
        leaves_alone_def Let_def split: option.splits prod.splits fnode.splits) (metis snd_conv)+
  then show ?thesis using that by blast
qed

section \<open>The walk of \<open>deps\<close>\<close>

abbreviation init_actions :: "string list" where
  "init_actions \<equiv> [''init-ethtool.sh'', ''init.ip'', ''init.bridge'']"

text \<open>A generation whose file \<open>deps\<close> can be written and is left alone by the scripts.\<close>

definition gen_ready :: "net_env \<Rightarrow> string \<Rightarrow> bool" where
  "gen_ready env path =
     (gen_tree env path \<and> chomps env \<and> scripts_keep env path (path @ ''/deps'') \<and>
      (\<forall>fs. os_open (n_os env) (path @ ''/deps'') ''a+'' fs = 0))"

text \<open>In the middle of a walk for the action \<open>a\<close>: the interfaces done are \<open>vs\<close>, the file \<open>deps\<close>
  holds \<open>ds\<close>.\<close>

definition pass_inv ::
  "net_env \<Rightarrow> string \<Rightarrow> string \<Rightarrow> string list \<Rightarrow> string list \<Rightarrow> net_st \<Rightarrow> bool" where
  "pass_inv env path a vs ds st =
     (iface_list st = vs \<and> holds_names (path @ ''/deps'') ds st \<and> set vs \<subseteq> set (dir env path) \<and>
      set ds \<subseteq> set (dir env path) \<and>
      (\<forall>x \<in> set (dir env path). usable st (path @ ''/'' @ x @ ''/'' @ a)))"

text \<open>Going from one such point to a later one runs the scripts of the interfaces added.\<close>

definition pass ::
  "net_env \<Rightarrow> string \<Rightarrow> string \<Rightarrow> string list \<Rightarrow> net_st \<Rightarrow> string list \<Rightarrow> string list \<Rightarrow> net_st \<Rightarrow> bool" where
  "pass env path a vs st vs' ds' st' =
     (pass_inv env path a vs' ds' st' \<and> same_streams st st' \<and>
      (\<exists>zs. vs' = vs @ zs \<and> ran st' = ran st @ concat (map (scripts env path a) zs)))"

lemma pass_refl: "pass_inv env path a vs ds st \<Longrightarrow> pass env path a vs st vs ds st"
  by (auto simp: pass_def same_streams_def)

lemma pass_trans:
  "pass env path a vs st vs' ds' st' \<Longrightarrow> pass env path a vs' st' vs'' ds'' st'' \<Longrightarrow>
     pass env path a vs st vs'' ds'' st''"
  by (auto simp: pass_def same_streams_def)

lemma passD: "pass env path a vs st vs' ds' st' \<Longrightarrow> pass_inv env path a vs' ds' st'"
  by (simp add: pass_def)

lemma gen_readyD:
  assumes "gen_ready env path" "x \<in> set (dir env path)"
  shows "if_name x" "path \<noteq> []"
    and "y \<in> set (gen_deps env path x) \<Longrightarrow> y \<in> set (dir env path)"
    and "y \<in> set (gen_deps env path x) \<Longrightarrow>
           n_realpath env (path @ ''/'' @ x @ ''/deps/'' @ y) = Inr (path @ ''/'' @ y)"
    and "a \<in> set init_actions \<Longrightarrow> resolves env (path @ ''/'' @ x @ ''/'' @ a) \<Longrightarrow>
           n_realpath env (path @ ''/'' @ x @ ''/'' @ a) = Inr (path @ ''/'' @ x @ ''/'' @ a)"
  using assms unfolding gen_ready_def gen_tree_def by blast+

lemma do_action_step:
  assumes "gen_ready env path" "x \<in> set (dir env path)" "a \<in> set init_actions"
    and "usable st (path @ ''/'' @ x @ ''/'' @ a)"
  obtains rc st' where "do_action env (path @ ''/'' @ x) a st = Some (rc, st')"
    "iface_list st' = iface_list st" "same_streams st st'" "ran st' = ran st @ scripts env path a x"
    "w_fs (n_w st') (path @ ''/deps'') = w_fs (n_w st) (path @ ''/deps'')"
proof (cases "resolves env (path @ ''/'' @ x @ ''/'' @ a)")
  case False
  then show ?thesis
    using that [of _ st] by (auto simp: do_action_def resolves_def scripts_def same_streams_def
        split: sum.splits)
next
  case True
  let ?cmd = "path @ ''/'' @ x @ ''/'' @ a"
  have rp: "n_realpath env ?cmd = Inr ?cmd" by (rule gen_readyD(5) [OF assms(1-3) True])
  show ?thesis
  proof (cases "n_access env ?cmd = 0")
    case no: False
    with rp show ?thesis
      using that [of _ st] by (auto simp: do_action_def scripts_def same_streams_def)
  next
    case acc: True
    with True have sc: "scripts env path a x = [?cmd]" by (simp add: scripts_def)
    obtain rc st' where st': "run env ?cmd st = Some (rc, st')" "iface_list st' = iface_list st"
        "same_streams st st'" "ran st' = ran st @ [?cmd]"
        "\<forall>q. leaves_alone env ?cmd q \<longrightarrow> w_fs (n_w st') q = w_fs (n_w st) q"
      by (rule run_step [OF assms(4), of env])
    moreover have "leaves_alone env ?cmd (path @ ''/deps'')"
      using assms(1-3) sc unfolding gen_ready_def scripts_keep_def by (metis list.set_intros(1))
    ultimately show ?thesis
      using that [of rc st'] rp acc sc by (simp add: do_action_def)
  qed
qed

lemma finish_step:
  assumes "gen_ready env path" "x \<in> set (dir env path)" "a \<in> set init_actions"
    and "pass_inv env path a vs ds st"
  obtains rc st' where
    "(let st = savedep env (path @ ''/'' @ x) st in
      if findif x st then Some (0, st)
      else do { (rc, st) \<leftarrow> do_action env (path @ ''/'' @ x) a st; Some (rc, addif x st) })
     = Some (rc, st')"
    "pass env path a vs st (ins x vs) (ins x ds) st'"
proof -
  let ?st = "savedep env (path @ ''/'' @ x) st"
  note inv = assms(4) [unfolded pass_inv_def]
  have nm: "if_name x" "path \<noteq> []" "\<forall>y \<in> set ds. if_name y"
    using gen_readyD(1,2) [OF assms(1)] assms(2) inv by auto
  have h: "holds_names (path @ ''/deps'') (ins x ds) ?st"
    using inv nm assms(1) by (intro savedep_names) (auto simp: gen_ready_def)
  have ss: "same_streams st ?st" by simp
  then have us: "\<forall>y \<in> set (dir env path). usable ?st (path @ ''/'' @ y @ ''/'' @ a)"
    using inv usable_cong by blast
  have V: "set (ins x ds) \<subseteq> set (dir env path)" "set (ins x vs) \<subseteq> set (dir env path)"
    using inv assms(2) by (auto simp: ins_def)
  show ?thesis
  proof (cases "x \<in> set vs")
    case True
    then have "findif x ?st" "ins x vs = vs" using inv by (simp_all add: findif_def ins_def)
    then show ?thesis
      using that [of 0 ?st] inv h ss us V by (simp add: pass_def pass_inv_def ran_def)
  next
    case False
    obtain rc st' where st': "do_action env (path @ ''/'' @ x) a ?st = Some (rc, st')"
        "iface_list st' = iface_list ?st" "same_streams ?st st'"
        "ran st' = ran ?st @ scripts env path a x"
        "w_fs (n_w st') (path @ ''/deps'') = w_fs (n_w ?st) (path @ ''/deps'')"
      by (rule do_action_step [OF assms(1-3)]) (use us assms(2) in blast)
    have "pass_inv env path a (ins x vs) (ins x ds) (addif x st')"
      using V False inv st' h us nm(1) usable_cong [of ?st "addif x st'"]
        holds_names_cong [of "addif x st'" "path @ ''/deps''" ?st]
      by (auto simp: pass_inv_def addif_def ins_def if_name_def IFNAMSIZ_def same_streams_def)
    then show ?thesis
      using that [of rc "addif x st'"] False inv st' ss
      by (auto simp: findif_def pass_def same_streams_def ran_def addif_def ins_def)
  qed
qed

text \<open>The two loops call \<open>deps\<close> on one interface after the other.\<close>

lemma deps_loop_pass:
  assumes call: "\<And>y vs ds st. y \<in> set files \<Longrightarrow> resolves env (p @ ''/'' @ y) \<Longrightarrow>
      pass_inv env path a vs ds st \<Longrightarrow>
      \<exists>rp rc st'. n_realpath env (p @ ''/'' @ y) = Inr rp \<and> call rp y st = Some (rc, st') \<and>
        pass env path a vs st (visit n D y vs) (visit n D y ds) st'"
    and "pass_inv env path a vs ds st"
  shows "\<exists>st'. deps_loop env call p files st = Some st' \<and>
    pass env path a vs st (fold (visit n D) (filter (\<lambda>y. resolves env (p @ ''/'' @ y)) files) vs)
      (fold (visit n D) (filter (\<lambda>y. resolves env (p @ ''/'' @ y)) files) ds) st'"
  using assms
proof (induction files arbitrary: vs ds st)
  case Nil
  then show ?case by (simp add: pass_refl)
next
  case (Cons y files)
  show ?case
  proof (cases "resolves env (p @ ''/'' @ y)")
    case False
    with Cons show ?thesis by (auto simp: resolves_def split: sum.splits)
  next
    case True
    with Cons.prems obtain rp rc st' where y: "n_realpath env (p @ ''/'' @ y) = Inr rp"
        "call rp y st = Some (rc, st')" "pass env path a vs st (visit n D y vs) (visit n D y ds) st'"
      by (metis list.set_intros(1))
    with Cons.IH [OF Cons.prems(1) passD [OF y(3)]] True show ?thesis
      by (auto intro: pass_trans)
  qed
qed

lemma deps_pass:
  assumes ready: "gen_ready env path" and a: "a \<in> set init_actions"
    and D: "ranked (gen_deps env path) (set (dir env path)) r"
    and "x \<in> set (dir env path)" "r x < n" "pass_inv env path a vs ds st"
  shows "\<exists>rc st'. deps n env (path @ ''/'' @ x) x a st = Some (rc, st') \<and>
    pass env path a vs st (visit n (gen_deps env path) x vs) (visit n (gen_deps env path) x ds) st'"
  using assms(4-)
proof (induction n arbitrary: x vs ds st)
  case (Suc n)
  let ?D = "gen_deps env path" and ?p = "(path @ ''/'' @ x) @ ''/deps''"
  have Dx: "?D x = filter (\<lambda>y. resolves env (?p @ ''/'' @ y)) (dir env ?p)"
    by (simp add: gen_deps_def)
  have "\<exists>rp rc st'. n_realpath env (?p @ ''/'' @ y) = Inr rp \<and> deps n env rp y a st = Some (rc, st') \<and>
      pass env path a vs st (visit n ?D y vs) (visit n ?D y ds) st'"
    if "y \<in> set (dir env ?p)" "resolves env (?p @ ''/'' @ y)" "pass_inv env path a vs ds st"
    for y vs ds st
  proof -
    have y: "y \<in> set (?D x)" using that Dx by simp
    then have "y \<in> set (dir env path)" "r y < n"
      using Suc.prems D by (fastforce simp: ranked_def)+
    then show ?thesis
      using Suc.IH [of y vs ds st] that(3) gen_readyD(4) [OF ready Suc.prems(1) y] by simp
  qed
  from deps_loop_pass [where call = "\<lambda>rp ifnm. deps n env rp ifnm a", OF this Suc.prems(3)]
  obtain st1 where st1: "deps_loop env (\<lambda>rp ifnm. deps n env rp ifnm a) ?p (dir env ?p) st = Some st1"
      "pass env path a vs st (fold (visit n ?D) (?D x) vs) (fold (visit n ?D) (?D x) ds) st1"
    unfolding Dx by blast
  obtain rc st' where st': "(let st = savedep env (path @ ''/'' @ x) st1 in
        if findif x st then Some (0, st)
        else do { (rc, st) \<leftarrow> do_action env (path @ ''/'' @ x) a st; Some (rc, addif x st) })
       = Some (rc, st')"
      "pass env path a (fold (visit n ?D) (?D x) vs) st1 (visit (Suc n) ?D x vs)
         (visit (Suc n) ?D x ds) st'"
    using finish_step [OF ready Suc.prems(1) a passD [OF st1(2)]] by auto
  then have "deps (Suc n) env (path @ ''/'' @ x) x a st = Some (rc, st')"
    by (simp only: deps.simps st1(1) bind.bind_lunit)
  then show ?case using pass_trans [OF st1(2) st'(2)] by blast
qed simp

lemma iter_loop_pass:
  assumes ready: "gen_ready env path" and a: "a \<in> set init_actions"
    and D: "ranked (gen_deps env path) (set (dir env path)) r"
    and len: "length path + IFNAMSIZ < len"
    and "\<forall>x \<in> set xs. x \<in> set (dir env path) \<and> r x < n" "pass_inv env path a vs ds st"
  shows "\<exists>rc' st'. iter_loop n env path len a xs rc st = Some (rc', st') \<and>
    pass env path a vs st (fold (visit n (gen_deps env path)) xs vs)
      (fold (visit n (gen_deps env path)) xs ds) st'"
  using assms(5-)
proof (induction xs arbitrary: vs ds rc st)
  case (Cons x xs)
  have "if_name x" using gen_readyD(1) [OF ready] Cons.prems by simp
  then have sn: "snprintf len (path @ ''/'' @ x) = path @ ''/'' @ x"
    using len by (auto simp: snprintf_def if_name_def)
  obtain rc1 st1 where st1: "deps n env (path @ ''/'' @ x) x a st = Some (rc1, st1)"
      "pass env path a vs st (visit n (gen_deps env path) x vs) (visit n (gen_deps env path) x ds) st1"
    using deps_pass [OF ready a D] Cons.prems by fastforce
  obtain rc2 st2 where "iter_loop n env path len a xs (rc + rc1) st1 = Some (rc2, st2)"
      "pass env path a (visit n (gen_deps env path) x vs) st1
         (fold (visit n (gen_deps env path)) xs (visit n (gen_deps env path) x vs))
         (fold (visit n (gen_deps env path)) xs (visit n (gen_deps env path) x ds)) st2"
    using Cons.IH [OF _ passD [OF st1(2)], of "rc + rc1"] Cons.prems(1) by auto
  then show ?case using pass_trans [OF st1(2)] sn st1(1) by simp
qed (simp add: pass_refl)

text \<open>A pass over the generation, and the state it leaves.\<close>

definition between :: "net_env \<Rightarrow> string \<Rightarrow> string list \<Rightarrow> net_st \<Rightarrow> bool" where
  "between env path ds st =
     (iface_list st = [] \<and> holds_names (path @ ''/deps'') ds st \<and> set ds \<subseteq> set (dir env path))"

abbreviation order :: "nat \<Rightarrow> net_env \<Rightarrow> string \<Rightarrow> string list \<Rightarrow> string list" where
  "order n env path ds \<equiv> fold (visit n (gen_deps env path)) (dir env path) ds"

lemma pclose_step:
  assumes "stream_of st p = POpen"
  obtains st' where "pclose p st = Some st'" "n_w st' = n_w st" "iface_list st' = iface_list st"
    "ran st' = ran st" "stream_of st' = (stream_of st)(p := PClosed)"
  using assms that
  by (cases p) (auto simp: pclose_def ran_def stream_of_def fun_eq_iff split: pipe.splits)

lemma iter_pass:
  assumes ready: "gen_ready env path" and a: "a \<in> set init_actions"
    and D: "ranked (gen_deps env path) (set (dir env path)) r" "\<forall>x \<in> set (dir env path). r x < n"
    and len: "length path + IFNAMSIZ < len"
    and st: "between env path ds st" "\<forall>x \<in> set (dir env path). usable st (path @ ''/'' @ x @ ''/'' @ a)"
      "usable st a"
  shows "\<exists>rc st'. iter n env path len a st = Some (rc, st') \<and>
    between env path (order n env path ds) st' \<and>
    ran st' = ran st @ concat (map (scripts env path a) (order n env path [])) \<and>
    (\<forall>p. stream_of st' p = (if pipep st a = Some p then PClosed else stream_of st p))"
proof -
  have "pass_inv env path a [] ds st" using st by (auto simp: pass_inv_def between_def)
  from iter_loop_pass [OF ready a D(1) len _ this, of "dir env path" n 0] D(2)
  obtain rc st1 where st1: "iter_loop n env path len a (dir env path) 0 st = Some (rc, st1)"
      "pass env path a [] st (order n env path []) (order n env path ds) st1"
    by auto
  have ss: "stream_of (freeifs st1) = stream_of st"
    using st1(2) by (auto simp: pass_def same_streams_def stream_of_def freeifs_def split: pipe.splits)
  then have pp: "pipep (freeifs st1) a = pipep st a" by (simp add: pipep_def)
  have b: "between env path (order n env path ds) (freeifs st1)"
    "ran (freeifs st1) = ran st @ concat (map (scripts env path a) (order n env path []))"
    using st1(2) by (auto simp: between_def pass_def pass_inv_def holds_names_def freeifs_def ran_def)
  show ?thesis
  proof (cases "pipep st a")
    case None
    then show ?thesis using st1(1) b ss pp by (auto simp: iter_def)
  next
    case (Some p)
    then have "stream_of (freeifs st1) p = POpen" using st(3) ss by (simp add: usable_def)
    then obtain st' where "pclose p (freeifs st1) = Some st'" "n_w st' = n_w (freeifs st1)"
        "iface_list st' = iface_list (freeifs st1)" "ran st' = ran (freeifs st1)"
        "stream_of st' = (stream_of (freeifs st1))(p := PClosed)"
      by (rule pclose_step)
    with st1(1) b ss pp Some show ?thesis
      by (auto simp: iter_def between_def holds_names_def Let_def)
  qed
qed

end
