(* ===== verification/NetGenerations.thy ===== *)
theory NetGenerations
  imports NetOrder
begin

text \<open>
  What the \<open>net\<close> tool does with a generation: the order of activation and of deactivation, the
  recursion of \<open>deps\<close> on a cycle, the commit of the next generation, and \<open>ifup\<close> and \<open>ifdown\<close>.
\<close>

section \<open>Pipes of the actions\<close>

lemma pipep_suffix:
  "rindex a (CHR ''.'') = Some t \<Longrightarrow> pipep st (q @ a) = pipep st a"
  by (simp add: pipep_def rindex_appendI)

lemma pipep_script:
  "rindex a (CHR ''.'') = Some t \<Longrightarrow> pipep st (path @ ''/'' @ x @ ''/'' @ a) = pipep st a"
  using pipep_suffix [of a t st "path @ ''/'' @ x @ ''/''"] by simp

lemma usable_script:
  "rindex a (CHR ''.'') = Some t \<Longrightarrow> usable st (path @ ''/'' @ x @ ''/'' @ a) = usable st a"
  unfolding usable_def by (simp only: pipep_script)

lemma action_suffix:
  "rindex ''init-ethtool.sh'' (CHR ''.'') = Some ''.sh''"
  "rindex ''init.ip'' (CHR ''.'') = Some ''.ip''"
  "rindex ''init.bridge'' (CHR ''.'') = Some ''.bridge''"
  "rindex ''exit-ethtool.sh'' (CHR ''.'') = Some ''.sh''"
  "rindex ''exit.ip'' (CHR ''.'') = Some ''.ip''"
  "rindex ''exit.bridge'' (CHR ''.'') = Some ''.bridge''"
  by simp_all

lemma pipep_actions:
  "pipep st ''init-ethtool.sh'' = None"
  "pipep st ''init.ip'' = (if ip_stream st = PNull then None else Some IpPipe)"
  "pipep st ''init.bridge'' = (if bridge_stream st = PNull then None else Some BridgePipe)"
  "pipep st ''exit-ethtool.sh'' = None"
  "pipep st ''exit.ip'' = (if ip_stream st = PNull then None else Some IpPipe)"
  "pipep st ''exit.bridge'' = (if bridge_stream st = PNull then None else Some BridgePipe)"
  by (simp_all add: pipep_def stream_of_def)

section \<open>Activation\<close>

text \<open>One of the three passes of \<open>activate\<close>, once the order \<open>os\<close> is known.\<close>

lemma activate_pass:
  assumes ready: "gen_ready env path" and a: "a \<in> set init_actions"
    and D: "ranked (gen_deps env path) (set (dir env path)) r" "\<forall>x \<in> set (dir env path). r x < n"
    and len: "length path + IFNAMSIZ < len"
    and st: "between env path ds st" "usable st a"
  obtains rc st' where "iter n env path len a st = Some (rc, st')"
    "between env path (order n env path ds) st'"
    "ran st' = ran st @ concat (map (scripts env path a) (order n env path []))"
    "ip_stream st' = (if pipep st a = Some IpPipe then PClosed else ip_stream st)"
    "bridge_stream st' = (if pipep st a = Some BridgePipe then PClosed else bridge_stream st)"
proof -
  obtain t where "rindex a (CHR ''.'') = Some t" using a action_suffix by auto
  then have "\<forall>x \<in> set (dir env path). usable st (path @ ''/'' @ x @ ''/'' @ a)"
    using st(2) usable_script by blast
  from iter_pass [OF ready a D len st(1) this st(2)] obtain rc st' where
      "iter n env path len a st = Some (rc, st')" "between env path (order n env path ds) st'"
      "ran st' = ran st @ concat (map (scripts env path a) (order n env path []))"
      "\<forall>p. stream_of st' p = (if pipep st a = Some p then PClosed else stream_of st p)"
    by blast
  moreover from this(4) have
      "ip_stream st' = (if pipep st a = Some IpPipe then PClosed else ip_stream st)"
      "bridge_stream st' = (if pipep st a = Some BridgePipe then PClosed else bridge_stream st)"
    by (auto simp: stream_of_def dest: spec [of _ IpPipe] spec [of _ BridgePipe])
  ultimately show ?thesis using that by blast
qed

text \<open>C2. On a generation whose interfaces depend on each other without a cycle, activation returns,
  and there is one order of all the interfaces, each after the interfaces it depends on, in which it
  runs the ethtool scripts, then the ip batches, then the bridge batches, every script that exists
  exactly once; the file \<open>deps\<close> records this order and both pipes are closed at the end.\<close>

theorem activate_in_order:
  assumes "gen_ready env path" "path = net @ ''/'' @ gen"
    and "ranked (gen_deps env path) (set (dir env path)) r" "\<forall>x \<in> set (dir env path). r x < n"
    and "iface_list st = []" "w_fs (n_w st) (path @ ''/deps'') = None"
    and "ip_stream st = POpen" "bridge_stream st = POpen"
  shows "\<exists>rc st' os. activate n env net gen st = Some (rc, st') \<and>
    deps_first (gen_deps env path) [] os \<and> set os = set (dir env path) \<and>
    ran st' = ran st @ concat (map (scripts env path ''init-ethtool.sh'') os) @
      concat (map (scripts env path ''init.ip'') os) @
      concat (map (scripts env path ''init.bridge'') os) \<and>
    holds_names (path @ ''/deps'') os st' \<and> ip_stream st' = PClosed \<and> bridge_stream st' = PClosed"
proof -
  let ?len = "length net + length gen + 5 + IFNAMSIZ" and ?D = "gen_deps env path"
  define ord where "ord = order n env path []"
  have o: "deps_first ?D [] ord" "set (dir env path) \<subseteq> set ord" "set ord \<subseteq> set (dir env path)"
    unfolding ord_def using order_ok [OF assms(3), of "dir env path" n "[]"] assms(4) by auto
  have again: "order n env path ord = ord" by (rule order_again [OF o(1,2)])
  have len: "length path + IFNAMSIZ < ?len" and sn: "snprintf ?len (net @ ''/'' @ gen) = path"
    using assms(2) by (simp_all add: snprintf_def)
  note pass = activate_pass [OF assms(1) _ assms(3,4) len]
  have "between env path [] st" using assms(5,6) by (simp add: between_def holds_names_def)
  then obtain rc1 st1 where 1: "iter n env path ?len ''init-ethtool.sh'' st = Some (rc1, st1)"
      "between env path ord st1"
      "ran st1 = ran st @ concat (map (scripts env path ''init-ethtool.sh'') ord)"
      "ip_stream st1 = POpen" "bridge_stream st1 = POpen"
    using pass [of "''init-ethtool.sh''" "[]" st] assms(7,8) unfolding ord_def
    by (auto simp: usable_def pipep_actions)
  obtain rc2 st2 where 2: "iter n env path ?len ''init.ip'' st1 = Some (rc2, st2)"
      "between env path ord st2"
      "ran st2 = ran st1 @ concat (map (scripts env path ''init.ip'') ord)"
      "ip_stream st2 = PClosed" "bridge_stream st2 = POpen"
    using pass [OF _ 1(2), of "''init.ip''"] 1(4,5) unfolding again ord_def [symmetric]
    by (auto simp: usable_def pipep_actions stream_of_def)
  obtain rc3 st3 where 3: "iter n env path ?len ''init.bridge'' st2 = Some (rc3, st3)"
      "between env path ord st3"
      "ran st3 = ran st2 @ concat (map (scripts env path ''init.bridge'') ord)"
      "ip_stream st3 = PClosed" "bridge_stream st3 = PClosed"
    using pass [OF _ 2(2), of "''init.bridge''"] 2(4,5) unfolding again ord_def [symmetric]
    by (auto simp: usable_def pipep_actions stream_of_def)
  have "activate n env net gen st = Some (rc1 + rc2 + rc3, st3)"
    by (simp add: activate_def Let_def sn [simplified] 1(1) 2(1) 3(1))
  then show ?thesis
    using o 1(3) 2(3) 3(2-) by (intro exI [of _ ord] exI) (auto simp: between_def)
qed

section \<open>Deactivation\<close>

definition exit_scripts :: "net_env \<Rightarrow> string \<Rightarrow> string \<Rightarrow> string \<Rightarrow> string list" where
  "exit_scripts env path action x =
     (let cmd = path @ ''/'' @ x @ ''/'' @ action in if n_access env cmd = 0 then [cmd] else [])"

text \<open>The one-liner \<open>1!G;h;$!d\<close> of \<open>sed\<close> prints the lines of a file in reverse.\<close>

definition sed_reverses :: "net_env \<Rightarrow> string \<Rightarrow> bool" where
  "sed_reverses env path =
     (\<forall>fs xs x. (\<forall>l \<in> set xs. CHR 0x0A \<notin> set l) \<longrightarrow>
        fs (path @ ''/deps'') = Some (FFile (unlines xs) x) \<longrightarrow>
        (case os_sh (n_os env) (''sed '' @ sq @ ''1!G;h;$!d'' @ sq @ '' < '' @ path @ ''/deps >'' @
                path @ ''/rdeps'') fs of
           (rc, e, fs') \<Rightarrow> rc = 0 \<and> fs' (path @ ''/rdeps'') = Some (FFile (unlines (rev xs)) False)))"

lemma run_pipe_fs:
  "pipep st cmd \<noteq> None \<Longrightarrow> run env cmd st = Some (rc, st') \<Longrightarrow> w_fs (n_w st') = w_fs (n_w st)"
  by (auto simp: run_def pipeit_def fopen_def Let_def split: option.splits prod.splits if_splits
      fnode.splits)

lemma rdeps_loop_runs:
  assumes "\<forall>x \<in> set xs. if_name x" "chomps env" "usable st a" "rindex a (CHR ''.'') = Some t"
    and "length path < len"
  shows "\<exists>rc' st'. rdeps_loop env path len a (map (\<lambda>x. x @ nl) xs) rc st = Some (rc', st') \<and>
    same_streams st st' \<and> ran st' = ran st @ concat (map (exit_scripts env path a) xs) \<and>
    (pipep st a \<noteq> None \<longrightarrow> w_fs (n_w st') = w_fs (n_w st))"
  using assms(1,3)
proof (induction xs arbitrary: rc st)
  case Nil
  then show ?case by (simp add: same_streams_def)
next
  case (Cons x xs)
  let ?cmd = "path @ ''/'' @ x @ ''/'' @ a"
  have x: "if_name x" using Cons.prems by simp
  then have ch: "n_chomp env (x @ nl) = x" using assms(2) by (simp add: chomps_def if_name_def)
  have sn: "snprintf (len + 20 + length a) ?cmd = ?cmd"
    using x assms(5) by (auto simp: snprintf_def if_name_def IFNAMSIZ_def)
  show ?case
  proof (cases "n_access env ?cmd = 0")
    case False
    with Cons show ?thesis by (simp add: ch sn [simplified] exit_scripts_def)
  next
    case True
    have "usable st ?cmd" using usable_script [OF assms(4)] Cons.prems(2) by blast
    then obtain r st1 where st1: "run env ?cmd st = Some (r, st1)" "same_streams st st1"
        "ran st1 = ran st @ [?cmd]"
      by (rule run_step [of st ?cmd env])
    moreover have "pipep st a \<noteq> None \<Longrightarrow> w_fs (n_w st1) = w_fs (n_w st)"
      using run_pipe_fs [OF _ st1(1)] pipep_script [OF assms(4), of st path x] by simp
    moreover have "usable st1 a" "pipep st1 a = pipep st a"
      using Cons.prems(2) usable_cong [OF st1(2)] st1(2)
      by (auto simp: pipep_def stream_of_def same_streams_def cong: pipe.case_cong)
    ultimately show ?thesis
      using Cons.IH [of st1 "rc + r"] Cons.prems(1) True
      by (auto simp: ch sn [simplified] exit_scripts_def same_streams_def)
  qed
qed

lemma rdeps_runs:
  assumes "holds_names (path @ ''/rdeps'') xs st" "w_fs (n_w st) (path @ ''/rdeps'') \<noteq> None"
    and "\<forall>fs. os_open (n_os env) (path @ ''/rdeps'') ''r'' fs = 0"
    and "\<forall>x \<in> set xs. if_name x" "chomps env" "usable st a" "rindex a (CHR ''.'') = Some t"
    and "length path < len"
  shows "\<exists>rc st'. rdeps env path len a st = Some (rc, st') \<and> same_streams st st' \<and>
    ran st' = ran st @ concat (map (exit_scripts env path a) xs) \<and>
    (pipep st a \<noteq> None \<longrightarrow> w_fs (n_w st') = w_fs (n_w st))"
proof -
  have "fopen (n_os env) (path @ ''/rdeps'') ''r'' (n_w st) = (Some (path @ ''/rdeps''), n_w st)"
    "file_text (n_w st) (path @ ''/rdeps'') = unlines xs"
    using assms(1-3) by (auto simp: holds_names_def fopen_def file_text_def split: option.splits fnode.splits)
  moreover have "read_lines 20 (unlines xs) = map (\<lambda>x. x @ nl) xs"
    using assms(4) by (intro read_lines_unlines) (auto simp: if_name_def IFNAMSIZ_def)
  ultimately have "rdeps env path len a st = rdeps_loop env path len a (map (\<lambda>x. x @ nl) xs) 0 st"
    by (simp add: rdeps_def)
  then show ?thesis using rdeps_loop_runs [OF assms(4-8), of 0] by simp
qed

lemma deactivate_runs:
  assumes "holds_names (path @ ''/rdeps'') os st" "w_fs (n_w st) (path @ ''/rdeps'') \<noteq> None"
    and "path = net @ ''/'' @ gen" "\<forall>x \<in> set os. if_name x" "chomps env"
    and "\<forall>fs. os_open (n_os env) (path @ ''/rdeps'') ''r'' fs = 0"
    and s: "ip_stream st = POpen" "bridge_stream st = POpen"
  shows "\<exists>rc st'. deactivate env net gen st = Some (rc, st') \<and>
    ran st' = ran st @ concat (map (exit_scripts env path ''exit.bridge'') os) @
      concat (map (exit_scripts env path ''exit.ip'') os) @
      concat (map (exit_scripts env path ''exit-ethtool.sh'') os)"
proof -
  let ?len = "length net + length gen + 5 + IFNAMSIZ"
  have len: "length path < ?len" and sn: "snprintf ?len (net @ ''/'' @ gen) = path"
    using assms(3) by (simp_all add: snprintf_def IFNAMSIZ_def)
  note rdeps = rdeps_runs [OF _ _ assms(6,4,5) _ _ len]
  obtain rc1 st1 where 1: "rdeps env path ?len ''exit.bridge'' st = Some (rc1, st1)"
      "same_streams st st1" "w_fs (n_w st1) = w_fs (n_w st)"
      "ran st1 = ran st @ concat (map (exit_scripts env path ''exit.bridge'') os)"
    using rdeps [OF assms(1,2) _ action_suffix(6)] s
    by (auto simp: usable_def pipep_actions stream_of_def)
  obtain rc2 st2 where 2: "rdeps env path ?len ''exit.ip'' st1 = Some (rc2, st2)"
      "same_streams st1 st2" "w_fs (n_w st2) = w_fs (n_w st1)"
      "ran st2 = ran st1 @ concat (map (exit_scripts env path ''exit.ip'') os)"
    using rdeps [OF _ _ _ action_suffix(5), of st1] assms(1,2) s 1
    by (auto simp: usable_def pipep_actions stream_of_def same_streams_def holds_names_def)
  obtain rc3 st3 where 3: "rdeps env path ?len ''exit-ethtool.sh'' st2 = Some (rc3, st3)"
      "ran st3 = ran st2 @ concat (map (exit_scripts env path ''exit-ethtool.sh'') os)"
    using rdeps [OF _ _ _ action_suffix(4), of st2] assms(1,2) 1 2
    by (auto simp: usable_def pipep_actions holds_names_def)
  have "deactivate env net gen st = Some (rc1 + rc2 + rc3, st3)"
    by (simp add: deactivate_def Let_def sn [simplified] 1(1) 2(1) 3(1))
  then show ?thesis using 1(4) 2(4) 3(2) by simp
qed


section \<open>Cycles\<close>

lemma deps_loop_diverges:
  assumes "y \<in> set files" "n_realpath env (p @ ''/'' @ y) = Inr rp" "\<And>st. call rp y st = None"
  shows "deps_loop env call p files st = None"
  using assms(1)
proof (induction files arbitrary: st)
  case (Cons z files)
  then show ?case
    using assms(2,3) by (cases "z = y") (auto split: sum.splits prod.splits Option.bind_split)
qed simp

text \<open>C32. On a cycle of dependencies \<open>deps\<close> never returns: the list of interfaces done is only
  consulted after the recursive calls, so no depth of recursion is enough.\<close>

theorem deps_cycle_diverges:
  assumes "\<forall>x \<in> C. \<exists>y \<in> C. y \<in> set (dir env (path @ ''/'' @ x @ ''/deps'')) \<and>
      n_realpath env (path @ ''/'' @ x @ ''/deps/'' @ y) = Inr (path @ ''/'' @ y)"
    and "x \<in> C"
  shows "deps n env (path @ ''/'' @ x) x action st = None"
  using assms(2)
proof (induction n arbitrary: x st)
  case (Suc n)
  then obtain y where y: "y \<in> C" "y \<in> set (dir env ((path @ ''/'' @ x) @ ''/deps''))"
      "n_realpath env (((path @ ''/'' @ x) @ ''/deps'') @ ''/'' @ y) = Inr (path @ ''/'' @ y)"
    using assms(1) by (metis append.assoc append_Cons append_Nil)
  have "deps_loop env (\<lambda>rp ifnm. deps n env rp ifnm action) ((path @ ''/'' @ x) @ ''/deps'')
      (dir env ((path @ ''/'' @ x) @ ''/deps'')) st = None"
    by (rule deps_loop_diverges [OF y(2,3)]) (rule Suc.IH [OF y(1)])
  then show ?case by (simp only: deps.simps bind.bind_lzero)
qed simp

section \<open>Commit\<close>

lemma activate_new_commits:
  assumes "activate_new n env net next st = Some (Inr rc, st')"
  shows "rc = 0 \<and> (\<exists>x. w_fs (n_w st') (net @ ''/gen'') = Some (FFile (next @ nl) x)) \<and>
    w_fs (n_w st') (net @ ''/next'') = None"
  using assms
  by (auto simp: activate_new_def save_gen_def fremove_def remove_file_def fput_def fopen_def
      split: Option.bind_splits prod.splits if_splits option.splits fnode.splits)


section \<open>Up and down\<close>

text \<open>\<open>ip link set\<close> touches no file, and the files of the generation can be opened.\<close>

definition ip_link_quiet :: "net_env \<Rightarrow> bool" where
  "ip_link_quiet env =
     ((\<forall>x fs. snd (snd (os_sh (n_os env) (''ip link set '' @ x) fs)) = fs) \<and>
      (\<forall>p m fs. os_open (n_os env) p m fs = 0))"

text \<open>Whether the administrator has disabled an interface.\<close>

definition admin_file :: "string \<Rightarrow> string \<Rightarrow> string" where
  "admin_file path x = snprintf 128 (path @ ''/'' @ x @ ''/admin-state'')"

definition disabled :: "net_env \<Rightarrow> string \<Rightarrow> fs \<Rightarrow> string \<Rightarrow> bool" where
  "disabled env path fs x =
     (case fs (admin_file path x) of
        Some (FFile c m) \<Rightarrow> (case fgets 128 c of None \<Rightarrow> False | Some (l, r) \<Rightarrow> n_chomp env l = ''disabled'')
      | _ \<Rightarrow> False)"

lemma dec_int_head: "hd (dec_int i) \<noteq> CHR ''g'' \<and> dec_int i \<noteq> []"
proof (cases "i < 0")
  case False
  obtain c cs where d: "dec_nat (nat i) = c # cs" using dec_nat_nonempty by (meson list.exhaust)
  then have "\<exists>e < 10. c = digit_char e" using dec_nat_digits [of c "nat i"] by simp
  then have "c \<noteq> CHR ''g''" by (auto simp: digit_char_eq_iff)
  with False d show ?thesis by (simp add: dec_int_def)
qed (simp add: dec_int_def)

lemma admin_not_gen:
  assumes "path = snprintf (length net + 42) (net @ ''/'' @ dec_int i)"
  shows "admin_file path x \<noteq> net @ ''/gen''"
proof
  assume "admin_file path x = net @ ''/gen''"
  then have e: "take 127 (path @ ''/'' @ x @ ''/admin-state'') = net @ ''/gen''"
    by (simp add: admin_file_def snprintf_def)
  obtain c cs where d: "dec_int i = c # cs" "c \<noteq> CHR ''g''"
    using dec_int_head [of i] by (cases "dec_int i") auto
  have "path ! Suc (length net) = c" "Suc (length net) < length path"
    using assms d by (simp_all add: snprintf_def nth_append)
  moreover have "Suc (length net) < 127" using arg_cong [OF e, of length] by (simp split: if_splits)
  ultimately have "take 127 (path @ ''/'' @ x @ ''/admin-state'') ! Suc (length net) = c"
    by (simp add: nth_append)
  then have "(net @ ''/gen'') ! Suc (length net) = c" by (simp only: e)
  then show False using d(2) by (simp add: nth_append)
qed

lemma getpath_ok:
  assumes "getpath env st = (Inr path, st1)" "ip_link_quiet env"
  obtains net i where "getnet env = Inr net"
    "path = snprintf (length net + 42) (net @ ''/'' @ dec_int i)" "st1 = st"
    "\<And>st'. w_fs (n_w st') (net @ ''/gen'') = w_fs (n_w st) (net @ ''/gen'') \<Longrightarrow>
       getpath env st' = (Inr path, st')"
  using assms that
  by (fastforce simp: getpath_def fopen_def file_text_def ip_link_quiet_def
      split: sum.splits option.splits prod.splits fnode.splits)

text \<open>Streams are opened as the file decides, once nothing is refused.\<close>

lemma fopen_rw:
  assumes "ip_link_quiet env"
  shows "fopen (n_os env) p ''r'' w =
      (case w_fs w p of
         Some (FFile c m) \<Rightarrow> (Some p, w)
       | Some n \<Rightarrow> (None, w\<lparr>w_errno := EISDIR\<rparr>)
       | None \<Rightarrow> (None, w\<lparr>w_errno := ENOENT\<rparr>))"
    and "fopen (n_os env) p ''w'' w =
      (case w_fs w p of
         Some (FFile c m) \<Rightarrow> (Some p, w\<lparr>w_fs := (w_fs w)(p \<mapsto> FFile [] m)\<rparr>)
       | Some n \<Rightarrow> (None, w\<lparr>w_errno := EISDIR\<rparr>)
       | None \<Rightarrow> (Some p, w\<lparr>w_fs := (w_fs w)(p \<mapsto> FFile [] False)\<rparr>))"
  using assms by (auto simp: fopen_def ip_link_quiet_def split: option.splits fnode.splits)

lemma allowed_reads:
  assumes "getpath env st = (Inr path, st)" "ip_link_quiet env"
  shows "\<exists>st'. allowed env x st = (Inr (\<not> disabled env path (w_fs (n_w st)) x), st') \<and>
    w_fs (n_w st') = w_fs (n_w st) \<and> w_log (n_w st') = w_log (n_w st)"
proof -
  have "ifadmin env x 128 st = (Inr (admin_file path x), st)"
    using assms(1) by (simp add: ifadmin_def admin_file_def)
  then show ?thesis
    by (cases "w_fs (n_w st) (admin_file path x)")
       (auto simp: allowed_def fopen_rw [OF assms(2)] disabled_def file_text_def
          split: fnode.splits option.splits)
qed

lemma save_admin_writes:
  assumes "getpath env st = (Inr path, st)" "ip_link_quiet env"
  shows "\<exists>st'. save_admin env x action st = (Inr (), st') \<and> w_log (n_w st') = w_log (n_w st) \<and>
    (\<forall>q. w_fs (n_w st') q = w_fs (n_w st) q \<or>
       q = admin_file path x \<and> (\<exists>m. w_fs (n_w st') q = Some (FFile (action @ nl) m)))"
proof -
  have "ifadmin env x 128 st = (Inr (admin_file path x), st)"
    using assms(1) by (simp add: ifadmin_def admin_file_def)
  then show ?thesis
    by (cases "w_fs (n_w st) (admin_file path x)")
       (auto simp: save_admin_def fopen_rw [OF assms(2)] fput_def split: fnode.splits)
qed

lemma disabled_kept:
  assumes "\<forall>q. fs' q = fs q \<or> q = admin_file path x \<and> (\<exists>m. fs' q = Some (FFile (action @ nl) m))"
    and "\<not> disabled env path fs x" "action \<in> {''up'', ''down''}" "chomps env"
  shows "disabled env path fs' = disabled env path fs"
proof
  fix y
  have a: "CHR 0x0A \<notin> set action" "length action < 127" using assms(3) by auto
  then have "n_chomp env (action @ nl) = action" using assms(4) by (simp add: chomps_def)
  moreover have "fgets 128 (action @ nl) = Some (action @ nl, [])"
    using get_line_exact [OF a, of "[]"] by (simp add: fgets_def nl_def)
  ultimately show "disabled env path fs' y = disabled env path fs y"
    using assms(1) [rule_format, of "admin_file path y"] assms(2,3)
    by (auto simp: disabled_def)
qed

lemma ifupdown_loop_log:
  assumes gp: "\<And>st. w_fs (n_w st) g = F \<Longrightarrow> getpath env st = (Inr path, st)"
    and "w_fs (n_w st) g = F" "\<And>x. admin_file path x \<noteq> g"
    and env: "ip_link_quiet env" "chomps env" "action \<in> {''up'', ''down''}"
  shows "\<exists>rc' st'. ifupdown_loop env action ifs rc st = (Inr rc', st') \<and>
    w_log (n_w st') = w_log (n_w st) @ map (\<lambda>x. ''ip link set '' @ x @ '' '' @ action)
      (filter (\<lambda>x. \<not> disabled env path (w_fs (n_w st)) x) ifs) \<and>
    disabled env path (w_fs (n_w st')) = disabled env path (w_fs (n_w st))"
  using assms(2)
proof (induction ifs arbitrary: rc st)
  case (Cons x ifs)
  let ?d = "disabled env path (w_fs (n_w st))" and ?cmd = "''ip link set '' @ x @ '' '' @ action"
  obtain st1 where st1: "allowed env x st = (Inr (\<not> ?d x), st1)"
      "w_fs (n_w st1) = w_fs (n_w st)" "w_log (n_w st1) = w_log (n_w st)"
    using allowed_reads [OF gp [OF Cons.prems] env(1)] by blast
  show ?case
  proof (cases "?d x")
    case True
    then show ?thesis using st1 Cons.IH [of st1 rc] Cons.prems by simp
  next
    case False
    obtain r w where w: "systemf (n_os env) ?cmd (n_w st1) = (r, w)" "w_fs w = w_fs (n_w st)"
        "w_log w = w_log (n_w st) @ [?cmd]"
    proof -
      have "snd (snd (os_sh (n_os env) ?cmd (w_fs (n_w st1)))) = w_fs (n_w st1)"
        using env(1) unfolding ip_link_quiet_def by blast
      then show ?thesis
        using that st1(2,3) by (cases "os_sh (n_os env) ?cmd (w_fs (n_w st1))") (simp add: systemf_def)
    qed
    show ?thesis
    proof (cases "r = 0")
      case no: False
      then show ?thesis
        using st1 w False Cons.IH [of "st1\<lparr>n_w := w\<rparr>" "rc + r"] Cons.prems by simp
    next
      case ok: True
      have "getpath env (st1\<lparr>n_w := w\<rparr>) = (Inr path, st1\<lparr>n_w := w\<rparr>)" using gp w(2) Cons.prems by simp
      then obtain st2 where st2: "save_admin env x action (st1\<lparr>n_w := w\<rparr>) = (Inr (), st2)"
          "w_log (n_w st2) = w_log w"
          "\<forall>q. w_fs (n_w st2) q = w_fs (n_w st) q \<or>
             q = admin_file path x \<and> (\<exists>m. w_fs (n_w st2) q = Some (FFile (action @ nl) m))"
        using save_admin_writes [OF _ env(1), of "st1\<lparr>n_w := w\<rparr>" path x action] w(2) by auto
      then have "disabled env path (w_fs (n_w st2)) = ?d" "w_fs (n_w st2) g = F"
        using disabled_kept [OF st2(3) False env(3,2)] st2(3) [rule_format, of g] assms(3) [of x]
          Cons.prems by auto
      then show ?thesis using st1 w False ok st2 Cons.IH [of st2 "rc + r"] by simp
    qed
  qed
qed simp


end
