(* ===== verification/NetDemo.thy ===== *)
theory NetDemo
  imports NetGenerations
begin

text \<open>
  The theorems on the \<open>net\<close> tool at work on a small generation: a bridge with one port.
\<close>

section \<open>A generation with a bridge\<close>

text \<open>The bridge \<open>br0\<close> with the port \<open>eth0\<close>, in the generation 1 below \<open>/n\<close>.\<close>

definition bridge_sh :: "string \<Rightarrow> fs \<Rightarrow> int \<times> int \<times> fs" where
  "bridge_sh cmd fs =
     (if cmd = ''sed '' @ sq @ ''1!G;h;$!d'' @ sq @ '' < /n/1/deps >/n/1/rdeps'' then
        (case fs ''/n/1/deps'' of
           Some (FFile c m) \<Rightarrow>
             (0, 0, fs(''/n/1/rdeps'' \<mapsto> FFile (concat (rev (read_lines (length c + 2) c))) False))
         | _ \<Rightarrow> (1, 0, fs))
      else (0, 0, fs))"

definition bridge_env :: net_env where
  "bridge_env =
     \<lparr>n_os = \<lparr>os_sh = bridge_sh, os_open = (\<lambda>p m fs. 0), os_chmod = (\<lambda>p. True),
              os_ifindex = (\<lambda>x. True), os_popen_json = (\<lambda>c. None), os_json_str = (\<lambda>j k. None)\<rparr>,
      n_ls = (\<lambda>p. if p = ''/n/1'' then [''br0'', ''deps'', ''eth0'']
                  else if p = ''/n/1/br0/deps'' then [''eth0''] else []),
      n_realpath = (\<lambda>p. if p = ''/n/1/br0/deps/eth0'' then Inr ''/n/1/eth0''
                        else if p \<in> set [''/n/1/br0/init.ip'', ''/n/1/eth0/init.ip''] then Inr p
                        else Inl 2),
      n_access = (\<lambda>p. if p \<in> set [''/n'', ''/n/1/br0/init.ip'', ''/n/1/eth0/init.ip'',
                                   ''/n/1/br0/exit.ip'', ''/n/1/eth0/exit.ip''] then 0 else 2),
      n_makedir = (\<lambda>p. False), n_getenv = (\<lambda>v. if v = ''NET_DIR'' then Some ''/n'' else None),
      n_popen = (\<lambda>c. True), n_fclose = (\<lambda>p. 0),
      n_chomp = (\<lambda>s. if s \<noteq> [] \<and> last s = CHR 0x0A then butlast s else s)\<rparr>"

definition bridge_st :: net_st where
  "bridge_st =
     \<lparr>n_w = \<lparr>w_fs = [''/n/next'' \<mapsto> FFile (''1'' @ nl) False], w_errno = 0, w_log = []\<rparr>,
      iface_list = [], dep = 0, ip_stream = POpen, bridge_stream = POpen, n_trace = []\<rparr>"

lemma bridge_dirs [simp]:
  "dir bridge_env ''/n/1'' = [''br0'', ''eth0'']" "dir bridge_env ''/n/1/br0/deps'' = [''eth0'']"
  "gen_deps bridge_env ''/n/1'' ''br0'' = [''eth0'']" "gen_deps bridge_env ''/n/1'' ''eth0'' = []"
  by code_simp+

lemma bridge_chomps: "chomps bridge_env"
  by (simp add: chomps_def bridge_env_def nl_def butlast_append)

lemma bridge_ready: "gen_ready bridge_env ''/n/1''"
proof -
  have "gen_tree bridge_env ''/n/1''" by code_simp
  moreover have "snd (snd (bridge_sh cmd fs)) ''/n/1/deps'' = fs ''/n/1/deps''" for cmd fs
    by (auto simp: bridge_sh_def split: option.splits fnode.splits)
  then have "scripts_keep bridge_env ''/n/1'' ''/n/1/deps''"
    by (simp add: scripts_keep_def leaves_alone_def bridge_env_def)
  ultimately show ?thesis using bridge_chomps by (simp add: gen_ready_def bridge_env_def)
qed

theorem activate_in_order_witness:
  "\<exists>rc st' os. activate 2 bridge_env ''/n'' ''1'' bridge_st = Some (rc, st') \<and>
     deps_first (gen_deps bridge_env ''/n/1'') [] os \<and> set os = {''br0'', ''eth0''} \<and>
     ran st' = concat (map (scripts bridge_env ''/n/1'' ''init-ethtool.sh'') os) @
       concat (map (scripts bridge_env ''/n/1'' ''init.ip'') os) @
       concat (map (scripts bridge_env ''/n/1'' ''init.bridge'') os) \<and>
     holds_names ''/n/1/deps'' os st' \<and> ip_stream st' = PClosed \<and> bridge_stream st' = PClosed"
proof -
  have "ranked (gen_deps bridge_env ''/n/1'') (set (dir bridge_env ''/n/1''))
      (\<lambda>x. if x = ''br0'' then 1 else 0)"
    by (simp add: ranked_def)
  from activate_in_order [OF bridge_ready _ this, where n = 2 and net = "''/n''" and gen = "''1''"
      and st = bridge_st]
  show ?thesis by (simp add: bridge_st_def ran_def)
qed

lemma bridge_sed: "sed_reverses bridge_env ''/n/1''"
proof -
  have "read_lines (length (unlines xs) + 2) (unlines xs) = map (\<lambda>x. x @ nl) xs"
    if "\<forall>l \<in> set xs. CHR 0x0A \<notin> set l" for xs
  proof (rule read_lines_unlines, rule ballI)
    fix x assume "x \<in> set xs"
    then have "length (x @ nl) \<le> length (unlines xs)"
      by (auto simp: length_concat intro!: member_le_sum_list)
    then show "CHR 0x0A \<notin> set x \<and> length x + 1 < length (unlines xs) + 2"
      using that \<open>x \<in> set xs\<close> by (simp add: nl_def)
  qed
  then show ?thesis
    by (auto simp: sed_reverses_def bridge_env_def bridge_sh_def rev_map)
qed

definition deps_st :: net_st where
  "deps_st = bridge_st\<lparr>n_w := (n_w bridge_st)
     \<lparr>w_fs := [''/n/1/deps'' \<mapsto> FFile (unlines [''eth0'', ''br0'']) False]\<rparr>\<rparr>"



definition loop_env :: net_env where
  "loop_env = bridge_env\<lparr>
     n_ls := (\<lambda>p. if p = ''/n/1/a/deps'' then [''b''] else if p = ''/n/1/b/deps'' then [''a''] else []),
     n_realpath := (\<lambda>p. if p = ''/n/1/a/deps/b'' then Inr ''/n/1/b''
                       else if p = ''/n/1/b/deps/a'' then Inr ''/n/1/a'' else Inl 2)\<rparr>"

theorem deps_cycle_diverges_witness: "deps 1000 loop_env ''/n/1/a'' ''a'' ''init.ip'' bridge_st = None"
  using deps_cycle_diverges [where C = "{''a'', ''b''}" and env = loop_env and path = "''/n/1''"
      and x = "''a''" and n = 1000 and action = "''init.ip''" and st = bridge_st]
  by (simp add: loop_env_def dir_def dir_filter_def)

text \<open>Two interfaces on the command line, one of them disabled.\<close>

definition updown_st :: net_st where
  "updown_st = bridge_st\<lparr>
     n_w := (n_w bridge_st)\<lparr>w_fs := [''/n/gen'' \<mapsto> FFile (''1'' @ nl) False,
       ''/n/1/eth0/admin-state'' \<mapsto> FFile (''disabled'' @ nl) False]\<rparr>,
     iface_list := [''eth0'', ''br0'']\<rparr>"


end
