(* ===== verification/Dagger.thy ===== *)
theory Dagger
  imports Helpers
begin

text \<open>
  \<open>src/src/confd/src/confd/dagger.c\<close>: the generations of network set-up scripts below
  \<open>/run/net\<close>.  \<open>dagger_claim\<close> opens a transaction by creating the file \<open>next\<close>
  exclusively, scripts are collected below \<open><next>/action/init\<close> and \<open><current>/action/exit\<close>,
  and the transaction ends in \<open>dagger_evolve\<close> or \<open>dagger_abandon\<close>, which write the
  generation number to \<open>next\<close> and call the \<open>dagger\<close> script.

  The stream \<open>next_fp\<close> is null after \<open>memset\<close>, open after a claim and dangling once closed;
  printing to a null or dangling stream is undefined, and the operations that do so return
  \<^const>\<open>None\<close>.
\<close>

datatype stream = SNull | SOpen string | SClosed

record dagger =
  d_current :: int
  d_next :: int
  d_next_fp :: stream
  d_path :: string

definition PATH_MAX :: nat where "PATH_MAX = 4096"

definition dagger_zero :: dagger where
  "dagger_zero = \<lparr>d_current = 0, d_next = 0, d_next_fp = SNull, d_path = []\<rparr>"

section \<open>Script files\<close>

text \<open>The interpreter line written first, by the extension of the script's name.\<close>

definition shebang :: "string \<Rightarrow> string" where
  "shebang script =
     (case rindex script (CHR ''.'') of
        None \<Rightarrow> []
      | Some ext \<Rightarrow>
          if ext = ''.sh'' then ''#!/bin/sh'' @ nl @ nl
          else if ext = ''.bridge'' then ''#!/sbin/bridge -batch'' @ nl @ nl
          else if ext = ''.ip'' then ''#!/sbin/ip -batch'' @ nl @ nl
          else if ext = ''.sysctl'' then ''#!/sbin/sysctl -p'' @ nl @ nl
          else [])"

definition action_dir :: "dagger \<Rightarrow> int \<Rightarrow> string \<Rightarrow> string \<Rightarrow> string" where
  "action_dir d gen action node =
     d_path d @ ''/'' @ dec_int gen @ ''/action/'' @ action @ ''/'' @ node"

definition action_file :: "dagger \<Rightarrow> int \<Rightarrow> string \<Rightarrow> string \<Rightarrow> u8 \<Rightarrow> string \<Rightarrow> string" where
  "action_file d gen action node prio script =
     action_dir d gen action node @ ''/'' @ dec02 (unat prio) @ ''-'' @ script"

definition dagger_fopen ::
  "os \<Rightarrow> dagger \<Rightarrow> int \<Rightarrow> string \<Rightarrow> string \<Rightarrow> u8 \<Rightarrow> string \<Rightarrow> world \<Rightarrow> string option \<times> world" where
  "dagger_fopen os d gen action node prio script w =
     (if 99 < prio then (None, w\<lparr>w_errno := ERANGE\<rparr>)
      else
        (case systemf os (''mkdir -p '' @ action_dir d gen action node) w of
           (err, w) \<Rightarrow>
             if err \<noteq> 0 then (None, w)
             else
               (case fopen os (action_file d gen action node prio script) ''w'' w of
                  (None, w) \<Rightarrow> (None, w)
                | (Some fp, w) \<Rightarrow>
                    (case fchmod_x os fp (fput fp (shebang script) w) of
                       (err, w) \<Rightarrow> if err \<noteq> 0 then (None, w) else (Some fp, w)))))"

definition dagger_fopen_next ::
  "os \<Rightarrow> dagger \<Rightarrow> string \<Rightarrow> string \<Rightarrow> u8 \<Rightarrow> string \<Rightarrow> world \<Rightarrow> string option \<times> world" where
  "dagger_fopen_next os d action node prio script w =
     dagger_fopen os d (d_next d) action node prio script w"

definition dagger_fopen_current ::
  "os \<Rightarrow> dagger \<Rightarrow> string \<Rightarrow> string \<Rightarrow> u8 \<Rightarrow> string \<Rightarrow> world \<Rightarrow> string option \<times> world" where
  "dagger_fopen_current os d action node prio script w =
     (if d_current d < 0 then (None, w\<lparr>w_errno := EUNATCH\<rparr>)
      else dagger_fopen os d (d_current d) action node prio script w)"

section \<open>The dependency graph\<close>

definition dagger_add_dep :: "os \<Rightarrow> dagger \<Rightarrow> string \<Rightarrow> string \<Rightarrow> world \<Rightarrow> int \<times> world" where
  "dagger_add_dep os d depender dependee w =
     systemf os (''ln -s ../'' @ dependee @ '' '' @ d_path d @ ''/'' @ dec_int (d_next d)
       @ ''/dag/'' @ depender) w"

definition dagger_add_node :: "os \<Rightarrow> dagger \<Rightarrow> string \<Rightarrow> world \<Rightarrow> int \<times> world" where
  "dagger_add_node os d node w =
     systemf os (''mkdir -p '' @ d_path d @ ''/'' @ dec_int (d_next d) @ ''/dag/'' @ node) w"

definition skip_file :: "dagger \<Rightarrow> string \<Rightarrow> string" where
  "skip_file d ifname = d_path d @ ''/'' @ dec_int (d_next d) @ ''/skip/'' @ ifname"

definition dagger_skip_iface :: "os \<Rightarrow> dagger \<Rightarrow> string \<Rightarrow> world \<Rightarrow> world" where
  "dagger_skip_iface os d ifname w = touchf os (skip_file d ifname) w"

definition dagger_should_skip :: "dagger \<Rightarrow> string \<Rightarrow> world \<Rightarrow> bool" where
  "dagger_should_skip d ifname w = fexistf (skip_file d ifname) w"

section \<open>Transactions\<close>

text \<open>\<open>fprintf (d->next_fp, "%d\n", d->next); fclose (d->next_fp);\<close>\<close>

definition put_next :: "dagger \<Rightarrow> world \<Rightarrow> (dagger \<times> world) option" where
  "put_next d w =
     (case d_next_fp d of
        SOpen fp \<Rightarrow> Some (d\<lparr>d_next_fp := SClosed\<rparr>, fput fp (dec_int (d_next d) @ nl) w)
      | _ \<Rightarrow> None)"

definition dagger_abandon :: "os \<Rightarrow> dagger \<Rightarrow> world \<Rightarrow> (int \<times> dagger \<times> world) option" where
  "dagger_abandon os d w =
     do { (d, w) \<leftarrow> put_next d w;
          let (rc, w) = systemf os (''dagger -C '' @ d_path d @ '' abandon'') w;
          Some (rc, d, w) }"

definition dagger_evolve :: "os \<Rightarrow> dagger \<Rightarrow> world \<Rightarrow> (int \<times> dagger \<times> world) option" where
  "dagger_evolve os d w =
     do { (d, w) \<leftarrow> put_next d w;
          let (rc, w) = systemf os (''dagger -C '' @ d_path d @ '' evolve'') w;
          Some (rc, d, w) }"

definition dagger_evolve_or_abandon ::
  "os \<Rightarrow> dagger \<Rightarrow> world \<Rightarrow> (int \<times> dagger \<times> world) option" where
  "dagger_evolve_or_abandon os d w =
     do { (err, d, w) \<leftarrow> dagger_evolve os d w;
          if err = 0 then Some (0, d, w)
          else (let (_, w) = systemf os (''dagger -C '' @ d_path d @ '' abandon'') w
                in Some (err, d, w)) }"

text \<open>The command lines of \<open>dagger_claim\<close>.\<close>

definition exit_cmd :: "string \<Rightarrow> int \<Rightarrow> string" where
  "exit_cmd path c =
     ''mkdir -p '' @ path @ ''/'' @ dec_int c @ ''/action/exit && ln -s ../../top-down-order ''
     @ path @ ''/'' @ dec_int c @ ''/action/exit/order''"

definition init_cmd :: "string \<Rightarrow> int \<Rightarrow> string" where
  "init_cmd path n =
     ''mkdir -p '' @ path @ ''/'' @ dec_int n @ ''/action/init && mkdir -p ''
     @ path @ ''/'' @ dec_int n @ ''/skip && ln -s ../../bottom-up-order ''
     @ path @ ''/'' @ dec_int n @ ''/action/init/order''"

text \<open>The second half of \<open>dagger_claim\<close>, once the current generation is known.\<close>

definition claim_next :: "os \<Rightarrow> string \<Rightarrow> dagger \<Rightarrow> world \<Rightarrow> int \<times> dagger \<times> world" where
  "claim_next os path d w =
     (let d = d\<lparr>d_next := d_current d + 1\<rparr> in
      case systemf os (init_cmd path (d_next d)) w of
        (err, w) \<Rightarrow>
          if err \<noteq> 0 then (err, d, w)
          else (0, d\<lparr>d_path := take (PATH_MAX - 1) path\<rparr>, w))"

definition dagger_claim :: "os \<Rightarrow> string \<Rightarrow> world \<Rightarrow> int \<times> dagger \<times> world" where
  "dagger_claim os path w =
     (case systemf os (''mkdir -p '' @ path) w of
        (err, w) \<Rightarrow>
          if err \<noteq> 0 then (err, dagger_zero, w)
          else
            (case fopen os (path @ ''/next'') ''wx'' w of
               (None, w) \<Rightarrow> (-1, dagger_zero, w)
             | (Some fp, w) \<Rightarrow>
                 (case readdf os (path @ ''/current'') w of
                    (None, w) \<Rightarrow>
                      claim_next os path (dagger_zero\<lparr>d_next_fp := SOpen fp, d_current := -1\<rparr>) w
                  | (Some c, w) \<Rightarrow>
                      (let d = dagger_zero\<lparr>d_next_fp := SOpen fp, d_current := c\<rparr> in
                       case systemf os (exit_cmd path c) w of
                         (err, w) \<Rightarrow>
                           if err \<noteq> 0 then (err, d, w) else claim_next os path d w))))"

section \<open>What the shell commands promise\<close>

definition claim_adds_only :: "os \<Rightarrow> string \<Rightarrow> bool" where
  "claim_adds_only os path =
     (adds_only os (''mkdir -p '' @ path) \<and> (\<forall>c. adds_only os (exit_cmd path c))
        \<and> (\<forall>n. adds_only os (init_cmd path n)))"

text \<open>What \<open>sbin/dagger evolve\<close> does to the two generation files when it succeeds:
  \<open>mv next current\<close>.  That the script keeps this promise and the one below is shown in \<open>DaggerRuns\<close>.\<close>

definition evolve_promotes :: "os \<Rightarrow> string \<Rightarrow> bool" where
  "evolve_promotes os path =
     (\<forall>fs e fs'. os_sh os (''dagger -C '' @ path @ '' evolve'') fs = (0, e, fs') \<longrightarrow>
        fs' (path @ ''/current'') = fs (path @ ''/next'') \<and> fs' (path @ ''/next'') = None)"

text \<open>\<open>ln -s\<close> makes the link \<open>order\<close> of the current generation's exit actions, and fails where
  that name already exists and is not a directory.\<close>

definition order_link :: "string \<Rightarrow> int \<Rightarrow> string" where
  "order_link path c = path @ ''/'' @ dec_int c @ ''/action/exit/order''"

definition ln_makes_order :: "os \<Rightarrow> string \<Rightarrow> int \<Rightarrow> bool" where
  "ln_makes_order os path c =
     (\<forall>fs. fst (os_sh os (exit_cmd path c) fs) = 0 \<longrightarrow>
        snd (snd (os_sh os (exit_cmd path c) fs)) (order_link path c)
          = Some (FLink ''../../top-down-order''))"

definition ln_refuses_taken :: "os \<Rightarrow> string \<Rightarrow> int \<Rightarrow> bool" where
  "ln_refuses_taken os path c =
     (\<forall>fs t. fs (order_link path c) = Some (FLink t) \<longrightarrow>
        fst (os_sh os (exit_cmd path c) fs) \<noteq> 0)"

text \<open>What \<open>sbin/dagger abandon\<close> does when \<open>next\<close> names the generation after the current one: it moves
  the directory of that generation aside and removes \<open>next\<close>; the current generation and the file \<open>current\<close>
  stay.\<close>

definition abandon_keeps :: "os \<Rightarrow> string \<Rightarrow> int \<Rightarrow> bool" where
  "abandon_keeps os path c =
     (\<forall>fs x. fs (path @ ''/next'') = Some (FFile (dec_int (c + 1) @ nl) x) \<longrightarrow>
        (case os_sh os (''dagger -C '' @ path @ '' abandon'') fs of (rc, e, fs') \<Rightarrow>
        fs' (order_link path c) = fs (order_link path c)
        \<and> fs' (path @ ''/current'') = fs (path @ ''/current'')))"

text \<open>
  A concrete system for evaluating the transactions: a shell that makes the \<open>order\<close> link of
  generation 0 below \<open>/r\<close>, refuses to make it twice, and runs the two \<open>dagger\<close> commands.
\<close>

definition demo_sh :: "string \<Rightarrow> fs \<Rightarrow> int \<times> int \<times> fs" where
  "demo_sh cmd fs =
     (if cmd = exit_cmd ''/r'' 0 then
        (case fs (order_link ''/r'' 0) of
           None \<Rightarrow> (0, 0, fs(order_link ''/r'' 0 \<mapsto> FLink ''../../top-down-order''))
         | Some (FLink t) \<Rightarrow> (1, 0, fs)
         | Some n \<Rightarrow> (1, 0, fs))
      else if cmd = ''dagger -C /r evolve'' then
        (0, 0, fs(''/r/current'' := fs ''/r/next'', ''/r/next'' := None))
      else if cmd = ''dagger -C /r abandon'' then (0, 0, fs(''/r/next'' := None))
      else (0, 0, fs))"

definition demo_os :: os where
  "demo_os = \<lparr>os_sh = demo_sh, os_open = (\<lambda>p m fs. 0), os_chmod = (\<lambda>p. True),
     os_ifindex = (\<lambda>i. False), os_popen_json = (\<lambda>c. None), os_json_str = (\<lambda>j k. None)\<rparr>"

definition demo_world :: world where
  "demo_world = \<lparr>w_fs = Map.empty, w_errno = 0, w_log = []\<rparr>"

text \<open>Two transactions, the second one abandoned, and the claim of a third.\<close>

definition demo_claim1 :: "int \<times> dagger \<times> world" where
  "demo_claim1 = dagger_claim demo_os ''/r'' demo_world"

definition demo_evolve1 :: "int \<times> dagger \<times> world" where
  "demo_evolve1 = the (dagger_evolve demo_os (fst (snd demo_claim1)) (snd (snd demo_claim1)))"

definition demo_claim2 :: "int \<times> dagger \<times> world" where
  "demo_claim2 = dagger_claim demo_os ''/r'' (snd (snd demo_evolve1))"

definition demo_abandon2 :: "int \<times> dagger \<times> world" where
  "demo_abandon2 = the (dagger_abandon demo_os (fst (snd demo_claim2)) (snd (snd demo_claim2)))"

definition demo_claim3 :: "int \<times> dagger \<times> world" where
  "demo_claim3 = dagger_claim demo_os ''/r'' (snd (snd demo_abandon2))"


section \<open>Lemmas on script files\<close>

lemma dagger_fopen_Some:
  assumes "dagger_fopen os d gen action node prio script w = (Some fp, w')"
  shows "prio \<le> 99 \<and> fp = action_file d gen action node prio script
    \<and> w_fs w' fp = Some (FFile (shebang script) True)
    \<and> w_log w' = w_log w @ [''mkdir -p '' @ action_dir d gen action node]"
proof -
  let ?fp = "action_file d gen action node prio script"
  obtain e w1 w2 where prio: "\<not> 99 < prio"
    and sys: "systemf os (''mkdir -p '' @ action_dir d gen action node) w = (0, w1)"
    and opn: "fopen os ?fp ''w'' w1 = (Some fp, w2)"
    and chm: "fchmod_x os fp (fput fp (shebang script) w2) = (0, w')"
    using assms
    by (auto simp: dagger_fopen_def split: if_splits prod.splits option.splits)
  from opn have fp: "fp = ?fp" by (rule fopen_Some_path)
  from fopen_w_truncates [OF opn] fp obtain x where "w_fs w2 fp = Some (FFile [] x)" by auto
  then have "w_fs (fput fp (shebang script) w2) fp = Some (FFile (shebang script) x)"
    using fput_same by fastforce
  with chm have "w_fs w' fp = Some (FFile (shebang script) True)"
    by (rule fchmod_x_ok)
  moreover have "w_log w' = w_log w @ [''mkdir -p '' @ action_dir d gen action node]"
    using fchmod_x_log [OF chm] fopen_log [OF opn] systemf_log [OF sys] by simp
  ultimately show ?thesis using prio fp by (simp add: not_less)
qed

lemma dagger_fopen_frame:
  assumes "dagger_fopen os d gen action node prio script w = (r, w')"
    and "posix_tools os" "shell_safe (action_dir d gen action node)"
    and "w_fs w q = Some n"
    and "q \<noteq> action_file d gen action node prio script"
  shows "w_fs w' q = Some n"
proof (cases "99 < prio")
  case True
  with assms show ?thesis by (auto simp: dagger_fopen_def)
next
  case False
  obtain e w1 where sys: "systemf os (''mkdir -p '' @ action_dir d gen action node) w = (e, w1)"
    by fastforce
  have q1: "w_fs w1 q = Some n"
    using assms(2,3,4) systemf_adds_only [OF _ sys] by (simp add: posix_tools_def)
  obtain r2 w2 where opn: "fopen os (action_file d gen action node prio script) ''w'' w1 = (r2, w2)"
    by fastforce
  have q2: "w_fs w2 q = Some n"
    using fopen_other [OF opn assms(5)] q1 by simp
  show ?thesis
  proof (cases "e = 0 \<and> r2 \<noteq> None")
    case True
    then obtain fp where fp: "r2 = Some fp" by auto
    with opn have "fp = action_file d gen action node prio script" by (auto dest: fopen_Some_path)
    with assms(5) have "q \<noteq> fp" by simp
    with True False assms(1) sys opn fp q2 show ?thesis
      by (auto simp: dagger_fopen_def dest!: fchmod_x_other split: if_splits prod.splits)
  next
    case F: False
    with False assms(1) sys opn q1 q2 show ?thesis
      by (auto simp: dagger_fopen_def split: if_splits option.splits prod.splits)
  qed
qed

lemma append_slash_inj:
  assumes "a @ CHR ''/'' # x = b @ CHR ''/'' # y" "CHR ''/'' \<notin> set a" "CHR ''/'' \<notin> set b"
  shows "a = b"
  using assms
proof (induction a arbitrary: b)
  case Nil
  then show ?case by (cases b) auto
next
  case (Cons u a)
  then show ?case by (cases b) auto
qed

lemma dec_int_inj: "dec_int i = dec_int j \<longleftrightarrow> i = j"
proof
  assume eq: "dec_int i = dec_int j"
  have *: "CHR ''-'' \<in> set (dec_int k) \<longleftrightarrow> k < 0" for k
    by (auto simp: dec_int_def)
  from eq * [of i] * [of j] have "i < 0 \<longleftrightarrow> j < 0" by simp
  with eq show "i = j" by (cases "i < 0") (auto simp: dec_int_def dec_nat_inj)
qed simp

lemma action_file_gen:
  assumes "action_file d g a n p s = action_file d g' a' n' p' s'"
  shows "g = g'"
proof -
  from assms have "dec_int g @ CHR ''/'' # (''action/'' @ a @ ''/'' @ n @ ''/'' @ dec02 (unat p) @ ''-'' @ s)
      = dec_int g' @ CHR ''/'' # (''action/'' @ a' @ ''/'' @ n' @ ''/'' @ dec02 (unat p') @ ''-'' @ s')"
    by (simp add: action_file_def action_dir_def)
  then have "dec_int g = dec_int g'" by (rule append_slash_inj) simp_all
  then show ?thesis by (simp add: dec_int_inj)
qed

section \<open>Lemmas on transactions\<close>

lemma put_next_Some_iff: "put_next d w \<noteq> None \<longleftrightarrow> (\<exists>fp. d_next_fp d = SOpen fp)"
  by (cases "d_next_fp d") (simp_all add: put_next_def)

lemma put_next_SOpen [simp]:
  "d_next_fp d = SOpen fp \<Longrightarrow>
     put_next d w = Some (d\<lparr>d_next_fp := SClosed\<rparr>, fput fp (dec_int (d_next d) @ nl) w)"
  by (simp add: put_next_def)

lemma claim_next_shape:
  assumes "claim_next os path d0 w = (rc, d, w')"
  shows "d_current d = d_current d0 \<and> d_next d = d_current d0 + 1 \<and> d_next_fp d = d_next_fp d0
    \<and> (rc = 0 \<longrightarrow> d_path d = take (PATH_MAX - 1) path)"
  using assms by (auto simp: claim_next_def Let_def split: prod.splits if_splits)

lemma dagger_claim_ok:
  assumes "dagger_claim os path w = (0, d, w')"
  shows "d_next d = d_current d + 1 \<and> d_next_fp d = SOpen (path @ ''/next'')
    \<and> d_path d = take (PATH_MAX - 1) path \<and> INT_MIN \<le> d_current d \<and> d_current d \<le> INT_MAX"
  using assms
  by (auto simp: dagger_claim_def Let_def INT_MIN_def INT_MAX_def dest!: fopen_Some_path claim_next_shape
      readdf_range split: prod.splits option.splits if_splits)

lemma dagger_claim_SClosed: "dagger_claim os path w = (rc, d, w') \<Longrightarrow> d_next_fp d \<noteq> SClosed"
  by (auto simp: dagger_claim_def dagger_zero_def Let_def dest!: claim_next_shape
      split: prod.splits option.splits if_splits)

lemma claim_next_keeps:
  assumes "claim_next os path d0 w = (rc, d, w')" "claim_adds_only os path" "w_fs w q = Some n"
  shows "w_fs w' q = Some n"
  using assms
  by (auto simp: claim_next_def claim_adds_only_def Let_def intro: systemf_adds_only
      split: prod.splits if_splits)

text \<open>The claim in four stages: make the root, create \<open>next\<close>, read \<open>current\<close>, make the
  directories of the two generations.\<close>

lemma dagger_claim_stages:
  assumes claim: "dagger_claim os path w = (rc, d, w')"
  obtains (no_root) e w1 where "systemf os (''mkdir -p '' @ path) w = (e, w1)" "e \<noteq> 0"
      "rc = e" "d = dagger_zero" "w' = w1"
  | (taken) w1 where "systemf os (''mkdir -p '' @ path) w = (0, w1)"
      "fopen os (path @ ''/next'') ''wx'' w1 = (None, w')" "rc = -1" "d = dagger_zero"
  | (first) w1 w2 w3 where "systemf os (''mkdir -p '' @ path) w = (0, w1)"
      "fopen os (path @ ''/next'') ''wx'' w1 = (Some (path @ ''/next''), w2)"
      "readdf os (path @ ''/current'') w2 = (None, w3)"
      "claim_next os path (dagger_zero\<lparr>d_next_fp := SOpen (path @ ''/next''), d_current := -1\<rparr>) w3
         = (rc, d, w')"
  | (later) w1 w2 w3 c e w4 where "systemf os (''mkdir -p '' @ path) w = (0, w1)"
      "fopen os (path @ ''/next'') ''wx'' w1 = (Some (path @ ''/next''), w2)"
      "readdf os (path @ ''/current'') w2 = (Some c, w3)"
      "systemf os (exit_cmd path c) w3 = (e, w4)"
      "if e \<noteq> 0 then rc = e \<and> w' = w4 \<and> d_current d = c
       else claim_next os path (dagger_zero\<lparr>d_next_fp := SOpen (path @ ''/next''), d_current := c\<rparr>) w4
         = (rc, d, w')"
proof -
  obtain e w1 where s1: "systemf os (''mkdir -p '' @ path) w = (e, w1)" by fastforce
  show ?thesis
  proof (cases "e = 0")
    case False
    with claim s1 no_root show ?thesis by (auto simp: dagger_claim_def)
  next
    case True
    obtain r w2 where s2: "fopen os (path @ ''/next'') ''wx'' w1 = (r, w2)" by fastforce
    obtain v w3 where s3: "readdf os (path @ ''/current'') w2 = (v, w3)" by fastforce
    show ?thesis
    proof (cases r)
      case None
      with claim s1 s2 True taken show ?thesis by (auto simp: dagger_claim_def)
    next
      case (Some fp)
      with s2 have fp: "fp = path @ ''/next''" by (auto dest: fopen_Some_path)
      show ?thesis
      proof (cases v)
        case None
        with claim s1 s2 s3 True Some fp first show ?thesis by (auto simp: dagger_claim_def)
      next
        case c: (Some c)
        obtain e4 w4 where s4: "systemf os (exit_cmd path c) w3 = (e4, w4)" by fastforce
        from claim s1 s2 s3 s4 True Some fp c show ?thesis
          by (intro later [of w1 w2 c w3 e4 w4]) (auto simp: dagger_claim_def Let_def)
      qed
    qed
  qed
qed

lemma dagger_claim_keeps:
  assumes "dagger_claim os path w = (rc, d, w')" "claim_adds_only os path" "w_fs w q = Some n"
  shows "w_fs w' q = Some n"
  using assms(1)
proof (cases rule: dagger_claim_stages)
  case (no_root e w1)
  with assms show ?thesis by (auto simp: claim_adds_only_def intro: systemf_adds_only)
next
  case (taken w1)
  then have "w_fs w1 q = Some n"
    using assms by (auto simp: claim_adds_only_def intro: systemf_adds_only)
  with taken(2) show ?thesis
    by (auto simp: fopen_def split: if_splits option.splits fnode.splits)
next
  case (first w1 w2 w3)
  then have "w_fs w1 q = Some n"
    using assms by (auto simp: claim_adds_only_def intro: systemf_adds_only)
  with fopen_wx_fresh [OF first(2)] readdf_fs [OF first(3)] have "w_fs w3 q = Some n" by auto
  with first(4) assms(2) show ?thesis by (blast intro: claim_next_keeps)
next
  case (later w1 w2 w3 c e w4)
  then have "w_fs w1 q = Some n"
    using assms by (auto simp: claim_adds_only_def intro: systemf_adds_only)
  with fopen_wx_fresh [OF later(2)] readdf_fs [OF later(3)] have "w_fs w3 q = Some n" by auto
  with later(4) assms(2) have "w_fs w4 q = Some n"
    by (auto simp: claim_adds_only_def intro: systemf_adds_only)
  with later(5) assms(2) show ?thesis
    by (auto split: if_splits intro: claim_next_keeps)
qed

lemma evolve_promotesD:
  assumes "evolve_promotes os path"
    and "systemf os (''dagger -C '' @ path @ '' evolve'') w = (0, w')"
  shows "w_fs w' (path @ ''/current'') = w_fs w (path @ ''/next'')"
proof -
  from systemf_fs [OF assms(2)] obtain e
    where "os_sh os (''dagger -C '' @ path @ '' evolve'') (w_fs w) = (0, e, w_fs w')" ..
  with assms(1) show ?thesis unfolding evolve_promotes_def by blast
qed

lemma ln_makes_orderD:
  assumes "ln_makes_order os path c" and sys: "systemf os (exit_cmd path c) w = (0, w')"
  shows "w_fs w' (order_link path c) = Some (FLink ''../../top-down-order'')"
proof -
  from systemf_sh [OF sys] have "fst (os_sh os (exit_cmd path c) (w_fs w)) = 0" by simp
  with assms(1) have "snd (snd (os_sh os (exit_cmd path c) (w_fs w))) (order_link path c)
      = Some (FLink ''../../top-down-order'')"
    unfolding ln_makes_order_def by blast
  with systemf_sh(2) [OF sys] show ?thesis by simp
qed

lemma ln_refuses_takenD:
  assumes "ln_refuses_taken os path c" and sys: "systemf os (exit_cmd path c) w = (e, w')"
    and "w_fs w (order_link path c) = Some (FLink t)"
  shows "e \<noteq> 0"
proof -
  from assms(1,3) have "fst (os_sh os (exit_cmd path c) (w_fs w)) \<noteq> 0"
    unfolding ln_refuses_taken_def by blast
  with systemf_sh(1) [OF sys] show ?thesis by simp
qed

lemma abandon_keepsD:
  assumes "abandon_keeps os path c"
    and sys: "systemf os (''dagger -C '' @ path @ '' abandon'') w = (e, w')"
    and "w_fs w (path @ ''/next'') = Some (FFile (dec_int (c + 1) @ nl) x)"
  shows "w_fs w' (order_link path c) = w_fs w (order_link path c)"
    and "w_fs w' (path @ ''/current'') = w_fs w (path @ ''/current'')"
  using assms(1) [unfolded abandon_keeps_def, rule_format, of "w_fs w", OF assms(3)] systemf_sh(2) [OF sys]
  by (simp_all add: case_prod_beta)

section \<open>The concrete system\<close>

lemma demo_adds_only: "claim_adds_only demo_os ''/r''"
  by (auto simp: claim_adds_only_def adds_only_def demo_os_def demo_sh_def exit_cmd_def init_cmd_def
      split: option.splits fnode.splits)

lemma demo_posix_tools: "posix_tools demo_os"
  by (auto simp: posix_tools_def adds_only_def demo_os_def demo_sh_def exit_cmd_def order_link_def
      split: option.splits fnode.splits)

lemma demo_evolve: "evolve_promotes demo_os ''/r''"
  by (auto simp: evolve_promotes_def demo_os_def demo_sh_def exit_cmd_def)

lemma pair3: "fst p = a \<Longrightarrow> p = (a, fst (snd p), snd (snd p))"
  by (cases p) auto

lemma some3:
  "\<not> Option.is_none x \<Longrightarrow> fst (the x) = a \<Longrightarrow> x = Some (a, fst (snd (the x)), snd (snd (the x)))"
  by (cases x) auto

lemma demo_steps:
  "dagger_claim demo_os ''/r'' demo_world = (0, fst (snd demo_claim1), snd (snd demo_claim1))"
  "dagger_evolve demo_os (fst (snd demo_claim1)) (snd (snd demo_claim1))
     = Some (0, fst (snd demo_evolve1), snd (snd demo_evolve1))"
  "dagger_claim demo_os ''/r'' (snd (snd demo_evolve1))
     = (0, fst (snd demo_claim2), snd (snd demo_claim2))"
  "dagger_abandon demo_os (fst (snd demo_claim2)) (snd (snd demo_claim2))
     = Some (0, fst (snd demo_abandon2), snd (snd demo_abandon2))"
  "dagger_claim demo_os ''/r'' (snd (snd demo_abandon2))
     = (1, fst (snd demo_claim3), snd (snd demo_claim3))"
  unfolding demo_claim1_def [symmetric] demo_claim2_def [symmetric] demo_claim3_def [symmetric]
    apply (rule pair3, code_simp)
   apply (unfold demo_evolve1_def, rule some3, code_simp, code_simp) [1]
  apply (rule pair3, code_simp)
  apply (unfold demo_abandon2_def, rule some3, code_simp, code_simp) [1]
  apply (rule pair3, code_simp)
  done

section \<open>Properties\<close>

text \<open>C6. A transaction is exclusive: while the file \<open>next\<close> exists, \<open>dagger_claim\<close> fails
  whatever state the directory is in, leaves \<open>next\<close> as it is and hands out a dagger with no
  stream and no path.\<close>

theorem claim_exclusive:
  assumes "adds_only os (''mkdir -p '' @ path)"
    and "w_fs w (path @ ''/next'') = Some n"
    and "dagger_claim os path w = (rc, d, w')"
  shows "rc \<noteq> 0 \<and> d = dagger_zero \<and> w_fs w' (path @ ''/next'') = Some n"
  using assms(3)
proof (cases rule: dagger_claim_stages)
  case (no_root e w1)
  with assms(1,2) show ?thesis by (auto intro: systemf_adds_only)
next
  case (taken w1)
  with assms(1,2) have "w_fs w1 (path @ ''/next'') = Some n" by (auto intro: systemf_adds_only)
  with taken show ?thesis by (auto simp: fopen_def split: if_splits option.splits fnode.splits)
next
  case (first w1 w2 w3)
  with assms(1,2) have "w_fs w1 (path @ ''/next'') = Some n" by (auto intro: systemf_adds_only)
  with fopen_wx_fresh [OF first(2)] show ?thesis by simp
next
  case (later w1 w2 w3 c e w4)
  with assms(1,2) have "w_fs w1 (path @ ''/next'') = Some n" by (auto intro: systemf_adds_only)
  with fopen_wx_fresh [OF later(2)] show ?thesis by simp
qed

theorem claim_exclusive_witness:
  "case dagger_claim demo_os ''/r'' (demo_world\<lparr>w_fs := [''/r/next'' \<mapsto> FFile [] False]\<rparr>) of
     (rc, d, w) \<Rightarrow> rc \<noteq> 0 \<and> d = dagger_zero \<and> w_fs w ''/r/next'' = Some (FFile [] False)"
  using demo_adds_only
    claim_exclusive [of demo_os "''/r''" "demo_world\<lparr>w_fs := [''/r/next'' \<mapsto> FFile [] False]\<rparr>"]
  by (auto simp: claim_adds_only_def split: prod.splits)


text \<open>A script opened for the next generation is complete before anything is printed to it:
  an executable file holding the interpreter line its extension asks for, in a directory made
  first; every file that existed under another name is left as it is, and the new file is never
  one of the current generation's scripts.\<close>

theorem fopen_next_script:
  assumes "posix_tools os" "shell_safe (action_dir d (d_next d) action node)"
    and "d_current d \<noteq> d_next d"
    and "dagger_fopen_next os d action node prio script w = (Some fp, w')"
  shows "prio \<le> 99 \<and> w_fs w' fp = Some (FFile (shebang script) True)
    \<and> w_log w' = w_log w @ [''mkdir -p '' @ action_dir d (d_next d) action node]
    \<and> (\<forall>q n. q \<noteq> fp \<longrightarrow> w_fs w q = Some n \<longrightarrow> w_fs w' q = Some n)
    \<and> (\<forall>a m p s. fp \<noteq> action_file d (d_current d) a m p s)"
proof -
  note o = assms(4) [unfolded dagger_fopen_next_def]
  from dagger_fopen_Some [OF o] have
    fp: "fp = action_file d (d_next d) action node prio script" and
    rest: "prio \<le> 99" "w_fs w' fp = Some (FFile (shebang script) True)"
      "w_log w' = w_log w @ [''mkdir -p '' @ action_dir d (d_next d) action node]" by blast+
  have "\<forall>q n. q \<noteq> fp \<longrightarrow> w_fs w q = Some n \<longrightarrow> w_fs w' q = Some n"
    using dagger_fopen_frame [OF o assms(1,2)] fp by blast
  moreover have "\<forall>a m p s. fp \<noteq> action_file d (d_current d) a m p s"
    using fp action_file_gen assms(3) by metis
  ultimately show ?thesis using rest by blast
qed

theorem fopen_next_script_witness:
  "w_fs (snd (dagger_fopen_next demo_os (fst (snd demo_claim2)) ''init'' ''eth0'' 20 ''init.ip''
       (snd (snd demo_claim2)))) ''/r/1/action/init/eth0/20-init.ip''
     = Some (FFile (''#!/sbin/ip -batch'' @ nl @ nl) True)"
proof -
  let ?d = "fst (snd demo_claim2)" and ?w = "snd (snd demo_claim2)"
  let ?o = "dagger_fopen_next demo_os ?d ''init'' ''eth0'' 20 ''init.ip'' ?w"
  have d: "d_current ?d = 0" "d_next ?d = 1" by code_simp+
  have fp: "fst ?o = Some ''/r/1/action/init/eth0/20-init.ip''" by code_simp
  have m: "shell_safe (action_dir ?d (d_next ?d) ''init'' ''eth0'')" by code_simp
  have sb: "shebang ''init.ip'' = ''#!/sbin/ip -batch'' @ nl @ nl" by code_simp
  show ?thesis
    using fopen_next_script [OF demo_posix_tools m, of 20 "''init.ip''" ?w _ "snd ?o"] d fp sb
    by (metis prod.collapse zero_neq_one)
qed

text \<open>Generations count up by one across transactions: after a claim whose \<open>next\<close> file is
  still empty, a successful evolve and another successful claim, the new transaction has the old
  one's \<open>next\<close> as its \<open>current\<close>, read back from the file the old one printed it to.\<close>

theorem generation_roundtrip:
  assumes claim: "dagger_claim os path w0 = (0, d, w1)"
    and len: "length path < PATH_MAX"
    and next_file: "w_fs w2 (path @ ''/next'') = Some (FFile [] x)"
    and evolve: "dagger_evolve os d w2 = Some (0, d', w3)"
    and promotes: "evolve_promotes os path"
    and adds: "adds_only os (''mkdir -p '' @ path)"
    and readable: "\<forall>fs. os_open os (path @ ''/current'') ''r'' fs = 0"
    and range: "d_next d \<le> INT_MAX"
    and again: "dagger_claim os path w3 = (0, d2, w4)"
  shows "d_current d2 = d_next d \<and> d_next d2 = d_next d + 1"
proof -
  let ?cur = "path @ ''/current''" and ?nxt = "path @ ''/next''"
  from dagger_claim_ok [OF claim] len
  have d: "d_next_fp d = SOpen ?nxt" "d_path d = path" "INT_MIN \<le> d_next d"
    by (auto simp: INT_MIN_def)
  let ?wp = "fput ?nxt (dec_int (d_next d) @ nl) w2"
  from evolve d have sys: "systemf os (''dagger -C '' @ path @ '' evolve'') ?wp = (0, w3)"
    by (auto simp: dagger_evolve_def split: prod.splits)
  have "w_fs ?wp ?nxt = Some (FFile (dec_int (d_next d) @ nl) x)"
    using fput_same [OF next_file, of "dec_int (d_next d) @ nl"] by simp
  with evolve_promotesD [OF promotes sys]
  have cur: "w_fs w3 ?cur = Some (FFile (dec_int (d_next d) @ nl) x)" by simp
  have read: "fst (readdf os ?cur v) = Some (d_next d)"
    if "w_fs v ?cur = Some (FFile (dec_int (d_next d) @ nl) x)" for v
    using that readable d(3) range by (intro readdf_text) auto
  from again have "d_current d2 = d_next d"
  proof (cases rule: dagger_claim_stages)
    case (first v1 v2 v3)
    from first(1) adds cur have "w_fs v1 ?cur = Some (FFile (dec_int (d_next d) @ nl) x)"
      by (auto intro: systemf_adds_only)
    with fopen_wx_fresh [OF first(2)] have "w_fs v2 ?cur = Some (FFile (dec_int (d_next d) @ nl) x)"
      by auto
    from read [OF this] first(3) show ?thesis by simp
  next
    case (later v1 v2 v3 c e v4)
    from later(1) adds cur have "w_fs v1 ?cur = Some (FFile (dec_int (d_next d) @ nl) x)"
      by (auto intro: systemf_adds_only)
    with fopen_wx_fresh [OF later(2)] have "w_fs v2 ?cur = Some (FFile (dec_int (d_next d) @ nl) x)"
      by auto
    from read [OF this] later(3) have "c = d_next d" by simp
    with later(5) show ?thesis by (auto dest!: claim_next_shape split: if_splits)
  qed simp_all
  with dagger_claim_ok [OF again] show ?thesis by simp
qed

theorem generation_roundtrip_witness:
  "d_current (fst (snd demo_claim2)) = 0 \<and> d_next (fst (snd demo_claim2)) = 1"
proof -
  have n: "w_fs (snd (snd demo_claim1)) (''/r'' @ ''/next'') = Some (FFile [] False)"
    "d_next (fst (snd demo_claim1)) = 0" by code_simp+
  have "d_current (fst (snd demo_claim2)) = d_next (fst (snd demo_claim1))
    \<and> d_next (fst (snd demo_claim2)) = d_next (fst (snd demo_claim1)) + 1"
    using demo_adds_only
    by (intro generation_roundtrip [OF demo_steps(1) _ n(1) demo_steps(2) demo_evolve _ _ _ demo_steps(3)])
      (simp_all add: PATH_MAX_def INT_MAX_def claim_adds_only_def demo_os_def n)
  with n show ?thesis by simp
qed

section \<open>Claims after an abandoned one\<close>

text \<open>A claim on an existing generation leaves the link \<open>order\<close> there, an empty file \<open>next\<close>, and the
  number of the generation as it was.\<close>

lemma claim_leaves_order_link:
  assumes adds: "claim_adds_only os path" and makes: "ln_makes_order os path (d_current d)"
    and readable: "\<forall>fs p m. os_open os p m fs = 0"
    and claim: "dagger_claim os path w = (0, d, w1)" and cur: "0 \<le> d_current d"
  shows "\<exists>f. w_fs w1 (path @ ''/current'') = Some f \<and>
      (\<forall>v. w_fs v (path @ ''/current'') = Some f \<longrightarrow> fst (readdf os (path @ ''/current'') v) = Some (d_current d)) \<and>
      w_fs w1 (order_link path (d_current d)) = Some (FLink ''../../top-down-order'') \<and>
      w_fs w1 (path @ ''/next'') = Some (FFile [] False) \<and> d_next d = d_current d + 1"
proof -
  let ?c = "d_current d" and ?cur = "path @ ''/current''" and ?nxt = "path @ ''/next''"
  obtain v1 v2 v3 v4 where
    o: "fopen os ?nxt ''wx'' v1 = (Some ?nxt, v2)" and
    r: "readdf os ?cur v2 = (Some ?c, v3)" and
    l: "systemf os (exit_cmd path ?c) v3 = (0, v4)" and
    n: "claim_next os path (dagger_zero\<lparr>d_next_fp := SOpen ?nxt, d_current := ?c\<rparr>) v4 = (0, d, w1)"
    using claim
  proof (cases rule: dagger_claim_stages)
    case (first u1 u2 u3)
    with cur show ?thesis by (auto dest!: claim_next_shape)
  next
    case (later u1 u2 u3 c e u4)
    then have "e = 0" "c = ?c" by (auto dest!: claim_next_shape split: if_splits)
    with later that show ?thesis by auto
  qed (use cur in \<open>auto simp: dagger_zero_def\<close>)
  have keeps: "w_fs w1 q = Some m" if "w_fs v2 q = Some m" for q m
  proof -
    from that readdf_fs [OF r] l adds have "w_fs v4 q = Some m"
      by (auto simp: claim_adds_only_def intro: systemf_adds_only)
    with n adds show ?thesis by (blast intro: claim_next_keeps)
  qed
  obtain f where f: "w_fs v2 ?cur = Some f"
    using readdf_missing [of v2 ?cur os] r by fastforce
  have "fst (readdf os ?cur v) = Some ?c" if "w_fs v ?cur = Some f" for v
    using readdf_cong [of v ?cur v2 os] that f r readable by simp
  moreover have "w_fs w1 (order_link path ?c) = Some (FLink ''../../top-down-order'')"
    using ln_makes_orderD [OF makes l] n adds by (blast intro: claim_next_keeps)
  moreover have "w_fs v2 ?nxt = Some (FFile [] False)" using fopen_wx_fresh [OF o] by auto
  moreover have "d_next d = ?c + 1" using n by (auto dest!: claim_next_shape)
  ultimately show ?thesis using keeps f by blast
qed

text \<open>A claim fails where the link is there, after it has made \<open>next\<close>.\<close>

lemma claim_fails_on_order_link:
  assumes adds: "claim_adds_only os path" and refuses: "ln_refuses_taken os path c"
    and readable: "\<forall>fs p m. os_open os p m fs = 0"
    and root: "\<forall>fs. fst (os_sh os (''mkdir -p '' @ path) fs) = 0"
    and cur: "w_fs w (path @ ''/current'') = Some f"
      "\<forall>v. w_fs v (path @ ''/current'') = Some f \<longrightarrow> fst (readdf os (path @ ''/current'') v) = Some c"
    and link: "w_fs w (order_link path c) = Some (FLink t)"
    and claim: "dagger_claim os path w = (rc, d, w')"
  shows "rc \<noteq> 0 \<and> w_fs w' (path @ ''/next'') \<noteq> None"
proof -
  let ?cur = "path @ ''/current''" and ?nxt = "path @ ''/next''"
  have name_neq: "order_link path c \<noteq> ?nxt" by (auto simp: order_link_def)
  from claim show ?thesis
  proof (cases rule: dagger_claim_stages)
    case (no_root e u1)
    with root systemf_sh(1) [OF no_root(1)] show ?thesis by simp
  next
    case (taken u1)
    with readable show ?thesis
      by (auto simp: fopen_def split: if_splits option.splits fnode.splits)
  next
    case (first u1 u2 u3)
    then have "w_fs u1 ?cur = Some f"
      using cur(1) adds by (auto simp: claim_adds_only_def intro: systemf_adds_only)
    with fopen_wx_fresh [OF first(2)] have "w_fs u2 ?cur = Some f" by auto
    with cur(2) first(3) show ?thesis by (metis fst_conv option.distinct(1))
  next
    case (later u1 u2 u3 c' e u4)
    then have k: "w_fs u1 q = Some m" if "w_fs w q = Some m" for q m
      using that adds by (auto simp: claim_adds_only_def intro: systemf_adds_only)
    from k [OF cur(1)] fopen_wx_fresh [OF later(2)] have "w_fs u2 ?cur = Some f" by auto
    with cur(2) later(3) have c: "c' = c" by (metis fst_conv option.inject)
    from k [OF link] fopen_wx_fresh [OF later(2)] readdf_fs [OF later(3)] name_neq
    have u3: "w_fs u3 (order_link path c) = Some (FLink t)"
      and n3: "w_fs u3 ?nxt = Some (FFile [] False)" by auto
    have "e \<noteq> 0"
      using ln_refuses_takenD [OF refuses later(4) [unfolded c] u3] .
    moreover have "w_fs u4 ?nxt = Some (FFile [] False)"
      using adds later(4) n3
      by (auto simp: claim_adds_only_def intro: systemf_adds_only)
    ultimately show ?thesis using later(5) by simp
  qed
qed

text \<open>One abandoned transaction blocks all later ones: the claim of a transaction on an
  existing generation makes the link \<open>action/exit/order\<close> in the current generation, abandoning
  the transaction leaves it there, and the next claim's \<open>ln -s\<close> then fails after \<open>next\<close> has been
  created, so that \<open>next\<close> stays behind and (by the exclusiveness of claims) no claim succeeds
  any more.\<close>

theorem claim_wedged_after_abandon:
  assumes adds: "claim_adds_only os path"
    and makes: "ln_makes_order os path (d_current d)"
    and refuses: "ln_refuses_taken os path (d_current d)"
    and readable: "\<forall>fs p m. os_open os p m fs = 0"
    and root: "\<forall>fs. fst (os_sh os (''mkdir -p '' @ path) fs) = 0"
    and len: "length path < PATH_MAX"
    and claim: "dagger_claim os path w = (0, d, w1)" and cur: "0 \<le> d_current d"
    and abandon: "dagger_abandon os d w1 = Some (rc, d1, w2)"
    and keeps: "abandon_keeps os path (d_current d)"
    and again: "dagger_claim os path w2 = (rc2, d2, w3)"
  shows "rc2 \<noteq> 0 \<and> w_fs w3 (path @ ''/next'') \<noteq> None"
proof -
  let ?c = "d_current d" and ?cur = "path @ ''/current''" and ?nxt = "path @ ''/next''"
  obtain f where f: "w_fs w1 ?cur = Some f"
      "\<forall>v. w_fs v ?cur = Some f \<longrightarrow> fst (readdf os ?cur v) = Some ?c"
    and link: "w_fs w1 (order_link path ?c) = Some (FLink ''../../top-down-order'')"
    and nxt: "w_fs w1 ?nxt = Some (FFile [] False)" "d_next d = ?c + 1"
    using claim_leaves_order_link [OF adds makes readable claim cur] by blast
  from dagger_claim_ok [OF claim] len have d: "d_next_fp d = SOpen ?nxt" "d_path d = path" by auto
  let ?wp = "fput ?nxt (dec_int (?c + 1) @ nl) w1"
  from abandon d nxt(2) obtain r2 where
    ab: "systemf os (''dagger -C '' @ path @ '' abandon'') ?wp = (r2, w2)"
    by (auto simp: dagger_abandon_def split: prod.splits)
  have n: "w_fs ?wp ?nxt = Some (FFile (dec_int (?c + 1) @ nl) False)"
    using fput_same [OF nxt(1), of "dec_int (?c + 1) @ nl"] by simp
  have "w_fs w2 ?cur = Some f"
    using abandon_keepsD(2) [OF keeps ab n] f(1) by simp
  moreover have "w_fs w2 (order_link path ?c) = Some (FLink ''../../top-down-order'')"
    using abandon_keepsD(1) [OF keeps ab n] link by (simp add: order_link_def)
  ultimately show ?thesis
    using claim_fails_on_order_link [OF adds refuses readable root _ f(2) _ again] by blast
qed

theorem claim_wedged_after_abandon_witness:
  "fst demo_claim3 \<noteq> 0 \<and> w_fs (snd (snd demo_claim3)) (''/r'' @ ''/next'') \<noteq> None"
proof -
  have cur: "d_current (fst (snd demo_claim2)) = 0" "fst demo_claim3 = 1" by code_simp+
  have sh: "ln_makes_order demo_os ''/r'' 0" "ln_refuses_taken demo_os ''/r'' 0" "abandon_keeps demo_os ''/r'' 0"
    "\<forall>fs. fst (os_sh demo_os (''mkdir -p '' @ ''/r'') fs) = 0" "\<forall>fs p m. os_open demo_os p m fs = 0"
    by (auto simp: ln_makes_order_def ln_refuses_taken_def abandon_keeps_def demo_os_def demo_sh_def
       exit_cmd_def order_link_def dec_int_def split: option.splits fnode.splits)
  show ?thesis
    using claim_wedged_after_abandon [OF demo_adds_only _ _ sh(5,4) _ demo_steps(3) _ demo_steps(4) _ demo_steps(5)]
      cur sh by (simp add: PATH_MAX_def)
qed

end
