(* ===== verification/Getopt.thy ===== *)
theory Getopt
  imports Prelude
begin

text \<open>
  \<open>getopt\<close> of the C library and \<open>getopts\<close> of the shell, for options of one letter: what the option
  string says of a letter, options joined in one argument, arguments joined to their option or following
  it, and the end of the options at \<open>--\<close>.  An implementation either stops at the first operand
  or, as the GNU library does, takes options from behind operands too; which, is the argument \<open>permute\<close>.
  An unknown option and a missing argument are reported as the option \<open>?\<close>.
\<close>

datatype opt = Opt (opt_char: char) (opt_arg: cstr)

text \<open>Whether the letter is an option, and if so whether it takes an argument.\<close>

fun opt_kind :: "string \<Rightarrow> char \<Rightarrow> bool option" where
  "opt_kind [] c = None"
| "opt_kind (x # xs) c =
     (if c = CHR '':'' then None
      else if x = c then Some (case xs of y # ys \<Rightarrow> y = CHR '':'' | [] \<Rightarrow> False)
      else opt_kind xs c)"

text \<open>The letters of one argument, and what is left of the arguments behind it.\<close>

fun opt_cluster :: "string \<Rightarrow> string \<Rightarrow> string list \<Rightarrow> opt list \<times> string list" where
  "opt_cluster optstring [] rest = ([], rest)"
| "opt_cluster optstring (c # cs) rest =
     (case opt_kind optstring c of
        Some True \<Rightarrow>
          (if cs \<noteq> [] then ([Opt c (Some cs)], rest)
           else (case rest of
                   [] \<Rightarrow> ([Opt (CHR ''?'') None], [])
                 | a # as \<Rightarrow> ([Opt c (Some a)], as)))
      | Some False \<Rightarrow> (case opt_cluster optstring cs rest of (os, rest') \<Rightarrow> (Opt c None # os, rest'))
      | None \<Rightarrow> (case opt_cluster optstring cs rest of (os, rest') \<Rightarrow> (Opt (CHR ''?'') None # os, rest')))"

lemma opt_cluster_length: "opt_cluster optstring s rest = (os, rest') \<Longrightarrow> length rest' \<le> length rest"
  by (induction optstring s rest arbitrary: os rest' rule: opt_cluster.induct)
    (auto split: option.splits bool.splits if_splits list.splits prod.splits)

text \<open>The options in order, and the operands.\<close>

function getopt :: "bool \<Rightarrow> string \<Rightarrow> string list \<Rightarrow> opt list \<times> string list" where
  "getopt permute optstring [] = ([], [])"
| "getopt permute optstring (a # as) =
     (if a = ''--'' then ([], as)
      else if 1 < length a \<and> hd a = CHR ''-'' then
        (case opt_cluster optstring (tl a) as of
           (os, rest) \<Rightarrow> (case getopt permute optstring rest of (os', ops) \<Rightarrow> (os @ os', ops)))
      else if permute then (case getopt permute optstring as of (os, ops) \<Rightarrow> (os, a # ops))
      else ([], a # as))"
  by pat_completeness auto

termination
  by (relation "measure (\<lambda>(p, s, as). length as)")
    (auto dest: opt_cluster_length [OF sym] simp: less_Suc_eq_le)

text \<open>Every argument of an option is part of an argument of the program.\<close>

lemma opt_cluster_args:
  assumes "opt_cluster optstring s rest = (os, rest')"
  shows "Opt c (Some v) \<in> set os \<Longrightarrow> length v < length s \<or> v \<in> set rest" "set rest' \<subseteq> set rest"
  using assms
  by (induction optstring s rest arbitrary: os rest' rule: opt_cluster.induct)
    (fastforce split: option.splits bool.splits if_splits list.splits prod.splits)+

lemma getopt_args:
  "getopt permute optstring as = (os, ops) \<Longrightarrow> Opt c (Some v) \<in> set os \<Longrightarrow> \<forall>a \<in> set as. length a \<le> n \<Longrightarrow>
     length v \<le> n"
proof (induction permute optstring as arbitrary: os ops rule: getopt.induct)
  case (2 permute optstring a as)
  consider "a = ''--''" | (opts) "a \<noteq> ''--''" "1 < length a \<and> hd a = CHR ''-''"
    | (operand) "a \<noteq> ''--''" "\<not> (1 < length a \<and> hd a = CHR ''-'')" by blast
  then show ?case
  proof cases
    case opts
    obtain os1 rest where c: "opt_cluster optstring (tl a) as = (os1, rest)" by force
    obtain os2 ops2 where g: "getopt permute optstring rest = (os2, ops2)" by force
    from 2(3) opts c g have os: "os = os1 @ os2" by simp
    have "\<forall>b \<in> set rest. length b \<le> n" using opt_cluster_args(2) [OF c] 2(5) by auto
    with 2(1) [OF opts c [symmetric] g] 2(4) os opt_cluster_args(1) [OF c] 2(5) show ?thesis
      by fastforce
  next
    case operand
    then show ?thesis
      using 2(2) [OF operand] 2(3-5) by (auto split: if_splits prod.splits)
  qed (use 2 in auto)
qed simp

end
