(* ===== verification/DaggerScript.thy ===== *)
theory DaggerScript
  imports Dagger Order Getopt
begin

text \<open>
  The script \<open>src/board/common/rootfs/sbin/dagger\<close>, which runs the generations \<open>dagger.c\<close> prepares.

  The programs it calls are the record \<open>dg_env\<close>: \<open>dg_find\<close> is what \<open>find -L dag -depth -mindepth 1\<close> with
  \<open>basename\<close> prints, \<open>dg_works\<close> the executable files below a directory in the order of \<open>sort\<close>, \<open>dg_run\<close>
  the exit status of one of them and the files afterwards, its output appended to its log.  The state has the files and
  the programs run so far.  An operation returns the status the script would exit with, and 0 to go on; \<open>abort\<close>
  exits with 1.  Of the files the script reads itself only \<open>order\<close> is a link, names contain no white space, and
  messages are left out.
\<close>

record dg_env =
  dg_find :: "string \<Rightarrow> fs \<Rightarrow> string list"
  dg_works :: "string \<Rightarrow> fs \<Rightarrow> string list"
  dg_run :: "string \<Rightarrow> fs \<Rightarrow> int \<times> fs"
  dg_date :: string
  dg_pwd :: string

record dg_st =
  dg_fs :: fs
  dg_trace :: "string list"

section \<open>Files\<close>

definition is_file :: "fs \<Rightarrow> string \<Rightarrow> bool" where
  "is_file fs p = (case fs p of Some (FFile c x) \<Rightarrow> True | _ \<Rightarrow> False)"

definition is_dir :: "fs \<Rightarrow> string \<Rightarrow> bool" where
  "is_dir fs p = (fs p = Some FDir)"

definition cat_file :: "fs \<Rightarrow> string \<Rightarrow> string" where
  "cat_file fs p = (case fs p of Some (FFile c x) \<Rightarrow> c | _ \<Rightarrow> [])"

text \<open>A command substitution drops the newlines at the end.\<close>

definition chomp_nl :: "string \<Rightarrow> string" where
  "chomp_nl s = rev (dropWhile (\<lambda>c. c = CHR 0x0A) (rev s))"

text \<open>\<open>$([ -f file ] && cat file)\<close>\<close>

definition cat_gen :: "fs \<Rightarrow> string \<Rightarrow> string" where
  "cat_gen fs p = (if is_file fs p then chomp_nl (cat_file fs p) else [])"

text \<open>Redirection into a file, and appending to one.\<close>

definition redirect :: "string \<Rightarrow> string \<Rightarrow> dg_st \<Rightarrow> int \<times> dg_st" where
  "redirect p s st =
     (case dg_fs st p of
        None \<Rightarrow> (0, st\<lparr>dg_fs := (dg_fs st)(p \<mapsto> FFile s False)\<rparr>)
      | Some (FFile c x) \<Rightarrow> (0, st\<lparr>dg_fs := (dg_fs st)(p \<mapsto> FFile s x)\<rparr>)
      | _ \<Rightarrow> (1, st))"

definition append_log :: "string \<Rightarrow> string \<Rightarrow> fs \<Rightarrow> fs" where
  "append_log p s fs =
     (case fs p of
        None \<Rightarrow> fs(p \<mapsto> FFile s False)
      | Some (FFile c x) \<Rightarrow> fs(p \<mapsto> FFile (c @ s) x)
      | _ \<Rightarrow> fs)"

text \<open>The file a link leads to; a relative one starts from the directory it is in.\<close>

definition parent :: "string \<Rightarrow> string" where
  "parent p = (case rindex p (CHR ''/'') of None \<Rightarrow> [] | Some t \<Rightarrow> take (length p - length t) p)"

function from_dir :: "string \<Rightarrow> string \<Rightarrow> string" where
  "from_dir d t = (if has_prefix ''../'' t then from_dir (parent d) (drop 3 t) else d @ ''/'' @ t)"
  by auto
termination
  by (relation "measure (\<lambda>(d, t). length t)") (auto simp: has_prefix_iff)

declare from_dir.simps [simp del]

definition follow :: "fs \<Rightarrow> string \<Rightarrow> string" where
  "follow fs p =
     (case fs p of
        Some (FLink t) \<Rightarrow> if has_prefix ''/'' t then t else from_dir (parent p) t
      | _ \<Rightarrow> p)"

text \<open>The words the shell splits a text into.\<close>

fun words_of :: "string \<Rightarrow> string \<Rightarrow> string list" where
  "words_of acc [] = (if acc = [] then [] else [acc])"
| "words_of acc (c # cs) =
     (if c \<in> {CHR '' '', CHR 0x09, CHR 0x0A}
      then (if acc = [] then words_of [] cs else acc # words_of [] cs)
      else words_of (acc @ [c]) cs)"

text \<open>\<open>mv\<close> of a directory with all that is in it.\<close>

definition below :: "string \<Rightarrow> string \<Rightarrow> string option" where
  "below d q = (if q = d then Some [] else if has_prefix (d @ ''/'') q then Some (drop (length d) q) else None)"

definition mv_tree :: "string \<Rightarrow> string \<Rightarrow> fs \<Rightarrow> fs" where
  "mv_tree a b fs =
     (\<lambda>q. case below b q of
            Some t \<Rightarrow> fs (a @ t)
          | None \<Rightarrow> (case below a q of Some t \<Rightarrow> None | None \<Rightarrow> fs q))"

section \<open>Running an action\<close>

definition generate_order :: "dg_env \<Rightarrow> string \<Rightarrow> dg_st \<Rightarrow> int \<times> dg_st" where
  "generate_order env gen st =
     (let up = gen @ ''/bottom-up-order''; down = gen @ ''/top-down-order'' in
      if is_file (dg_fs st) up \<and> is_file (dg_fs st) down then (0, st)
      else
        (let nodes = first_seen [] (dg_find env (gen @ ''/dag'') (dg_fs st)) in
         case redirect up (concat (map (\<lambda>x. x @ nl) nodes)) st of
           (rc, st) \<Rightarrow>
             if rc \<noteq> 0 then (1, st)
             else redirect down (concat (map (\<lambda>x. x @ nl) (rev nodes))) st))"

fun run_works :: "dg_env \<Rightarrow> string list \<Rightarrow> dg_st \<Rightarrow> int \<times> dg_st" where
  "run_works env [] st = (0, st)"
| "run_works env (work # works) st =
     (case dg_run env work (dg_fs st) of
        (code, fs) \<Rightarrow>
          (let st = st\<lparr>dg_fs := append_log (work @ ''.log'') (''[exit:'' @ dec_int code @ '']'' @ nl) fs,
                      dg_trace := dg_trace st @ [work]\<rparr>
           in if code = 0 then run_works env works st else (1, st)))"

fun run_nodes :: "dg_env \<Rightarrow> string \<Rightarrow> string list \<Rightarrow> dg_st \<Rightarrow> int \<times> dg_st" where
  "run_nodes env actdir [] st = (0, st)"
| "run_nodes env actdir (node # nodes) st =
     (case run_works env (dg_works env (actdir @ ''/'' @ node) (dg_fs st)) st of
        (rc, st) \<Rightarrow> if rc \<noteq> 0 then (rc, st) else run_nodes env actdir nodes st)"

definition action_order :: "fs \<Rightarrow> string \<Rightarrow> string \<Rightarrow> string list" where
  "action_order fs gen actdir =
     (let orderfile = follow fs (actdir @ ''/order'');
          orderfile = (if is_file fs orderfile then orderfile else gen @ ''/bottom-up-order'');
          order = words_of [] (cat_file fs orderfile);
          order = (if is_dir fs (actdir @ ''/@pre'') then ''@pre'' # order else order)
      in if is_dir fs (actdir @ ''/@post'') then order @ [''@post''] else order)"

definition action_exec :: "dg_env \<Rightarrow> string \<Rightarrow> string \<Rightarrow> dg_st \<Rightarrow> int \<times> dg_st" where
  "action_exec env action gen st =
     (let actdir = gen @ ''/action/'' @ action in
      case generate_order env gen st of
        (rc, st) \<Rightarrow>
          if rc \<noteq> 0 then (rc, st)
          else run_nodes env actdir (action_order (dg_fs st) gen actdir) st)"

section \<open>Commands\<close>

definition do_exec :: "dg_env \<Rightarrow> string \<Rightarrow> string \<Rightarrow> dg_st \<Rightarrow> int \<times> dg_st" where
  "do_exec env basedir action st =
     (let current = cat_gen (dg_fs st) (basedir @ ''/current'') in
      if current \<noteq> [] \<and> is_dir (dg_fs st) (basedir @ ''/'' @ current)
      then action_exec env action (basedir @ ''/'' @ current) st
      else (1, st))"

definition do_abandon :: "dg_env \<Rightarrow> string \<Rightarrow> dg_st \<Rightarrow> int \<times> dg_st" where
  "do_abandon env basedir st =
     (let nxt = cat_gen (dg_fs st) (basedir @ ''/next'');
          dst = basedir @ ''/'' @ nxt @ ''-ABANDONED-'' @ dg_date env;
          dst = (if is_dir (dg_fs st) dst then dst @ ''/'' @ nxt else dst)
      in if nxt \<noteq> [] \<and> is_dir (dg_fs st) (basedir @ ''/'' @ nxt)
         then (0, st\<lparr>dg_fs := (mv_tree (basedir @ ''/'' @ nxt) dst (dg_fs st))(basedir @ ''/next'' := None)\<rparr>)
         else (1, st))"

definition do_evolve :: "dg_env \<Rightarrow> string \<Rightarrow> dg_st \<Rightarrow> int \<times> dg_st" where
  "do_evolve env basedir st =
     (let current = cat_gen (dg_fs st) (basedir @ ''/current'');
          nxt = cat_gen (dg_fs st) (basedir @ ''/next'')
      in if current \<noteq> [] \<and> \<not> is_dir (dg_fs st) (basedir @ ''/'' @ current) then (1, st)
         else if nxt = [] \<or> \<not> is_dir (dg_fs st) (basedir @ ''/'' @ nxt) then (1, st)
         else
           (case (if current \<noteq> [] then action_exec env ''exit'' (basedir @ ''/'' @ current) st else (0, st)) of
              (rc, st) \<Rightarrow>
                if rc \<noteq> 0 then (rc, st)
                else
                  (case action_exec env ''init'' (basedir @ ''/'' @ nxt) st of
                     (rc, st) \<Rightarrow>
                       if rc \<noteq> 0 then (rc, st)
                       else (case dg_fs st (basedir @ ''/next'') of
                               None \<Rightarrow> (1, st)
                             | Some n \<Rightarrow>
                                 (0, st\<lparr>dg_fs := ((dg_fs st)(basedir @ ''/current'' \<mapsto> n))
                                     (basedir @ ''/next'' := None)\<rparr>)))))"

fun dagger_opts :: "opt list \<Rightarrow> string \<Rightarrow> string option" where
  "dagger_opts [] basedir = Some basedir"
| "dagger_opts (Opt c arg # os) basedir =
     (if c = CHR ''d'' then dagger_opts os basedir
      else if c = CHR ''C'' then dagger_opts os (pstr arg)
      else None)"

definition dagger_main :: "dg_env \<Rightarrow> string list \<Rightarrow> dg_st \<Rightarrow> int \<times> dg_st" where
  "dagger_main env args st =
     (case getopt False ''dC:'' args of
        (os, ops) \<Rightarrow>
          (case dagger_opts os (dg_pwd env) of
             None \<Rightarrow> (1, st)
           | Some basedir \<Rightarrow>
               (case ops of
                  [] \<Rightarrow> (1, st)
                | cmd # rest \<Rightarrow>
                    if cmd = ''help'' then (0, st)
                    else if cmd = ''abandon'' then do_abandon env basedir st
                    else if cmd = ''evolve'' then do_evolve env basedir st
                    else if cmd = ''exec'' then do_exec env basedir (case rest of [] \<Rightarrow> [] | a # as \<Rightarrow> a) st
                    else (1, st))))"

end
