(* ===== verification/DaggerRuns.thy ===== *)
theory DaggerRuns
  imports DaggerScript
begin

text \<open>
  What \<open>sbin/dagger\<close> does with a generation: the order of the nodes, the programs \<open>evolve\<close> runs and in
  which order, and the promises on which the theorems on \<open>dagger.c\<close> rest.
\<close>

section \<open>Names\<close>

definition ends :: "string \<Rightarrow> string \<Rightarrow> bool" where
  "ends e q = (\<exists>p. q = p @ e)"

lemma ends_append [simp]: "ends e (p @ e)"
  by (auto simp: ends_def)

lemma ends_last: "ends e q \<Longrightarrow> e \<noteq> [] \<Longrightarrow> last q = last e"
  by (auto simp: ends_def)

lemma not_ends [simp]:
  "\<not> ends ''.log'' (p @ ''/next'')" "\<not> ends ''.log'' (p @ ''/current'')" "\<not> ends ''.log'' (p @ ''-order'')"
  "\<not> ends ''-order'' (p @ ''/next'')" "\<not> ends ''-order'' (p @ ''/current'')"
  by (auto dest: ends_last)

lemma order_names:
  "gen @ ''/bottom-up-order'' = (gen @ ''/bottom-up'') @ ''-order''"
  "gen @ ''/top-down-order'' = (gen @ ''/top-down'') @ ''-order''"
  by simp_all

lemma parent_join: "CHR ''/'' \<notin> set b \<Longrightarrow> parent (a @ CHR ''/'' # b) = a"
  by (simp add: parent_def)

text \<open>The links \<open>dagger_claim\<close> makes lead to the order files of their generation.\<close>

lemma follow_order:
  assumes "CHR ''/'' \<notin> set t" "CHR ''/'' \<notin> set action" "\<not> has_prefix ''../'' t"
    and "fs (gen @ ''/action/'' @ action @ ''/order'') = Some (FLink (''../../'' @ t))"
  shows "follow fs (gen @ ''/action/'' @ action @ ''/order'') = gen @ ''/'' @ t"
proof -
  have p: "parent (gen @ ''/action/'' @ action @ ''/order'') = gen @ ''/action/'' @ action"
    using parent_join [of "''order''" "gen @ ''/action/'' @ action"] by simp
  have q: "parent (gen @ ''/action/'' @ action) = gen @ ''/action''"
    using parent_join [of action "gen @ ''/action''"] assms(2) by simp
  have r: "parent (gen @ ''/action'') = gen"
    using parent_join [of "''action''" gen] by simp
  have "from_dir (gen @ ''/action/'' @ action) (''../../'' @ t) = from_dir (gen @ ''/action'') (''../'' @ t)"
    by (subst from_dir.simps) (simp add: q [simplified])
  also have "\<dots> = from_dir gen t"
    by (subst from_dir.simps) (simp add: r [simplified])
  also have "\<dots> = gen @ ''/'' @ t"
    using assms(3) by (subst from_dir.simps) simp
  finally show ?thesis
    using assms(4) p by (simp add: follow_def)
qed

section \<open>Files a run leaves alone\<close>

text \<open>Names the shell does not split.\<close>

definition word :: "string \<Rightarrow> bool" where
  "word s = (s \<noteq> [] \<and> set s \<inter> {CHR '' '', CHR 0x09, CHR 0x0A} = {})"

lemma words_of_word: "set s \<inter> {CHR '' '', CHR 0x09, CHR 0x0A} = {} \<Longrightarrow> words_of acc (s @ t) = words_of (acc @ s) t"
  by (induction s arbitrary: acc) auto

lemma words_of_lines: "\<forall>x \<in> set xs. word x \<Longrightarrow> words_of [] (concat (map (\<lambda>x. x @ nl) xs)) = xs"
proof (induction xs)
  case (Cons x xs)
  then have "set x \<inter> {CHR '' '', CHR 0x09, CHR 0x0A} = {}" "x \<noteq> []" by (auto simp: word_def)
  then have "words_of [] (x @ nl @ concat (map (\<lambda>x. x @ nl) xs)) = x # words_of [] (concat (map (\<lambda>x. x @ nl) xs))"
    using words_of_word [of x "[]" "nl @ concat (map (\<lambda>x. x @ nl) xs)"] by (simp add: nl_def)
  with Cons show ?case by simp
qed simp

text \<open>The programs of a generation write nothing below the root directory but their logs; the names
  \<open>find\<close> reports there do not depend on logs and order files.\<close>

definition same_but :: "string list \<Rightarrow> string \<Rightarrow> fs \<Rightarrow> fs \<Rightarrow> bool" where
  "same_but es base fs fs' =
     (\<forall>q. has_prefix (base @ ''/'') q \<and> (\<forall>e \<in> set es. \<not> ends e q) \<longrightarrow> fs' q = fs q)"

definition works_behave :: "dg_env \<Rightarrow> string \<Rightarrow> bool" where
  "works_behave env base = (\<forall>work fs. same_but [''.log''] base fs (snd (dg_run env work fs)))"

definition find_behaves :: "dg_env \<Rightarrow> string \<Rightarrow> bool" where
  "find_behaves env base =
     (\<forall>d fs fs'. has_prefix (base @ ''/'') d \<and> same_but [''.log'', ''-order''] base fs fs' \<longrightarrow>
        dg_find env d fs' = dg_find env d fs \<and> dg_works env d fs' = dg_works env d fs)"

lemma same_but_refl [simp]: "same_but es base fs fs"
  by (simp add: same_but_def)

lemma same_but_trans: "\<lbrakk>same_but es base a b; same_but es base b c\<rbrakk> \<Longrightarrow> same_but es base a c"
  by (simp add: same_but_def)

lemma same_but_mono: "same_but es base a b \<Longrightarrow> set es \<subseteq> set es' \<Longrightarrow> same_but es' base a b"
  by (auto simp: same_but_def)

lemma same_but_upd: "e \<in> set es \<Longrightarrow> ends e p \<Longrightarrow> same_but es base fs (fs(p := v))"
  by (auto simp: same_but_def)

lemma same_but_append_log: "same_but [''.log''] base fs (append_log (p @ ''.log'') s fs)"
  by (auto simp: append_log_def same_but_upd split: option.splits fnode.splits)

lemma same_butD:
  "same_but es base fs fs' \<Longrightarrow> has_prefix (base @ ''/'') q \<Longrightarrow> \<forall>e \<in> set es. \<not> ends e q \<Longrightarrow> fs' q = fs q"
  by (simp add: same_but_def)

lemma prefix_base [simp]: "has_prefix (base @ ''/'') (base @ CHR ''/'' # q)"
  by (auto simp: has_prefix_iff)

section \<open>Programs of a node, programs of an action\<close>

lemma run_works_frame:
  assumes "works_behave env base" "run_works env ws st = (rc, st')"
  shows "same_but [''.log''] base (dg_fs st) (dg_fs st')"
  using assms(2)
proof (induction ws arbitrary: st)
  case (Cons w ws)
  obtain code fs where r: "dg_run env w (dg_fs st) = (code, fs)" by force
  then have "same_but [''.log''] base (dg_fs st) fs"
    using assms(1) by (metis works_behave_def snd_conv)
  then have *: "same_but [''.log''] base (dg_fs st)
      (append_log (w @ ''.log'') (''[exit:'' @ dec_int code @ '']'' @ nl) fs)"
    by (rule same_but_trans [OF _ same_but_append_log])
  show ?case
  proof (cases "code = 0")
    case True
    with Cons.prems r have "run_works env ws (st\<lparr>dg_fs := append_log (w @ ''.log'')
        (''[exit:'' @ dec_int code @ '']'' @ nl) fs, dg_trace := dg_trace st @ [w]\<rparr>) = (rc, st')"
      by (simp add: Let_def)
    from Cons.IH [OF this] have "same_but [''.log''] base
        (append_log (w @ ''.log'') (''[exit:'' @ dec_int code @ '']'' @ nl) fs) (dg_fs st')" by simp
    from same_but_trans [OF * this] show ?thesis .
  qed (use Cons.prems r * in \<open>auto simp: Let_def\<close>)
qed simp

lemma run_works_trace: "run_works env ws st = (0, st') \<Longrightarrow> dg_trace st' = dg_trace st @ ws"
proof (induction ws arbitrary: st)
  case (Cons w ws)
  obtain code fs where r: "dg_run env w (dg_fs st) = (code, fs)" by force
  with Cons.prems have "code = 0" by (auto simp: Let_def split: if_splits)
  with Cons.prems r Cons.IH show ?case by (fastforce simp: Let_def)
qed simp

lemma run_nodes_frame:
  assumes "works_behave env base" "run_nodes env actdir nodes st = (rc, st')"
  shows "same_but [''.log''] base (dg_fs st) (dg_fs st')"
  using assms(2)
proof (induction nodes arbitrary: st)
  case (Cons n ns)
  obtain c st1 where r: "run_works env (dg_works env (actdir @ ''/'' @ n) (dg_fs st)) st = (c, st1)" by force
  note f = run_works_frame [OF assms(1) r]
  show ?case
  proof (cases "c = 0")
    case True
    with Cons.prems r have "run_nodes env actdir ns st1 = (rc, st')" by simp
    from same_but_trans [OF f Cons.IH [OF this]] show ?thesis .
  qed (use Cons.prems r f in auto)
qed simp

lemma run_nodes_trace:
  assumes "works_behave env base" "find_behaves env base" "has_prefix (base @ ''/'') actdir"
    and "run_nodes env actdir nodes st = (0, st')"
  shows "dg_trace st' = dg_trace st @ concat (map (\<lambda>n. dg_works env (actdir @ ''/'' @ n) (dg_fs st)) nodes)"
  using assms(4)
proof (induction nodes arbitrary: st)
  case (Cons n ns)
  obtain c st1 where r: "run_works env (dg_works env (actdir @ ''/'' @ n) (dg_fs st)) st = (c, st1)" by force
  with Cons.prems have c: "c = 0" "run_nodes env actdir ns st1 = (0, st')" by (auto split: if_splits)
  have "same_but [''.log'', ''-order''] base (dg_fs st) (dg_fs st1)"
    using run_works_frame [OF assms(1) r] by (rule same_but_mono) simp
  moreover have "has_prefix (base @ ''/'') (actdir @ ''/'' @ m)" for m
    using assms(3) by (auto simp: has_prefix_iff)
  ultimately have "dg_works env (actdir @ ''/'' @ m) (dg_fs st1) = dg_works env (actdir @ ''/'' @ m) (dg_fs st)" for m
    using assms(2) unfolding find_behaves_def by blast
  then show ?case using Cons.IH [OF c(2)] run_works_trace r c(1) by simp
qed simp

section \<open>The order of the nodes\<close>

abbreviation as_lines :: "string list \<Rightarrow> string" where
  "as_lines xs \<equiv> concat (map (\<lambda>x. x @ nl) xs)"

lemma redirect_frame:
  "redirect p s st = (rc, st') \<Longrightarrow> e \<in> set es \<Longrightarrow> ends e p \<Longrightarrow>
     same_but es base (dg_fs st) (dg_fs st') \<and> dg_trace st' = dg_trace st"
  by (auto simp: redirect_def same_but_upd split: option.splits fnode.splits)

lemma redirect_ok: "redirect p s st = (0, st') \<Longrightarrow> \<exists>x. dg_fs st' = (dg_fs st)(p \<mapsto> FFile s x)"
  by (auto simp: redirect_def split: option.splits fnode.splits)

lemma generate_order_frame:
  assumes "generate_order env gen st = (rc, st')"
  shows "same_but [''-order''] base (dg_fs st) (dg_fs st') \<and> dg_trace st' = dg_trace st"
proof -
  let ?ns = "first_seen [] (dg_find env (gen @ ''/dag'') (dg_fs st))"
  have e: "ends ''-order'' (gen @ ''/bottom-up-order'')" "ends ''-order'' (gen @ ''/top-down-order'')"
    unfolding order_names by (rule ends_append)+
  obtain c st1 where r: "redirect (gen @ ''/bottom-up-order'') (as_lines ?ns) st = (c, st1)" by force
  note f = redirect_frame [OF r _ e(1), of "[''-order'']" base]
  show ?thesis
  proof (cases "(is_file (dg_fs st) (gen @ ''/bottom-up-order'') \<and> is_file (dg_fs st) (gen @ ''/top-down-order'')) \<or> c \<noteq> 0")
    case True
    with assms r f show ?thesis by (auto simp: generate_order_def Let_def split: if_splits)
  next
    case False
    with assms r have "redirect (gen @ ''/top-down-order'') (as_lines (rev ?ns)) st1 = (rc, st')"
      by (auto simp: generate_order_def Let_def)
    from redirect_frame [OF this _ e(2), of "[''-order'']" base] f show ?thesis
      by (auto intro: same_but_trans)
  qed
qed

text \<open>C15. The order the script makes of a generation: where \<open>find\<close> lists every node after the nodes below
  it, however often a node comes, the file \<open>bottom-up-order\<close> has every node once and after all it depends
  on, and \<open>top-down-order\<close> is its reverse.\<close>

theorem order_files:
  assumes "generate_order env gen st = (0, st')" "dg_fs st (gen @ ''/bottom-up-order'') = None"
    and "post_ordered D [] (dg_find env (gen @ ''/dag'') (dg_fs st))"
  shows "\<exists>ns x y. deps_first D [] ns \<and> set ns = set (dg_find env (gen @ ''/dag'') (dg_fs st)) \<and>
    dg_fs st' (gen @ ''/bottom-up-order'') = Some (FFile (as_lines ns) x) \<and>
    dg_fs st' (gen @ ''/top-down-order'') = Some (FFile (as_lines (rev ns)) y)"
proof -
  let ?ns = "first_seen [] (dg_find env (gen @ ''/dag'') (dg_fs st))"
  obtain c st1 where r: "redirect (gen @ ''/bottom-up-order'') (as_lines ?ns) st = (c, st1)" by force
  with assms(1,2) have c: "c = 0" and t: "redirect (gen @ ''/top-down-order'') (as_lines (rev ?ns)) st1 = (0, st')"
    by (auto simp: generate_order_def is_file_def Let_def split: if_splits)
  from redirect_ok [OF r [unfolded c]] redirect_ok [OF t]
  have "\<exists>x y. dg_fs st' (gen @ ''/bottom-up-order'') = Some (FFile (as_lines ?ns) x) \<and>
      dg_fs st' (gen @ ''/top-down-order'') = Some (FFile (as_lines (rev ?ns)) y)" by auto
  with first_seen_deps_first [OF assms(3)] set_first_seen [of "[]"] show ?thesis by (metis Diff_empty list.set(1))
qed

section \<open>An action\<close>

lemma not_ends_paths [simp]:
  "\<not> ends ''.log'' (p @ ''/order'')" "\<not> ends ''-order'' (p @ ''/order'')"
  "\<not> ends ''.log'' (p @ ''/@pre'')" "\<not> ends ''-order'' (p @ ''/@pre'')"
  "\<not> ends ''.log'' (p @ ''/@post'')" "\<not> ends ''-order'' (p @ ''/@post'')"
  by (auto simp: ends_def dest: arg_cong [of _ _ rev])

definition with_hooks :: "fs \<Rightarrow> string \<Rightarrow> string list \<Rightarrow> string list" where
  "with_hooks fs actdir ns =
     (if is_dir fs (actdir @ ''/@pre'') then [''@pre''] else []) @ ns @
     (if is_dir fs (actdir @ ''/@post'') then [''@post''] else [])"

lemma action_order_link:
  assumes "fs (gen @ ''/action/'' @ action @ ''/order'') = Some (FLink (''../../'' @ t))"
    and "CHR ''/'' \<notin> set t" "CHR ''/'' \<notin> set action" "\<not> has_prefix ''../'' t"
    and "fs (gen @ ''/'' @ t) = Some (FFile (as_lines ns) x)" "\<forall>n \<in> set ns. word n"
  shows "action_order fs gen (gen @ ''/action/'' @ action) = with_hooks fs (gen @ ''/action/'' @ action) ns"
proof -
  have "follow fs (gen @ ''/action/'' @ action @ ''/order'') = gen @ ''/'' @ t"
    using assms(1-4) by (intro follow_order)
  moreover have "is_file fs (gen @ ''/'' @ t)" "cat_file fs (gen @ ''/'' @ t) = as_lines ns"
    using assms(5) by (simp_all add: is_file_def cat_file_def)
  ultimately show ?thesis
    using words_of_lines [OF assms(6)] by (simp add: action_order_def with_hooks_def Let_def)
qed

text \<open>What an action runs, given the order it finds once the order files are there.\<close>

lemma action_exec_trace:
  assumes "works_behave env base" "find_behaves env base"
    and "action_exec env action (base @ ''/'' @ g) st = (0, st')"
    and "generate_order env (base @ ''/'' @ g) st = (0, st1)"
  shows "same_but [''.log''] base (dg_fs st1) (dg_fs st')"
    and "dg_trace st' = dg_trace st @
      concat (map (\<lambda>n. dg_works env (base @ ''/'' @ g @ ''/action/'' @ action @ ''/'' @ n) (dg_fs st))
        (action_order (dg_fs st1) (base @ ''/'' @ g) (base @ ''/'' @ g @ ''/action/'' @ action)))"
proof -
  let ?a = "base @ ''/'' @ g @ ''/action/'' @ action"
  have r: "run_nodes env ?a (action_order (dg_fs st1) (base @ ''/'' @ g) ?a) st1 = (0, st')"
    using assms(3,4) by (simp add: action_exec_def Let_def)
  show "same_but [''.log''] base (dg_fs st1) (dg_fs st')"
    by (rule run_nodes_frame [OF assms(1) r])
  note f = generate_order_frame [OF assms(4), of base]
  have "dg_works env (?a @ ''/'' @ n) (dg_fs st1) = dg_works env (?a @ ''/'' @ n) (dg_fs st)" for n
    using assms(2) same_but_mono [OF conjunct1 [OF f], of "[''.log'', ''-order'']"] unfolding find_behaves_def by auto
  with run_nodes_trace [OF assms(1,2) _ r] f
  show "dg_trace st' = dg_trace st @ concat (map (\<lambda>n. dg_works env (base @ ''/'' @ g @ ''/action/'' @ action @ ''/'' @ n) (dg_fs st))
        (action_order (dg_fs st1) (base @ ''/'' @ g) ?a))"
    by simp
qed

lemma action_exec_generates:
  "action_exec env action gen st = (0, st') \<Longrightarrow> \<exists>st1. generate_order env gen st = (0, st1)"
  by (auto simp: action_exec_def Let_def split: prod.splits if_splits)

lemma action_exec_frame:
  assumes "works_behave env base" "action_exec env action gen st = (rc, st')"
  shows "same_but [''.log'', ''-order''] base (dg_fs st) (dg_fs st')"
proof -
  obtain c st1 where g: "generate_order env gen st = (c, st1)" by force
  have f: "same_but [''.log'', ''-order''] base (dg_fs st) (dg_fs st1)"
    using generate_order_frame [OF g, of base] same_but_mono by fastforce
  show ?thesis
  proof (cases "c = 0")
    case True
    with assms(2) g have "run_nodes env (gen @ ''/action/'' @ action)
        (action_order (dg_fs st1) gen (gen @ ''/action/'' @ action)) st1 = (rc, st')"
      by (simp add: action_exec_def Let_def)
    from same_but_mono [OF run_nodes_frame [OF assms(1) this], of "[''.log'', ''-order'']"] f
    show ?thesis by (auto intro: same_but_trans)
  qed (use assms(2) g f in \<open>auto simp: action_exec_def Let_def\<close>)
qed

section \<open>Evolving\<close>

lemma do_evolve_stages:
  assumes "do_evolve env base st = (0, st')"
  shows "\<exists>st1 st2 m. (if cat_gen (dg_fs st) (base @ ''/current'') \<noteq> []
      then action_exec env ''exit'' (base @ ''/'' @ cat_gen (dg_fs st) (base @ ''/current'')) st = (0, st1) else st1 = st) \<and>
    action_exec env ''init'' (base @ ''/'' @ cat_gen (dg_fs st) (base @ ''/next'')) st1 = (0, st2) \<and>
    dg_fs st2 (base @ ''/next'') = Some m \<and>
    st' = st2\<lparr>dg_fs := ((dg_fs st2)(base @ ''/current'' \<mapsto> m))(base @ ''/next'' := None)\<rparr>"
  using assms unfolding do_evolve_def Let_def
  by (auto split: if_splits prod.splits option.splits)

lemma evolve_moves_next:
  assumes "works_behave env base" "do_evolve env base st = (0, st')"
  shows "dg_fs st' (base @ ''/current'') = dg_fs st (base @ ''/next'') \<and> dg_fs st' (base @ ''/next'') = None"
proof -
  obtain st1 st2 m where
    e: "if cat_gen (dg_fs st) (base @ ''/current'') \<noteq> []
      then action_exec env ''exit'' (base @ ''/'' @ cat_gen (dg_fs st) (base @ ''/current'')) st = (0, st1) else st1 = st"
    and i: "action_exec env ''init'' (base @ ''/'' @ cat_gen (dg_fs st) (base @ ''/next'')) st1 = (0, st2)"
    and m: "dg_fs st2 (base @ ''/next'') = Some m"
      "st' = st2\<lparr>dg_fs := ((dg_fs st2)(base @ ''/current'' \<mapsto> m))(base @ ''/next'' := None)\<rparr>"
    using do_evolve_stages [OF assms(2)] by blast
  have "same_but [''.log'', ''-order''] base (dg_fs st) (dg_fs st1)"
    using e action_exec_frame [OF assms(1)] by (auto split: if_splits)
  from same_but_trans [OF this action_exec_frame [OF assms(1) i]]
  have "dg_fs st2 (base @ ''/next'') = dg_fs st (base @ ''/next'')"
    by (rule same_butD) auto
  with m show ?thesis by simp
qed

text \<open>The two halves: the current generation's \<open>exit\<close> action, whose order files are there, and the next
  generation's \<open>init\<close> action, whose order is made on the way.\<close>

lemma exit_phase:
  assumes env: "works_behave env base" "find_behaves env base"
    and e: "action_exec env ''exit'' (base @ ''/'' @ c) st = (0, st')"
    and up: "dg_fs st (base @ ''/'' @ c @ ''/bottom-up-order'') = Some (FFile (as_lines os) x)"
    and down: "dg_fs st (base @ ''/'' @ c @ ''/top-down-order'') = Some (FFile (as_lines (rev os)) y)"
    and exit: "dg_fs st (base @ ''/'' @ c @ ''/action/exit/order'') = Some (FLink ''../../top-down-order'')"
    and names: "\<forall>v \<in> set os. word v"
  shows "same_but [''.log''] base (dg_fs st) (dg_fs st')"
    and "dg_trace st' = dg_trace st @
      concat (map (\<lambda>v. dg_works env (base @ ''/'' @ c @ ''/action/exit/'' @ v) (dg_fs st))
        (with_hooks (dg_fs st) (base @ ''/'' @ c @ ''/action/exit'') (rev os)))"
proof -
  have "generate_order env (base @ ''/'' @ c) st = (0, st)"
    using up down by (simp add: generate_order_def is_file_def)
  note x = action_exec_trace [OF env e this]
  show "same_but [''.log''] base (dg_fs st) (dg_fs st')" by (rule x(1))
  have "action_order (dg_fs st) (base @ ''/'' @ c) (base @ ''/'' @ c @ ''/action/exit'') =
      with_hooks (dg_fs st) (base @ ''/'' @ c @ ''/action/exit'') (rev os)"
    using action_order_link [of "dg_fs st" "base @ ''/'' @ c" "''exit''" "''top-down-order''" "rev os" y] exit down names
    by simp
  with x(2) show "dg_trace st' = dg_trace st @
      concat (map (\<lambda>v. dg_works env (base @ ''/'' @ c @ ''/action/exit/'' @ v) (dg_fs st))
        (with_hooks (dg_fs st) (base @ ''/'' @ c @ ''/action/exit'') (rev os)))" by simp
qed

lemma with_hooks_same:
  assumes "same_but [''.log'', ''-order''] base fs fs'"
  shows "with_hooks fs' (base @ CHR ''/'' # a) ns = with_hooks fs (base @ CHR ''/'' # a) ns"
  using same_butD [OF assms, of "(base @ CHR ''/'' # a) @ ''/@pre''"]
    same_butD [OF assms, of "(base @ CHR ''/'' # a) @ ''/@post''"]
    not_ends_paths(3-6) [of "base @ CHR ''/'' # a"]
  by (simp add: with_hooks_def is_dir_def)

lemma init_phase:
  assumes env: "works_behave env base" "find_behaves env base"
    and i: "action_exec env ''init'' (base @ ''/'' @ n) st = (0, st')"
    and init: "dg_fs st (base @ ''/'' @ n @ ''/action/init/order'') = Some (FLink ''../../bottom-up-order'')"
    and new: "dg_fs st (base @ ''/'' @ n @ ''/bottom-up-order'') = None"
    and dag: "post_ordered D [] (dg_find env (base @ ''/'' @ n @ ''/dag'') (dg_fs st))"
    and names: "\<forall>v \<in> set (dg_find env (base @ ''/'' @ n @ ''/dag'') (dg_fs st)). word v"
  shows "\<exists>ns. deps_first D [] ns \<and> set ns = set (dg_find env (base @ ''/'' @ n @ ''/dag'') (dg_fs st)) \<and>
    dg_trace st' = dg_trace st @
      concat (map (\<lambda>v. dg_works env (base @ ''/'' @ n @ ''/action/init/'' @ v) (dg_fs st))
        (with_hooks (dg_fs st) (base @ ''/'' @ n @ ''/action/init'') ns))"
proof -
  let ?g = "base @ ''/'' @ n"
  obtain st3 where g: "generate_order env ?g st = (0, st3)"
    using action_exec_generates [OF i] by blast
  obtain ns v where ns: "deps_first D [] ns" "set ns = set (dg_find env (?g @ ''/dag'') (dg_fs st))"
    and ord: "dg_fs st3 (?g @ ''/bottom-up-order'') = Some (FFile (as_lines ns) v)"
    using order_files [OF g, of D] new dag by auto
  have s3: "same_but [''.log'', ''-order''] base (dg_fs st) (dg_fs st3)"
    using generate_order_frame [OF g, of base] same_but_mono by fastforce
  have l3: "dg_fs st3 (?g @ ''/action/'' @ ''init'' @ ''/order'') = Some (FLink (''../../'' @ ''bottom-up-order''))"
    using same_butD [OF s3, of "base @ ''/'' @ n @ ''/action/init/order''"] init
      not_ends_paths(1,2) [of "base @ ''/'' @ n @ ''/action/init''"] by simp
  have "action_order (dg_fs st3) ?g (?g @ ''/action/'' @ ''init'') = with_hooks (dg_fs st3) (?g @ ''/action/'' @ ''init'') ns"
    using action_order_link [of "dg_fs st3" ?g "''init''" "''bottom-up-order''" ns v] l3 names ns(2) ord by simp
  also have "\<dots> = with_hooks (dg_fs st) (?g @ ''/action/'' @ ''init'') ns"
    using with_hooks_same [OF s3, of "n @ ''/action/init''"] by simp
  finally show ?thesis
    using action_exec_trace(2) [OF env i g] ns by auto
qed


section \<open>What \<open>dagger.c\<close> relies on\<close>

text \<open>A shell that runs the script for the two commands \<open>dagger.c\<close> gives it.\<close>

definition runs_script :: "os \<Rightarrow> dg_env \<Rightarrow> string \<Rightarrow> bool" where
  "runs_script os env path =
     (\<forall>fs cmd. cmd \<in> {''evolve'', ''abandon''} \<longrightarrow>
        (case dagger_main env [''-C'', path, cmd] \<lparr>dg_fs = fs, dg_trace = []\<rparr> of
           (rc, st) \<Rightarrow> \<exists>e. os_sh os (''dagger -C '' @ path @ '' '' @ cmd) fs = (rc, e, dg_fs st)))"

lemma dagger_main_commands:
  "dagger_main env [''-C'', path, ''evolve''] st = do_evolve env path st"
  "dagger_main env [''-C'', path, ''abandon''] st = do_abandon env path st"
  by (simp_all add: dagger_main_def)

lemma runs_evolve:
  assumes "runs_script os env path" "os_sh os (''dagger -C '' @ path @ '' evolve'') fs = (rc, e, fs')"
  shows "\<exists>st. do_evolve env path \<lparr>dg_fs = fs, dg_trace = []\<rparr> = (rc, st) \<and> dg_fs st = fs'"
  using assms(1) [unfolded runs_script_def, rule_format, of "''evolve''" fs] assms(2)
  by (auto simp: dagger_main_commands split: prod.splits)

lemma runs_abandon:
  assumes "runs_script os env path" "os_sh os (''dagger -C '' @ path @ '' abandon'') fs = (rc, e, fs')"
  shows "\<exists>st. do_abandon env path \<lparr>dg_fs = fs, dg_trace = []\<rparr> = (rc, st) \<and> dg_fs st = fs'"
  using assms(1) [unfolded runs_script_def, rule_format, of "''abandon''" fs] assms(2)
  by (auto simp: dagger_main_commands split: prod.splits)

lemma script_promotes:
  assumes "runs_script os env path" "works_behave env path"
  shows "evolve_promotes os path"
  unfolding evolve_promotes_def
proof (intro allI impI)
  fix fs e fs'
  assume "os_sh os (''dagger -C '' @ path @ '' evolve'') fs = (0, e, fs')"
  from runs_evolve [OF assms(1) this] obtain st where
    "do_evolve env path \<lparr>dg_fs = fs, dg_trace = []\<rparr> = (0, st)" "dg_fs st = fs'" by blast
  with evolve_moves_next [OF assms(2)] show
    "fs' (path @ ''/current'') = fs (path @ ''/next'') \<and> fs' (path @ ''/next'') = None" by fastforce
qed

lemma chomp_nl_dec: "0 \<le> i \<Longrightarrow> chomp_nl (dec_int i @ nl) = dec_int i"
proof -
  assume "0 \<le> i"
  then have d: "dec_int i = dec_nat (nat i)" by (simp add: dec_int_def)
  have "last (dec_nat (nat i)) \<noteq> CHR 0x0A"
    using dec_nat_digits [OF last_in_set, of "nat i"] by (auto simp: digit_char_eq_iff)
  then have "dropWhile (\<lambda>c. c = CHR 0x0A) (rev (dec_nat (nat i))) = rev (dec_nat (nat i))"
    by (cases "dec_nat (nat i)" rule: rev_cases) auto
  then show ?thesis by (simp add: chomp_nl_def nl_def d)
qed

text \<open>A file of one generation, or of the root directory, is not below another generation, nor below the name an
  abandoned one gets.\<close>

lemma number_prefix:
  assumes "dec_nat m @ s = dec_nat n @ t" "s \<noteq> [] \<Longrightarrow> hd s \<in> {CHR ''/'', CHR ''-''}"
    "t \<noteq> [] \<Longrightarrow> hd t \<in> {CHR ''/'', CHR ''-''}"
  shows "m = n"
proof -
  let ?P = "\<lambda>c. c \<noteq> CHR ''/'' \<and> c \<noteq> CHR ''-''"
  have *: "takeWhile ?P (dec_nat k @ u) = dec_nat k" if "u \<noteq> [] \<Longrightarrow> hd u \<in> {CHR ''/'', CHR ''-''}" for k u
  proof -
    have "\<forall>c \<in> set (dec_nat k). ?P c" by (metis dec_nat_no_slash dec_nat_no_minus)
    with that show ?thesis by (cases u) (auto simp: takeWhile_append2)
  qed
  from arg_cong [OF assms(1), of "takeWhile ?P"] * [of s m] * [of t n] assms(2,3) show ?thesis
    by (simp add: dec_nat_inj)
qed

lemma hd_dec_nat: "hd (dec_nat n) \<noteq> CHR ''c''"
  using dec_nat_digits [OF hd_in_set, of n] by (auto simp: digit_char_eq_iff)

lemma below_prefix: "below d q = Some t \<Longrightarrow> q = d @ t \<and> (t = [] \<or> hd t = CHR ''/'')"
  by (auto simp: below_def has_prefix_iff split: if_splits)

lemma not_below_number:
  assumes "m \<noteq> n" "t = [] \<or> hd t \<in> {CHR ''/'', CHR ''-''}"
  shows "below (path @ ''/'' @ dec_nat n @ t) (path @ ''/'' @ dec_nat m @ CHR ''/'' # s) = None"
proof (rule ccontr)
  assume "below (path @ ''/'' @ dec_nat n @ t) (path @ ''/'' @ dec_nat m @ CHR ''/'' # s) \<noteq> None"
  then obtain u where "dec_nat m @ CHR ''/'' # s = dec_nat n @ t @ u" "u = [] \<or> hd u = CHR ''/''"
    by (auto dest!: below_prefix)
  with assms show False
    using number_prefix [of m "CHR ''/'' # s" n "t @ u"] by (cases t) auto
qed

lemma not_below_current: "below (path @ ''/'' @ dec_nat n @ t) (path @ ''/current'') = None"
proof (rule ccontr)
  assume "below (path @ ''/'' @ dec_nat n @ t) (path @ ''/current'') \<noteq> None"
  then obtain u where "''current'' = dec_nat n @ t @ u" by (auto dest!: below_prefix)
  then have "hd (dec_nat n) = CHR ''c''" by (metis dec_nat_nonempty hd_append list.sel(1))
  with hd_dec_nat show False by blast
qed

lemma do_abandon_fs:
  assumes "do_abandon env base st = (rc, st')"
  shows "\<exists>t. hd t = CHR ''-'' \<and> (dg_fs st' = dg_fs st \<or>
    dg_fs st' = (mv_tree (base @ ''/'' @ cat_gen (dg_fs st) (base @ ''/next''))
      (base @ ''/'' @ cat_gen (dg_fs st) (base @ ''/next'') @ t) (dg_fs st))(base @ ''/next'' := None))"
proof -
  let ?n = "cat_gen (dg_fs st) (base @ ''/next'')"
  let ?t = "''-ABANDONED-'' @ dg_date env"
  show ?thesis
  proof (cases "is_dir (dg_fs st) (base @ ''/'' @ ?n @ ?t)")
    case True
    then show ?thesis
      using assms by (intro exI [of _ "?t @ ''/'' @ ?n"]) (auto simp: do_abandon_def Let_def split: if_splits)
  next
    case False
    then show ?thesis
      using assms by (intro exI [of _ ?t]) (auto simp: do_abandon_def Let_def split: if_splits)
  qed
qed

lemma script_abandon_keeps:
  assumes "runs_script os env path" "0 \<le> c"
  shows "abandon_keeps os path c"
proof -
  let ?n = "nat (c + 1)" and ?m = "nat c"
  have dec: "dec_int (c + 1) = dec_nat ?n" "dec_int c = dec_nat ?m" using assms(2) by (simp_all add: dec_int_def)
  have "fs' (order_link path c) = fs (order_link path c) \<and> fs' (path @ ''/current'') = fs (path @ ''/current'')"
    if "fs (path @ ''/next'') = Some (FFile (dec_int (c + 1) @ nl) x)"
      and run: "os_sh os (''dagger -C '' @ path @ '' abandon'') fs = (rc, e, fs')" for fs x rc e fs'
  proof -
    from runs_abandon [OF assms(1) run] obtain st where
      st: "do_abandon env path \<lparr>dg_fs = fs, dg_trace = []\<rparr> = (rc, st)" "dg_fs st = fs'" by blast
    have "cat_gen fs (path @ ''/next'') = dec_nat ?n"
      using that(1) chomp_nl_dec [of "c + 1"] assms(2) dec by (simp add: cat_gen_def is_file_def cat_file_def)
    with do_abandon_fs [OF st(1)] st(2) obtain t where t: "hd t = CHR ''-''"
      and fs': "fs' = fs \<or> fs' = (mv_tree (path @ ''/'' @ dec_nat ?n) (path @ ''/'' @ dec_nat ?n @ t) fs)(path @ ''/next'' := None)"
      by auto
    have "?m \<noteq> ?n" using assms(2) by simp
    from not_below_number [OF this, of "[]" path "''action/exit/order''"]
      not_below_number [OF this, of t path "''action/exit/order''"] t
    have "below (path @ ''/'' @ dec_nat ?n) (order_link path c) = None"
      "below (path @ ''/'' @ dec_nat ?n @ t) (order_link path c) = None"
      by (auto simp: order_link_def dec)
    moreover have "below (path @ ''/'' @ dec_nat ?n) (path @ ''/current'') = None"
      "below (path @ ''/'' @ dec_nat ?n @ t) (path @ ''/current'') = None"
      using not_below_current [of path ?n "[]"] not_below_current [of path ?n t] by simp_all
    moreover have "order_link path c \<noteq> path @ ''/next''" by (auto simp: order_link_def)
    ultimately show ?thesis using fs' by (auto simp: mv_tree_def)
  qed
  then show ?thesis unfolding abandon_keeps_def by (auto split: prod.splits)
qed

end
