(* ===== verification/DaggerProps.thy ===== *)
theory DaggerProps
  imports DaggerRuns
begin

text \<open>
  The transactions of \<open>dagger.c\<close> together with the script that carries them out: the promises the theorems of
  \<open>Dagger\<close> assume of \<open>dagger evolve\<close> and \<open>dagger abandon\<close> hold of the model of the script, so that only
  \<open>mkdir\<close>, \<open>ln\<close> and the generated programs are left as hypotheses.
\<close>

section \<open>A concrete system\<close>

text \<open>A bridge above one port, each with one program, and a shell that runs the script.\<close>

definition demo_dg :: dg_env where
  "demo_dg = \<lparr>dg_find = (\<lambda>d fs. if d = ''/r/1/dag'' then [''eth0'', ''br0'', ''eth0''] else []),
     dg_works = (\<lambda>d fs. [d @ ''/10-ip'']), dg_run = (\<lambda>work fs. (0, fs)), dg_date = ''D'', dg_pwd = ''/''\<rparr>"

definition demo_above :: "string \<Rightarrow> string list" where
  "demo_above x = (if x = ''br0'' then [''eth0''] else [])"

definition demo_script_sh :: "string \<Rightarrow> fs \<Rightarrow> int \<times> int \<times> fs" where
  "demo_script_sh cmd fs =
     (if cmd = init_cmd ''/r'' 0 then (0, 0, fs(''/r/0'' := (case fs ''/r/0'' of None \<Rightarrow> Some FDir | n \<Rightarrow> n)))
      else if cmd = exit_cmd ''/r'' 0 then
        (case fs (order_link ''/r'' 0) of
           None \<Rightarrow> (0, 0, fs(order_link ''/r'' 0 \<mapsto> FLink ''../../top-down-order''))
         | Some n \<Rightarrow> (1, 0, fs))
      else if cmd = ''dagger -C /r evolve'' then
        (case dagger_main demo_dg [''-C'', ''/r'', ''evolve''] \<lparr>dg_fs = fs, dg_trace = []\<rparr> of
           (rc, st) \<Rightarrow> (rc, 0, dg_fs st))
      else if cmd = ''dagger -C /r abandon'' then
        (case dagger_main demo_dg [''-C'', ''/r'', ''abandon''] \<lparr>dg_fs = fs, dg_trace = []\<rparr> of
           (rc, st) \<Rightarrow> (rc, 0, dg_fs st))
      else (0, 0, fs))"

definition demo_script_os :: os where
  "demo_script_os = demo_os\<lparr>os_sh := demo_script_sh\<rparr>"

definition claim_a :: "int \<times> dagger \<times> world" where
  "claim_a = dagger_claim demo_script_os ''/r'' demo_world"

definition evolve_a :: "int \<times> dagger \<times> world" where
  "evolve_a = the (dagger_evolve demo_script_os (fst (snd claim_a)) (snd (snd claim_a)))"

definition claim_b :: "int \<times> dagger \<times> world" where
  "claim_b = dagger_claim demo_script_os ''/r'' (snd (snd evolve_a))"

definition abandon_b :: "int \<times> dagger \<times> world" where
  "abandon_b = the (dagger_abandon demo_script_os (fst (snd claim_b)) (snd (snd claim_b)))"

definition claim_c :: "int \<times> dagger \<times> world" where
  "claim_c = dagger_claim demo_script_os ''/r'' (snd (snd abandon_b))"

lemma demo_works: "works_behave demo_dg ''/r''"
  by (simp add: works_behave_def demo_dg_def)

lemma demo_find: "find_behaves demo_dg ''/r''"
  by (simp add: find_behaves_def demo_dg_def)

lemma demo_sh_cases:
  "os_sh demo_script_os (''dagger -C '' @ ''/r'' @ '' evolve'') fs =
     (case dagger_main demo_dg [''-C'', ''/r'', ''evolve''] \<lparr>dg_fs = fs, dg_trace = []\<rparr> of (rc, st) \<Rightarrow> (rc, 0, dg_fs st))"
  "os_sh demo_script_os (''dagger -C '' @ ''/r'' @ '' abandon'') fs =
     (case dagger_main demo_dg [''-C'', ''/r'', ''abandon''] \<lparr>dg_fs = fs, dg_trace = []\<rparr> of (rc, st) \<Rightarrow> (rc, 0, dg_fs st))"
  by (simp_all add: demo_script_os_def demo_script_sh_def init_cmd_def exit_cmd_def del: case_prod_conv)

lemma demo_runs_script: "runs_script demo_script_os demo_dg ''/r''"
  unfolding runs_script_def using demo_sh_cases by (auto split: prod.splits)

lemma demo_script_adds: "claim_adds_only demo_script_os ''/r''"
  by (auto simp: claim_adds_only_def adds_only_def demo_script_os_def demo_script_sh_def exit_cmd_def init_cmd_def
      split: option.splits)

lemma demo_script_steps:
  "dagger_claim demo_script_os ''/r'' demo_world = (0, fst (snd claim_a), snd (snd claim_a))"
  "dagger_evolve demo_script_os (fst (snd claim_a)) (snd (snd claim_a)) = Some (0, fst (snd evolve_a), snd (snd evolve_a))"
  "dagger_claim demo_script_os ''/r'' (snd (snd evolve_a)) = (0, fst (snd claim_b), snd (snd claim_b))"
  "dagger_abandon demo_script_os (fst (snd claim_b)) (snd (snd claim_b))
     = Some (fst abandon_b, fst (snd abandon_b), snd (snd abandon_b))"
  "dagger_claim demo_script_os ''/r'' (snd (snd abandon_b)) = (fst claim_c, fst (snd claim_c), snd (snd claim_c))"
  unfolding claim_a_def [symmetric] claim_b_def [symmetric] claim_c_def [symmetric]
    apply (rule pair3, code_simp)
   apply (unfold evolve_a_def, rule some3, code_simp, code_simp) [1]
  apply (rule pair3, code_simp)
  apply (unfold abandon_b_def, rule some3, code_simp, rule refl) [1]
  apply (rule pair3, rule refl)
  done

section \<open>Properties\<close>

text \<open>C10. Generations count up by one across transactions, through the script: after a claim whose \<open>next\<close> file
  is still empty, a successful evolve, for which the shell runs \<open>sbin/dagger\<close>, and another successful claim,
  the new transaction has the old one's \<open>next\<close> as its \<open>current\<close>, read back from the file the old one printed
  it to.\<close>

theorem generations_count_up:
  assumes "dagger_claim os path w0 = (0, d, w1)" "length path < PATH_MAX"
    and "w_fs w2 (path @ ''/next'') = Some (FFile [] x)"
    and "dagger_evolve os d w2 = Some (0, d', w3)"
    and "runs_script os env path" "works_behave env path"
    and "adds_only os (''mkdir -p '' @ path)"
    and "\<forall>fs. os_open os (path @ ''/current'') ''r'' fs = 0"
    and "d_next d \<le> INT_MAX"
    and "dagger_claim os path w3 = (0, d2, w4)"
  shows "d_current d2 = d_next d \<and> d_next d2 = d_next d + 1"
  by (rule generation_roundtrip [OF assms(1-4) script_promotes [OF assms(5,6)] assms(7-10)])

theorem generations_count_up_witness:
  "d_current (fst (snd claim_b)) = 0 \<and> d_next (fst (snd claim_b)) = 1"
proof -
  have n: "w_fs (snd (snd claim_a)) (''/r'' @ ''/next'') = Some (FFile [] False)" "d_next (fst (snd claim_a)) = 0"
    by code_simp+
  have "d_current (fst (snd claim_b)) = d_next (fst (snd claim_a))
    \<and> d_next (fst (snd claim_b)) = d_next (fst (snd claim_a)) + 1"
    using demo_script_adds
    by (intro generations_count_up [OF demo_script_steps(1) _ n(1) demo_script_steps(2) demo_runs_script demo_works _ _ _
          demo_script_steps(3)])
      (simp_all add: PATH_MAX_def INT_MAX_def claim_adds_only_def demo_script_os_def demo_os_def n)
  with n show ?thesis by simp
qed

text \<open>C17. One abandoned transaction blocks all later ones: the claim of a transaction on an existing generation
  makes the link \<open>action/exit/order\<close> in the current generation, \<open>sbin/dagger abandon\<close> leaves it there, and the
  next claim's \<open>ln -s\<close> then fails after \<open>next\<close> has been created, so that \<open>next\<close> stays behind and (by the
  exclusiveness of claims) no claim succeeds any more.\<close>

theorem abandon_wedges_claims:
  assumes "claim_adds_only os path" "ln_makes_order os path (d_current d)" "ln_refuses_taken os path (d_current d)"
    and "\<forall>fs p m. os_open os p m fs = 0" "\<forall>fs. fst (os_sh os (''mkdir -p '' @ path) fs) = 0"
    and "length path < PATH_MAX" "dagger_claim os path w = (0, d, w1)" "0 \<le> d_current d"
    and "dagger_abandon os d w1 = Some (rc, d1, w2)" "runs_script os env path"
    and "dagger_claim os path w2 = (rc2, d2, w3)"
  shows "rc2 \<noteq> 0 \<and> w_fs w3 (path @ ''/next'') \<noteq> None"
  by (rule claim_wedged_after_abandon [OF assms(1-9) script_abandon_keeps [OF assms(10,8)] assms(11)])

theorem abandon_wedges_claims_witness:
  "fst claim_c \<noteq> 0 \<and> w_fs (snd (snd claim_c)) (''/r'' @ ''/next'') \<noteq> None"
proof -
  have cur: "d_current (fst (snd claim_b)) = 0" by code_simp
  have sh: "ln_makes_order demo_script_os ''/r'' 0" "ln_refuses_taken demo_script_os ''/r'' 0"
    "\<forall>fs. fst (os_sh demo_script_os (''mkdir -p '' @ ''/r'') fs) = 0" "\<forall>fs p m. os_open demo_script_os p m fs = 0"
    by (auto simp: ln_makes_order_def ln_refuses_taken_def demo_script_os_def demo_script_sh_def demo_os_def
       exit_cmd_def init_cmd_def order_link_def dec_int_def split: option.splits)
  show ?thesis
    using abandon_wedges_claims [OF demo_script_adds _ _ sh(4,3) _ demo_script_steps(3) _ demo_script_steps(4)
        demo_runs_script demo_script_steps(5)] cur sh
    by (simp add: PATH_MAX_def)
qed

definition demo_gens :: dg_st where
  "demo_gens = \<lparr>dg_fs = [''/r/current'' \<mapsto> FFile (''0'' @ nl) False, ''/r/next'' \<mapsto> FFile (''1'' @ nl) False,
     ''/r/0'' \<mapsto> FDir, ''/r/1'' \<mapsto> FDir,
     ''/r/0/bottom-up-order'' \<mapsto> FFile (''eth0'' @ nl @ ''br0'' @ nl) False,
     ''/r/0/top-down-order'' \<mapsto> FFile (''br0'' @ nl @ ''eth0'' @ nl) False,
     ''/r/0/action/exit/order'' \<mapsto> FLink ''../../top-down-order'',
     ''/r/1/action/init/order'' \<mapsto> FLink ''../../bottom-up-order''], dg_trace = []\<rparr>"

theorem order_files_witness:
  "\<exists>ns x y. deps_first demo_above [] ns \<and> set ns = {''eth0'', ''br0''} \<and>
     dg_fs (snd (generate_order demo_dg ''/r/1'' demo_gens)) (''/r/1'' @ ''/bottom-up-order'') = Some (FFile (as_lines ns) x) \<and>
     dg_fs (snd (generate_order demo_dg ''/r/1'' demo_gens)) (''/r/1'' @ ''/top-down-order'') = Some (FFile (as_lines (rev ns)) y)"
proof -
  have g: "generate_order demo_dg ''/r/1'' demo_gens = (0, snd (generate_order demo_dg ''/r/1'' demo_gens))"
    by (rule prod_eqI) (code_simp, simp)
  have n: "dg_fs demo_gens (''/r/1'' @ ''/bottom-up-order'') = None" by code_simp
  have p: "post_ordered demo_above [] (dg_find demo_dg (''/r/1'' @ ''/dag'') (dg_fs demo_gens))" by code_simp
  have "set (dg_find demo_dg (''/r/1'' @ ''/dag'') (dg_fs demo_gens)) = {''eth0'', ''br0''}"
    by (simp add: demo_dg_def insert_commute)
  with order_files [OF g n p] show ?thesis by simp
qed


end
