(* ===== verification/Lyx.thy ===== *)
theory Lyx
  imports Prelude
begin

text \<open>
  \<open>src/src/confd/src/lib/lyx.c\<close> and \<open>lyx.h\<close>: reading libyang data and diff trees.

  A \<open>struct lyd_node\<close> is the part of libyang's node the sources look at: the schema name (null
  for an opaque node), the canonical value of a leaf, the default flag, the metadata in order, the
  children, and for a leaf of union type the member value.  A \<open>struct lyd_node *\<close> is a node
  together with what can be reached from it: the siblings that follow it and its ancestors, nearest
  first.  The accessors \<open>lyd_child\<close>, \<open>lyd_parent\<close>, \<open>lyd_get_value\<close> and
  \<open>lyd_find_meta\<close> of libyang return null for a null argument, as documented.
\<close>

datatype lyd_uval = LyUint8 u8 | LyEnum int

datatype lyd_node = LydNode
  (n_schema: cstr)
  (n_value: cstr)
  (n_default: bool)
  (n_meta: "(string \<times> string) list")
  (n_union: "lyd_uval option")
  (n_children: "lyd_node list")

datatype lyd_ref = LydRef (r_node: lyd_node) (r_next: "lyd_node list") (r_up: "lyd_node list")

type_synonym lyd_ptr = "lyd_ref option"

definition lyd_child :: "lyd_ptr \<Rightarrow> lyd_ptr" where
  "lyd_child p =
     (case p of
        None \<Rightarrow> None
      | Some r \<Rightarrow>
          (case n_children (r_node r) of
             [] \<Rightarrow> None
           | c # cs \<Rightarrow> Some (LydRef c cs (r_node r # r_up r))))"

definition lyd_parent :: "lyd_ref \<Rightarrow> lyd_ptr" where
  "lyd_parent r = (case r_up r of [] \<Rightarrow> None | u # us \<Rightarrow> Some (LydRef u [] us))"

definition lyd_next :: "lyd_ref \<Rightarrow> lyd_ptr" where
  "lyd_next r = (case r_next r of [] \<Rightarrow> None | n # ns \<Rightarrow> Some (LydRef n ns (r_up r)))"

text \<open>The nodes \<open>LY_LIST_FOR\<close> visits from a pointer on.\<close>

fun siblings_from :: "lyd_node list \<Rightarrow> lyd_node list \<Rightarrow> lyd_ref list" where
  "siblings_from [] up = []"
| "siblings_from (n # ns) up = LydRef n ns up # siblings_from ns up"

definition LY_LIST_FOR :: "lyd_ptr \<Rightarrow> lyd_ref list" where
  "LY_LIST_FOR p =
     (case p of None \<Rightarrow> [] | Some r \<Rightarrow> r # siblings_from (r_next r) (r_up r))"

text \<open>\<open>lyd_new_meta (..., node, NULL, name, val, ...)\<close> adds a metadata instance to the node.\<close>

definition lyd_new_meta :: "lyd_ref \<Rightarrow> string \<Rightarrow> string \<Rightarrow> lyd_ref" where
  "lyd_new_meta r name val =
     (case r_node r of
        LydNode s v d m u cs \<Rightarrow> LydRef (LydNode s v d (m @ [(name, val)]) u cs) (r_next r) (r_up r))"

section \<open>Operations of a diff\<close>

datatype lydx_op = LYDX_OP_NONE | LYDX_OP_CREATE | LYDX_OP_DELETE | LYDX_OP_REPLACE

record lydx_diff =
  nd_op :: lydx_op
  nd_modified :: bool
  nd_is_default :: bool
  nd_was_default :: bool
  nd_old :: cstr
  nd_val :: cstr
  nd_new :: cstr

definition lydx_get_mattr :: "lyd_node option \<Rightarrow> string \<Rightarrow> cstr" where
  "lydx_get_mattr node name =
     (case node of None \<Rightarrow> None | Some n \<Rightarrow> map_of (n_meta n) name)"

text \<open>The loop of \<open>lydx_get_op\<close> over the node and its ancestors, and the comparison after it.\<close>

fun op_str :: "lyd_node list \<Rightarrow> cstr" where
  "op_str [] = None"
| "op_str (n # ns) =
     (case lydx_get_mattr (Some n) ''yang:operation'' of Some s \<Rightarrow> Some s | None \<Rightarrow> op_str ns)"

definition op_of :: "lyd_node list \<Rightarrow> lydx_op" where
  "op_of ns =
     (let opstr = op_str ns in
      if opstr = Some ''create'' then LYDX_OP_CREATE
      else if opstr = Some ''delete'' then LYDX_OP_DELETE
      else if opstr = Some ''replace'' then LYDX_OP_REPLACE
      else LYDX_OP_NONE)"

definition lydx_get_op :: "lyd_ptr \<Rightarrow> lydx_op" where
  "lydx_get_op p = (case p of None \<Rightarrow> op_of [] | Some r \<Rightarrow> op_of (r_node r # r_up r))"

definition opchar :: "lydx_op \<Rightarrow> string" where
  "opchar op =
     (case op of
        LYDX_OP_CREATE \<Rightarrow> ''+''
      | LYDX_OP_DELETE \<Rightarrow> ''-''
      | LYDX_OP_REPLACE \<Rightarrow> ''|''
      | LYDX_OP_NONE \<Rightarrow> ''%'')"

definition lydx_diff_print :: "lydx_diff \<Rightarrow> string" where
  "lydx_diff_print nd =
     opchar (nd_op nd) @ (if nd_modified nd then ''(mod)'' else []) @ '' ''
     @ (case nd_old nd of None \<Rightarrow> [] | Some s \<Rightarrow> s) @ (if nd_was_default nd then ''(D)'' else [])
     @ '' ->''
     @ (case nd_new nd of None \<Rightarrow> [] | Some s \<Rightarrow> s) @ (if nd_is_default nd then ''(D)'' else [])
     @ nl"

definition nd_zero :: lydx_diff where
  "nd_zero = \<lparr>nd_op = LYDX_OP_NONE, nd_modified = False, nd_is_default = False,
     nd_was_default = False, nd_old = None, nd_val = None, nd_new = None\<rparr>"

definition nd_set_modified :: "lydx_diff \<Rightarrow> lydx_diff" where
  "nd_set_modified nd =
     nd\<lparr>nd_modified := (nd_old nd \<noteq> None \<and> \<not> nd_was_default nd)
        \<or> (nd_new nd \<noteq> None \<and> \<not> nd_is_default nd)\<rparr>"

definition lydx_get_diff :: "lyd_ptr \<Rightarrow> lydx_diff" where
  "lydx_get_diff p =
     (case p of
        None \<Rightarrow> nd_zero
      | Some r \<Rightarrow>
          (let node = r_node r;
               nd = nd_zero\<lparr>nd_op := lydx_get_op p, nd_val := n_value node\<rparr>;
               nd =
                 (case nd_op nd of
                    LYDX_OP_DELETE \<Rightarrow> nd\<lparr>nd_old := nd_val nd, nd_was_default := n_default node\<rparr>
                  | _ \<Rightarrow>
                      (let nd = nd\<lparr>nd_new := nd_val nd, nd_is_default := n_default node\<rparr> in
                       if nd_op nd = LYDX_OP_CREATE then nd
                       else
                         (let old = lydx_get_mattr (Some node) ''yang:orig-value'';
                              odflt = lydx_get_mattr (Some node) ''yang:orig-default''
                          in nd\<lparr>nd_old := (case old of Some s \<Rightarrow> Some s | None \<Rightarrow> nd_new nd),
                                nd_modified := old \<noteq> None,
                                nd_was_default := (odflt = Some ''true'')\<rparr>)))
           in nd_set_modified nd))"

section \<open>Navigation\<close>

definition named :: "string \<Rightarrow> lyd_ref \<Rightarrow> bool" where
  "named name r = (n_schema (r_node r) = Some name)"

definition lydx_get_sibling :: "lyd_ptr \<Rightarrow> string \<Rightarrow> lyd_ptr" where
  "lydx_get_sibling sibling name = List.find (named name) (LY_LIST_FOR sibling)"

definition lydx_get_child :: "lyd_ptr \<Rightarrow> string \<Rightarrow> lyd_ptr" where
  "lydx_get_child parent name = lydx_get_sibling (lyd_child parent) name"

text \<open>The loop of \<open>lydx_get_descendant\<close> over its null-terminated argument list.\<close>

fun descend :: "lyd_ptr \<Rightarrow> lyd_ptr \<Rightarrow> string list \<Rightarrow> lyd_ptr" where
  "descend node from [] = node"
| "descend node from (name # names) =
     (case lydx_get_sibling from name of
        None \<Rightarrow> None
      | Some r \<Rightarrow> descend (Some r) (lyd_child (Some r)) names)"

definition lydx_get_descendant :: "lyd_ptr \<Rightarrow> string list \<Rightarrow> lyd_ptr" where
  "lydx_get_descendant from names = descend None from names"

definition lyd_get_value :: "lyd_ptr \<Rightarrow> cstr" where
  "lyd_get_value p = (case p of None \<Rightarrow> None | Some r \<Rightarrow> n_value (r_node r))"

definition lydx_get_attr :: "lyd_ptr \<Rightarrow> string \<Rightarrow> cstr" where
  "lydx_get_attr sibling name = lyd_get_value (lydx_get_sibling sibling name)"

definition lydx_get_cattr :: "lyd_ptr \<Rightarrow> string \<Rightarrow> cstr" where
  "lydx_get_cattr parent name = lydx_get_attr (lyd_child parent) name"

text \<open>The formatted variants take the name already formatted.\<close>

definition lydx_get_vattrf :: "lyd_ptr \<Rightarrow> string \<Rightarrow> cstr" where
  "lydx_get_vattrf sibling name = lydx_get_attr sibling name"

definition lydx_get_attrf :: "lyd_ptr \<Rightarrow> string \<Rightarrow> cstr" where
  "lydx_get_attrf sibling name = lydx_get_vattrf sibling name"

definition lydx_is_enabled :: "lyd_ptr \<Rightarrow> string \<Rightarrow> bool" where
  "lydx_is_enabled parent name = (lydx_get_cattr parent name = Some ''true'')"

text \<open>\<open>lydx_new_path\<close>: \<open>new_path parent xpath val\<close> is libyang's \<open>lyd_new_path\<close>, which returns
  its status and the tree.\<close>

definition lydx_new_path ::
  "('t option \<Rightarrow> string \<Rightarrow> string \<Rightarrow> int \<times> 't option) \<Rightarrow> 't option \<Rightarrow> bool \<Rightarrow> string \<Rightarrow> string \<Rightarrow> string
     \<Rightarrow> int \<times> 't option \<times> bool" where
  "lydx_new_path new_path parent first xpath_base node val =
     (let xpath = xpath_base @ ''/'' @ node;
          (rc, tree) = (if first then new_path None xpath val else new_path parent xpath val)
      in (rc, tree, False))"

section \<open>What a diff leaf stands for\<close>

text \<open>The change of one leaf, and the node libyang's diff format has for it: the operation, the
  original value of a replaced leaf, and the original default flag wherever the leaf stays.\<close>

datatype leaf_change =
    Leaf_Created string bool
  | Leaf_Deleted string bool
  | Leaf_Replaced string bool string bool
  | Leaf_Kept string bool bool

definition bool_str :: "bool \<Rightarrow> string" where
  "bool_str b = (if b then ''true'' else ''false'')"

definition diff_leaf :: "string \<Rightarrow> leaf_change \<Rightarrow> lyd_node" where
  "diff_leaf name ch =
     (case ch of
        Leaf_Created v d \<Rightarrow> LydNode (Some name) (Some v) d [(''yang:operation'', ''create'')] None []
      | Leaf_Deleted v d \<Rightarrow> LydNode (Some name) (Some v) d [(''yang:operation'', ''delete'')] None []
      | Leaf_Replaced v d v' d' \<Rightarrow>
          LydNode (Some name) (Some v') d'
            [(''yang:operation'', ''replace''), (''yang:orig-default'', bool_str d),
             (''yang:orig-value'', v)] None []
      | Leaf_Kept v d d' \<Rightarrow>
          LydNode (Some name) (Some v) d'
            [(''yang:operation'', ''none''), (''yang:orig-default'', bool_str d)] None [])"

text \<open>The leaf before and after the change: its value and whether that is the default.\<close>

definition leaf_before :: "leaf_change \<Rightarrow> (string \<times> bool) option" where
  "leaf_before ch =
     (case ch of Leaf_Created v d \<Rightarrow> None | Leaf_Deleted v d \<Rightarrow> Some (v, d)
      | Leaf_Replaced v d v' d' \<Rightarrow> Some (v, d) | Leaf_Kept v d d' \<Rightarrow> Some (v, d))"

definition leaf_after :: "leaf_change \<Rightarrow> (string \<times> bool) option" where
  "leaf_after ch =
     (case ch of Leaf_Created v d \<Rightarrow> Some (v, d) | Leaf_Deleted v d \<Rightarrow> None
      | Leaf_Replaced v d v' d' \<Rightarrow> Some (v', d') | Leaf_Kept v d d' \<Rightarrow> Some (v, d'))"

section \<open>Well-formed trees\<close>

text \<open>A predicate on every node of a tree; and that a diff deletes nothing below a node it
  creates, given the operation in force above the tree.\<close>

fun all_nodes :: "(lyd_node \<Rightarrow> bool) \<Rightarrow> lyd_node \<Rightarrow> bool" where
  "all_nodes P (LydNode s v d m u cs) =
     (P (LydNode s v d m u cs) \<and> list_all (all_nodes P) cs)"

definition own_op :: "lydx_op \<Rightarrow> lyd_node \<Rightarrow> lydx_op" where
  "own_op pop n =
     (if lydx_get_mattr (Some n) ''yang:operation'' = None then pop else op_of [n])"

fun diff_ok :: "lydx_op \<Rightarrow> lyd_node \<Rightarrow> bool" where
  "diff_ok pop (LydNode s v d m u cs) =
     (let op = own_op pop (LydNode s v d m u cs) in
      (pop = LYDX_OP_CREATE \<longrightarrow> op = LYDX_OP_CREATE) \<and> list_all (diff_ok op) cs)"

definition tree_ok :: "(lyd_node \<Rightarrow> bool) \<Rightarrow> lyd_ptr \<Rightarrow> bool" where
  "tree_ok P p =
     list_all (\<lambda>r. all_nodes P (r_node r) \<and> diff_ok (op_of (r_up r)) (r_node r)) (LY_LIST_FOR p)"

section \<open>Lemmas on navigation\<close>

lemma lyd_child_None [simp]: "lyd_child None = None"
  by (simp add: lyd_child_def)

lemma LY_LIST_FOR_None [simp]: "LY_LIST_FOR None = []"
  by (simp add: LY_LIST_FOR_def)

lemma lydx_get_sibling_None [simp]: "lydx_get_sibling None name = None"
  by (simp add: lydx_get_sibling_def)

lemma lydx_get_child_None [simp]: "lydx_get_child None name = None"
  by (simp add: lydx_get_child_def)

lemma lydx_get_cattr_None [simp]: "lydx_get_cattr None name = None"
  by (simp add: lydx_get_cattr_def lydx_get_attr_def lyd_get_value_def)

lemma lydx_get_op_None [simp]: "lydx_get_op None = LYDX_OP_NONE"
  by (simp add: lydx_get_op_def op_of_def)

lemma descend_None [simp]: "names \<noteq> [] \<Longrightarrow> descend node None names = None"
  by (cases names) simp_all

lemma lydx_get_descendant_None [simp]: "lydx_get_descendant None names = None"
  by (cases names) (simp_all add: lydx_get_descendant_def)

lemma siblings_from_up: "r \<in> set (siblings_from ns up) \<Longrightarrow> r_up r = up"
  by (induction ns up rule: siblings_from.induct) auto

lemma map_r_node_siblings_from [simp]: "map r_node (siblings_from ns up) = ns"
  by (induction ns up rule: siblings_from.induct) auto

lemma LY_LIST_FOR_child:
  "LY_LIST_FOR (lyd_child (Some r)) = siblings_from (n_children (r_node r)) (r_node r # r_up r)"
  by (simp add: LY_LIST_FOR_def lyd_child_def split: list.splits)

text \<open>Following \<open>next\<close> pointers visits exactly the nodes of \<open>LY_LIST_FOR\<close>.\<close>

lemma LY_LIST_FOR_next: "LY_LIST_FOR (Some r) = r # LY_LIST_FOR (lyd_next r)"
  by (simp add: LY_LIST_FOR_def lyd_next_def split: list.splits)

lemma find_SomeD: "List.find P xs = Some x \<Longrightarrow> x \<in> set xs \<and> P x"
  by (induction xs) (auto split: if_splits)

lemma lydx_get_childD:
  assumes "lydx_get_child (Some r) name = Some c"
  shows "named name c \<and> r_node c \<in> set (n_children (r_node r)) \<and> r_up c = r_node r # r_up r"
proof -
  from find_SomeD [OF assms [unfolded lydx_get_child_def lydx_get_sibling_def LY_LIST_FOR_child]]
  have c: "c \<in> set (siblings_from (n_children (r_node r)) (r_node r # r_up r))" "named name c" by auto
  from c(1) have "r_node c \<in> set (map r_node (siblings_from (n_children (r_node r)) (r_node r # r_up r)))"
    unfolding set_map by (rule imageI)
  with c siblings_from_up [OF c(1)] show ?thesis by simp
qed

text \<open>A child without an operation of its own has its parent's.\<close>

lemma child_op_inherited:
  assumes "lydx_get_child (Some r) name = Some c"
    and "lydx_get_mattr (Some (r_node c)) ''yang:operation'' = None"
  shows "lydx_get_op (Some c) = lydx_get_op (Some r)"
  using lydx_get_childD [OF assms(1)] assms(2) by (simp add: lydx_get_op_def op_of_def)

lemma lydx_get_cattr_child:
  "lydx_get_cattr p name = lyd_get_value (lydx_get_child p name)"
  by (simp add: lydx_get_cattr_def lydx_get_attr_def lydx_get_child_def)

lemma descendant_one: "lydx_get_descendant from [name] = lydx_get_sibling from name"
  by (simp add: lydx_get_descendant_def split: option.splits)

lemma descend_snoc:
  "names \<noteq> [] \<Longrightarrow> descend node p (names @ [n]) = lydx_get_child (descend node p names) n"
proof (induction names arbitrary: node p)
  case Nil
  then show ?case by simp
next
  case (Cons a names)
  show ?case
  proof (cases "names = []")
    case True
    then show ?thesis by (simp add: lydx_get_child_def split: option.splits)
  next
    case False
    then show ?thesis using Cons.IH by (simp split: option.splits)
  qed
qed

text \<open>The value of a child depends on the children alone.\<close>

lemma find_siblings_from:
  "map_option r_node (List.find (named name) (siblings_from ns up))
     = List.find (\<lambda>n. n_schema n = Some name) ns"
  by (induction ns up rule: siblings_from.induct) (simp_all add: named_def)

lemma cattr_children:
  "lydx_get_cattr (Some r) name
     = Option.bind (List.find (\<lambda>n. n_schema n = Some name) (n_children (r_node r))) n_value"
  by (simp add: lydx_get_cattr_def lydx_get_attr_def lydx_get_sibling_def lyd_get_value_def
      LY_LIST_FOR_child find_siblings_from [symmetric, of _ _ "r_node r # r_up r"] split: option.splits)

section \<open>Lemmas on well-formed trees\<close>

lemma op_of_Cons: "op_of (n # ns) = own_op (op_of ns) n"
  by (simp add: op_of_def own_op_def Let_def split: option.splits)

lemma all_nodesD: "all_nodes P n \<Longrightarrow> P n" "all_nodes P n \<Longrightarrow> c \<in> set (n_children n) \<Longrightarrow> all_nodes P c"
  by (cases n; simp add: list_all_iff)+

lemma diff_okD:
  "diff_ok pop n \<Longrightarrow> c \<in> set (n_children n) \<Longrightarrow> diff_ok (own_op pop n) c"
  "diff_ok LYDX_OP_CREATE n \<Longrightarrow> own_op LYDX_OP_CREATE n = LYDX_OP_CREATE"
  by (cases n; simp add: list_all_iff Let_def)+

lemma siblings_from_node: "r \<in> set (siblings_from ns up) \<Longrightarrow> r_node r \<in> set ns"
  using map_r_node_siblings_from [of ns up] by (metis image_eqI list.set_map)

lemma tree_ok_None [simp]: "tree_ok P None"
  by (simp add: tree_ok_def)

lemma tree_okD:
  assumes "tree_ok P (Some r)"
  shows "P (r_node r)" "all_nodes P (r_node r)" "diff_ok (op_of (r_up r)) (r_node r)"
  using assms by (auto simp: tree_ok_def LY_LIST_FOR_def intro: all_nodesD(1))

lemma LY_LIST_FOR_suffix:
  "r \<in> set (LY_LIST_FOR p) \<Longrightarrow> set (LY_LIST_FOR (Some r)) \<subseteq> set (LY_LIST_FOR p)"
proof (cases p)
  case (Some q)
  have *: "set (LY_LIST_FOR (Some r)) \<subseteq> set (siblings_from ns up)"
    if "r \<in> set (siblings_from ns up)" for ns up
    using that
    by (induction ns up rule: siblings_from.induct) (auto simp: LY_LIST_FOR_def)
  assume "r \<in> set (LY_LIST_FOR p)"
  with Some * [of "r_next q" "r_up q"] show ?thesis by (auto simp: LY_LIST_FOR_def)
qed simp

lemma tree_ok_elem: "tree_ok P p \<Longrightarrow> r \<in> set (LY_LIST_FOR p) \<Longrightarrow> tree_ok P (Some r)"
  using LY_LIST_FOR_suffix by (auto simp: tree_ok_def list_all_iff)

lemma tree_ok_child [intro]: "tree_ok P p \<Longrightarrow> tree_ok P (lyd_child p)"
proof (cases p)
  case (Some r)
  assume "tree_ok P p"
  with Some have r: "all_nodes P (r_node r)" "diff_ok (op_of (r_up r)) (r_node r)"
    using tree_okD by blast+
  show ?thesis
    unfolding tree_ok_def Some LY_LIST_FOR_child list_all_iff
    using siblings_from_up siblings_from_node all_nodesD(2) [OF r(1)] diff_okD(1) [OF r(2)]
    by (metis op_of_Cons)
qed simp

lemma tree_ok_sibling [intro]: "tree_ok P p \<Longrightarrow> tree_ok P (lydx_get_sibling p name)"
  by (cases "lydx_get_sibling p name")
    (auto simp: lydx_get_sibling_def dest!: find_SomeD intro: tree_ok_elem)

lemma tree_ok_get_child [intro]: "tree_ok P p \<Longrightarrow> tree_ok P (lydx_get_child p name)"
  by (auto simp: lydx_get_child_def)

lemma tree_ok_descend: "tree_ok P node \<Longrightarrow> tree_ok P p \<Longrightarrow> tree_ok P (descend node p names)"
proof (induction names arbitrary: node p)
  case (Cons name names)
  show ?case
  proof (cases "lydx_get_sibling p name")
    case (Some r)
    with Cons.prems(2) have "tree_ok P (Some r)" by (metis tree_ok_sibling)
    with Some Cons.IH [of "Some r" "lyd_child (Some r)"] show ?thesis by auto
  qed simp
qed simp

lemma tree_ok_descendant [intro]: "tree_ok P p \<Longrightarrow> tree_ok P (lydx_get_descendant p names)"
  by (simp add: lydx_get_descendant_def tree_ok_descend)

text \<open>Below a created node every operation is a creation.\<close>

lemma tree_ok_created_child:
  assumes "tree_ok P (Some r)" "lydx_get_op (Some r) = LYDX_OP_CREATE"
    and "lydx_get_child (Some r) name = Some c"
  shows "lydx_get_op (Some c) = LYDX_OP_CREATE"
proof -
  from assms(1) have "tree_ok P (Some c)" using assms(3) by (metis tree_ok_get_child)
  from tree_okD(3) [OF this] lydx_get_childD [OF assms(3)] assms(2)
  have "diff_ok LYDX_OP_CREATE (r_node c)" "op_of (r_up c) = LYDX_OP_CREATE"
    by (simp_all add: lydx_get_op_def)
  then show ?thesis using diff_okD(2) by (simp add: lydx_get_op_def op_of_Cons)
qed

lemma nd_new_value:
  "lydx_get_op (Some r) \<noteq> LYDX_OP_DELETE \<Longrightarrow> nd_new (lydx_get_diff (Some r)) = n_value (r_node r)"
  by (simp add: lydx_get_diff_def nd_zero_def nd_set_modified_def Let_def split: lydx_op.splits)

lemma nd_new_val: "nd_new (lydx_get_diff p) \<noteq> None \<Longrightarrow> nd_val (lydx_get_diff p) = nd_new (lydx_get_diff p)"
  by (auto simp: lydx_get_diff_def nd_zero_def nd_set_modified_def Let_def
      split: lydx_op.splits option.splits)

text \<open>A configuration carries no metadata; marking one of its nodes as created makes it a diff
  that creates the whole subtree.\<close>

definition plain :: "lyd_node \<Rightarrow> bool" where
  "plain n = (n_meta n = [])"

lemma plain_diff_ok: "all_nodes plain n \<Longrightarrow> diff_ok op n"
proof (induction n arbitrary: op)
  case (LydNode s v d m u cs)
  then show ?case by (simp add: list_all_iff Let_def own_op_def lydx_get_mattr_def plain_def)
qed

lemma plain_up_op: "\<forall>n \<in> set ns. plain n \<Longrightarrow> op_of ns = LYDX_OP_NONE"
proof (induction ns)
  case (Cons n ns)
  then show ?case by (simp add: op_of_Cons own_op_def lydx_get_mattr_def plain_def)
qed (simp add: op_of_def)

lemma lyd_new_meta_simps [simp]:
  "n_schema (r_node (lyd_new_meta r a b)) = n_schema (r_node r)"
  "n_children (r_node (lyd_new_meta r a b)) = n_children (r_node r)"
  "n_value (r_node (lyd_new_meta r a b)) = n_value (r_node r)"
  "r_up (lyd_new_meta r a b) = r_up r"
  "r_next (lyd_new_meta r a b) = r_next r"
  by (cases "r_node r"; simp add: lyd_new_meta_def)+

section \<open>Properties\<close>



text \<open>Searching for a path of names is one child look-up per name: the node found for a path
  is the child, of the node found for all but the last name, that has the last name, and it is
  null as soon as a part of the path is missing; a node found this way without an operation of its
  own carries the operation of the node above it.\<close>

theorem get_descendant_path:
  assumes "names \<noteq> []"
    and "lydx_get_descendant from (names @ [n]) = Some r"
  shows "\<exists>q. lydx_get_descendant from names = Some q \<and> lydx_get_child (Some q) n = Some r
    \<and> n_schema (r_node r) = Some n \<and> r_up r = r_node q # r_up q
    \<and> (lydx_get_mattr (Some (r_node r)) ''yang:operation'' = None
         \<longrightarrow> lydx_get_op (Some r) = lydx_get_op (Some q))"
proof -
  from assms have c: "lydx_get_child (lydx_get_descendant from names) n = Some r"
    by (simp add: lydx_get_descendant_def descend_snoc)
  then obtain q where q: "lydx_get_descendant from names = Some q"
    by (cases "lydx_get_descendant from names") simp_all
  with c have "lydx_get_child (Some q) n = Some r" by simp
  with q lydx_get_childD [OF this] child_op_inherited [OF this] show ?thesis
    by (auto simp: named_def)
qed

theorem get_descendant_path_witness:
  "let leaf = LydNode (Some ''enabled'') (Some ''true'') False [] None [];
       ip = LydNode (Some ''ipv4'') None False [(''yang:operation'', ''create'')] None [leaf]
   in lydx_get_op (lydx_get_descendant (Some (LydRef ip [] [])) [''ipv4'', ''enabled''])
        = LYDX_OP_CREATE"
proof -
  let ?leaf = "LydNode (Some ''enabled'') (Some ''true'') False [] None []"
  let ?ip = "LydNode (Some ''ipv4'') None False [(''yang:operation'', ''create'')] None [?leaf]"
  have "lydx_get_descendant (Some (LydRef ?ip [] [])) ([''ipv4''] @ [''enabled''])
      = Some (LydRef ?leaf [] [?ip])"
    and q: "lydx_get_descendant (Some (LydRef ?ip [] [])) [''ipv4''] = Some (LydRef ?ip [] [])"
    by (simp_all add: lydx_get_descendant_def lydx_get_sibling_def LY_LIST_FOR_def named_def lyd_child_def)
  from get_descendant_path [OF _ this(1)] this(1) q show ?thesis
    by (simp add: lydx_get_mattr_def) (simp add: lydx_get_op_def op_of_def lydx_get_mattr_def)
qed

end
