(* ===== verification/Callback.thy ===== *)
theory Callback
  imports Prelude
begin

text \<open>
  The events of a sysrepo module-change subscription and the order in which they reach one
  callback: \<open>SR_EV_CHANGE\<close> while nothing is pending; once accepted (return value 0) exactly
  one of \<open>SR_EV_DONE\<close> and \<open>SR_EV_ABORT\<close>; a refused change is not followed by either for
  the callback that refused it.  Each event comes with the data sysrepo hands over with it.  The
  locale states what a callback must promise to be safe under that protocol and derives that it
  never crashes.
\<close>

datatype sr_event =
    SR_EV_UPDATE
  | SR_EV_CHANGE
  | SR_EV_DONE
  | SR_EV_ABORT
  | SR_EV_ENABLED
  | SR_EV_RPC

definition SR_ERR_OK :: int where "SR_ERR_OK = 0"
definition SR_ERR_INVAL_ARG :: int where "SR_ERR_INVAL_ARG = 1"
definition SR_ERR_LY :: int where "SR_ERR_LY = 2"
definition SR_ERR_SYS :: int where "SR_ERR_SYS = 3"
definition SR_ERR_NO_MEMORY :: int where "SR_ERR_NO_MEMORY = 4"
definition SR_ERR_EXISTS :: int where "SR_ERR_EXISTS = 6"
definition SR_ERR_INTERNAL :: int where "SR_ERR_INTERNAL = 7"
definition SR_ERR_VALIDATION_FAILED :: int where "SR_ERR_VALIDATION_FAILED = 9"

lemmas sr_err_defs =
  SR_ERR_OK_def SR_ERR_INVAL_ARG_def SR_ERR_LY_def SR_ERR_SYS_def SR_ERR_NO_MEMORY_def
  SR_ERR_EXISTS_def SR_ERR_INTERNAL_def

text \<open>\<open>sr_reach cb valid d0 w0 p d w\<close>: from \<open>(d0, w0)\<close> the protocol can bring the callback's
  own state to \<open>d\<close> and the world to \<open>w\<close>, with a change pending iff \<open>p\<close>, where the data of
  every event satisfies \<open>valid\<close>.\<close>

inductive sr_reach ::
  "(sr_event \<Rightarrow> 'p \<Rightarrow> 'd \<Rightarrow> 'w \<Rightarrow> (int \<times> 'd \<times> 'w) option) \<Rightarrow> ('p \<Rightarrow> bool)
     \<Rightarrow> 'd \<Rightarrow> 'w \<Rightarrow> bool \<Rightarrow> 'd \<Rightarrow> 'w \<Rightarrow> bool"
  for cb valid d0 w0 where
  start: "sr_reach cb valid d0 w0 False d0 w0"
| accepted: "sr_reach cb valid d0 w0 False d w \<Longrightarrow> valid x \<Longrightarrow>
     cb SR_EV_CHANGE x d w = Some (0, d', w') \<Longrightarrow> sr_reach cb valid d0 w0 True d' w'"
| refused: "sr_reach cb valid d0 w0 False d w \<Longrightarrow> valid x \<Longrightarrow>
     cb SR_EV_CHANGE x d w = Some (rc, d', w') \<Longrightarrow> rc \<noteq> 0 \<Longrightarrow> sr_reach cb valid d0 w0 False d' w'"
| finished: "sr_reach cb valid d0 w0 True d w \<Longrightarrow> e \<in> {SR_EV_DONE, SR_EV_ABORT} \<Longrightarrow>
     cb e x d w = Some (rc, d', w') \<Longrightarrow> sr_reach cb valid d0 w0 False d' w'"
| other: "sr_reach cb valid d0 w0 p d w \<Longrightarrow> e \<in> {SR_EV_UPDATE, SR_EV_ENABLED, SR_EV_RPC} \<Longrightarrow>
     cb e x d w = Some (rc, d', w') \<Longrightarrow> sr_reach cb valid d0 w0 p d' w'"

text \<open>The events the protocol may deliver next.\<close>

definition sr_may :: "bool \<Rightarrow> sr_event \<Rightarrow> bool" where
  "sr_may pending e =
     (case e of
        SR_EV_CHANGE \<Rightarrow> \<not> pending
      | SR_EV_DONE \<Rightarrow> pending
      | SR_EV_ABORT \<Rightarrow> pending
      | _ \<Rightarrow> True)"

locale change_callback =
  fixes cb :: "sr_event \<Rightarrow> 'p \<Rightarrow> 'd \<Rightarrow> 'w \<Rightarrow> (int \<times> 'd \<times> 'w) option"
    and valid :: "'p \<Rightarrow> bool"
    and live :: "'d \<Rightarrow> bool"
  assumes change_safe: "valid x \<Longrightarrow> cb SR_EV_CHANGE x d w \<noteq> None"
    and change_live: "valid x \<Longrightarrow> cb SR_EV_CHANGE x d w = Some (0, d', w') \<Longrightarrow> live d'"
    and finish_safe: "live d \<Longrightarrow> e \<in> {SR_EV_DONE, SR_EV_ABORT} \<Longrightarrow> cb e x d w \<noteq> None"
    and other_safe: "e \<in> {SR_EV_UPDATE, SR_EV_ENABLED, SR_EV_RPC} \<Longrightarrow> cb e x d w = Some (0, d, w)"
begin

lemma reach_live:
  assumes "sr_reach cb valid d0 w0 p d w" "p"
  shows "live d"
  using assms
proof (induction rule: sr_reach.induct)
  case (accepted d w x d' w')
  then show ?case using change_live by blast
next
  case (other p d w e x rc d' w')
  then show ?case using other_safe [of e x d w] by auto
qed simp_all

lemma never_crashes:
  assumes "sr_reach cb valid d0 w0 p d w" "valid x" "sr_may p e"
  shows "\<exists>rc d' w'. cb e x d w = Some (rc, d', w')"
proof -
  from reach_live [OF assms(1)] have "p \<longrightarrow> live d" by auto
  with assms(2,3) have "cb e x d w \<noteq> None"
    using change_safe [of x d w] finish_safe [of d e x w] other_safe [of e x d w]
    by (cases e) (auto simp: sr_may_def)
  then show ?thesis by auto
qed

end

end
