(* ===== verification/SrxVal.thy ===== *)
theory SrxVal
  imports Posix Lyx Callback
begin

text \<open>
  \<open>src/src/confd/src/confd/srx_val.c\<close>: reading and writing single items of a sysrepo session.

  sysrepo itself is the record \<open>sr\<close>, an argument of the operations, over an opaque datastore
  type: \<open>sr_get_items\<close> returns the status, the \<open>errno\<close> it leaves (\<^const>\<open>None\<close> if it leaves
  \<open>errno\<close> alone) and the values found; the setters return the status and the datastore
  afterwards.  The format strings of the source are already expanded in the \<open>xpath\<close> arguments,
  and \<open>errno\<close> is passed in and out where an operation sets or reads it.
\<close>

datatype sr_val_type =
    SR_UNKNOWN_T | SR_STRING_T | SR_BOOL_T | SR_INT8_T | SR_UINT8_T | SR_INT16_T | SR_UINT16_T
  | SR_INT32_T | SR_UINT32_T | SR_INT64_T | SR_UINT64_T | SR_ENUM_T | SR_IDENTITYREF_T | SR_OTHER_T

datatype sr_val =
    SrString string
  | SrBool bool
  | SrInt8 "8 word" | SrUint8 "8 word"
  | SrInt16 "16 word" | SrUint16 "16 word"
  | SrInt32 "32 word" | SrUint32 "32 word"
  | SrInt64 "64 word" | SrUint64 "64 word"
  | SrEnum string
  | SrIdentityref string
  | SrOther string

fun sr_type :: "sr_val \<Rightarrow> sr_val_type" where
  "sr_type (SrString s) = SR_STRING_T"
| "sr_type (SrBool b) = SR_BOOL_T"
| "sr_type (SrInt8 w) = SR_INT8_T"
| "sr_type (SrUint8 w) = SR_UINT8_T"
| "sr_type (SrInt16 w) = SR_INT16_T"
| "sr_type (SrUint16 w) = SR_UINT16_T"
| "sr_type (SrInt32 w) = SR_INT32_T"
| "sr_type (SrUint32 w) = SR_UINT32_T"
| "sr_type (SrInt64 w) = SR_INT64_T"
| "sr_type (SrUint64 w) = SR_UINT64_T"
| "sr_type (SrEnum s) = SR_ENUM_T"
| "sr_type (SrIdentityref s) = SR_IDENTITYREF_T"
| "sr_type (SrOther s) = SR_OTHER_T"

record 'ds sr =
  sr_get_items :: "'ds \<Rightarrow> string \<Rightarrow> int \<times> int option \<times> sr_val list"
  sr_set_item :: "'ds \<Rightarrow> string \<Rightarrow> sr_val \<Rightarrow> int \<times> 'ds"
  sr_set_item_str :: "'ds \<Rightarrow> string \<Rightarrow> string \<Rightarrow> int \<times> 'ds"
  sr_val_to_str :: "sr_val \<Rightarrow> cstr"

section \<open>The diff of a change event\<close>

text \<open>What sysrepo hands to a change callback: \<open>ev_iter\<close> is the result of
  \<open>sr_dup_changes_iter\<close> (status and, on success, the diff tree the iterator starts with),
  \<open>ev_dup\<close> the status of \<open>lyd_dup_siblings\<close> on that tree.  Where the iterator was not made,
  reading through it is undefined.\<close>

record sr_diff =
  ev_iter :: "int \<times> lyd_ptr option"
  ev_dup :: int

definition srx_get_diff :: "sr_diff \<Rightarrow> (int \<times> lyd_ptr) option" where
  "srx_get_diff ev =
     (case ev_iter ev of
        (err, None) \<Rightarrow> None
      | (err, Some tree) \<Rightarrow>
          if ev_dup ev \<noteq> 0 then Some (SR_ERR_LY, None) else Some (err, tree))"

section \<open>Setters\<close>

definition srx_set_item :: "'ds sr \<Rightarrow> 'ds \<Rightarrow> sr_val \<Rightarrow> string \<Rightarrow> int \<times> 'ds" where
  "srx_set_item sr ds val xpath = sr_set_item sr ds xpath val"

definition srx_set_str :: "'ds sr \<Rightarrow> 'ds \<Rightarrow> string \<Rightarrow> string \<Rightarrow> int \<times> 'ds" where
  "srx_set_str sr ds str xpath = sr_set_item_str sr ds xpath str"

section \<open>Getters\<close>

text \<open>The result is the status, the values (\<open>*val\<close> and \<open>*cnt\<close>) and \<open>errno\<close>.\<close>

definition srx_vaget ::
  "'ds sr \<Rightarrow> 'ds \<Rightarrow> string \<Rightarrow> sr_val_type \<Rightarrow> int \<Rightarrow> int \<times> sr_val list \<times> int" where
  "srx_vaget sr ds xpath type errno =
     (case sr_get_items sr ds xpath of
        (rc, e, val) \<Rightarrow>
          (let errno = (case e of None \<Rightarrow> errno | Some e \<Rightarrow> e) in
           if rc \<noteq> 0 then (-1, val, errno)
           else if length val = 0 then (-1, val, ENODATA)
           else if 1 < length val then (-1, val, EOVERFLOW)
           else if type \<noteq> SR_UNKNOWN_T \<and> sr_type (val ! 0) \<noteq> type then (-1, val, EINVAL)
           else (0, val, errno)))"

text \<open>\<open>result\<close> is only written on success.\<close>

definition get_vabool :: "'ds sr \<Rightarrow> 'ds \<Rightarrow> int \<Rightarrow> string \<Rightarrow> int \<Rightarrow> int \<times> int \<times> int" where
  "get_vabool sr ds result xpath errno =
     (case srx_vaget sr ds xpath SR_BOOL_T errno of
        (rc, val, errno) \<Rightarrow>
          if rc \<noteq> 0 then (rc, result, errno)
          else (0, (case val ! 0 of SrBool b \<Rightarrow> of_bool b | _ \<Rightarrow> 0), errno))"

definition srx_get_bool :: "'ds sr \<Rightarrow> 'ds \<Rightarrow> int \<Rightarrow> string \<Rightarrow> int \<Rightarrow> int \<times> int \<times> int" where
  "srx_get_bool sr ds result xpath errno = get_vabool sr ds result xpath errno"

definition srx_enabled :: "'ds sr \<Rightarrow> 'ds \<Rightarrow> string \<Rightarrow> int \<Rightarrow> int \<times> int" where
  "srx_enabled sr ds xpath errno =
     (case get_vabool sr ds 0 xpath errno of
        (rc, v, errno) \<Rightarrow> (if rc \<noteq> 0 then 0 else v, errno))"

text \<open>The conversions to \<open>int\<close>: the narrow types are promoted, the 64-bit types and \<open>uint32\<close>
  are reduced modulo \<open>2^32\<close> into the signed range.\<close>

definition int_of_val :: "sr_val \<Rightarrow> int option" where
  "int_of_val val =
     (case val of
        SrInt8 w \<Rightarrow> Some (sint w)
      | SrUint8 w \<Rightarrow> Some (uint w)
      | SrInt16 w \<Rightarrow> Some (sint w)
      | SrUint16 w \<Rightarrow> Some (uint w)
      | SrInt32 w \<Rightarrow> Some (sint w)
      | SrUint32 w \<Rightarrow> Some (sint w)
      | SrInt64 w \<Rightarrow> Some (sint (ucast w :: 32 word))
      | SrUint64 w \<Rightarrow> Some (sint (ucast w :: 32 word))
      | _ \<Rightarrow> None)"

definition srx_get_int ::
  "'ds sr \<Rightarrow> 'ds \<Rightarrow> int \<Rightarrow> sr_val_type \<Rightarrow> string \<Rightarrow> int \<Rightarrow> int \<times> int \<times> int" where
  "srx_get_int sr ds result type xpath errno =
     (case srx_vaget sr ds xpath type errno of
        (rc, val, errno) \<Rightarrow>
          if rc \<noteq> 0 then (rc, result, errno)
          else (case int_of_val (val ! 0) of
                  Some v \<Rightarrow> (0, v, errno)
                | None \<Rightarrow> (-1, result, errno)))"

definition srx_get_str :: "'ds sr \<Rightarrow> 'ds \<Rightarrow> string \<Rightarrow> int \<Rightarrow> cstr \<times> int" where
  "srx_get_str sr ds xpath errno =
     (case srx_vaget sr ds xpath SR_UNKNOWN_T errno of
        (rc, val, errno) \<Rightarrow>
          if rc \<noteq> 0 then (None, errno) else (sr_val_to_str sr (val ! 0), errno))"

definition srx_vnitems :: "'ds sr \<Rightarrow> 'ds \<Rightarrow> string \<Rightarrow> int \<times> nat \<times> int" where
  "srx_vnitems sr ds xpath =
     (case srx_vaget sr ds xpath SR_UNKNOWN_T 0 of
        (rc, val, errno) \<Rightarrow>
          if rc \<noteq> 0 then (if errno \<noteq> 0 then 0 else rc, length val, errno)
          else (0, length val, errno))"

definition srx_nitems :: "'ds sr \<Rightarrow> 'ds \<Rightarrow> string \<Rightarrow> int \<times> nat \<times> int" where
  "srx_nitems sr ds xpath = srx_vnitems sr ds xpath"

section \<open>The integer a value denotes\<close>

definition val_int :: "sr_val \<Rightarrow> int option" where
  "val_int val =
     (case val of
        SrInt8 w \<Rightarrow> Some (sint w) | SrUint8 w \<Rightarrow> Some (uint w)
      | SrInt16 w \<Rightarrow> Some (sint w) | SrUint16 w \<Rightarrow> Some (uint w)
      | SrInt32 w \<Rightarrow> Some (sint w) | SrUint32 w \<Rightarrow> Some (uint w)
      | SrInt64 w \<Rightarrow> Some (sint w) | SrUint64 w \<Rightarrow> Some (uint w)
      | _ \<Rightarrow> None)"

lemma signed_take_bit_uint:
  fixes w :: "'a::len word"
  assumes "LENGTH('a) \<le> 31"
  shows "signed_take_bit 31 (uint w) = uint w"
proof (rule signed_take_bit_int_eq_self)
  have "uint w < 2 ^ LENGTH('a)" by simp
  also have "\<dots> \<le> 2 ^ 31" using assms by (intro power_increasing) simp_all
  finally show "uint w < 2 ^ 31" .
  have "- (2 ^ 31) \<le> (0::int)" by simp
  also have "0 \<le> uint w" by simp
  finally show "- (2 ^ 31) \<le> uint w" .
qed

lemma int_of_val_eq: "int_of_val val = map_option (signed_take_bit 31) (val_int val)"
  by (cases val)
    (simp_all add: int_of_val_def val_int_def sint_uint unsigned_ucast_eq signed_take_bit_uint
      signed_take_bit_take_bit)

section \<open>Properties\<close>

text \<open>Counting items: whenever sysrepo answers, \<open>srx_nitems\<close> succeeds with the exact number
  of items, also for none and for several, which the getters treat as errors; a failing query is
  reported as \<open>-1\<close> only if it left \<open>errno\<close> at zero, and passes for success otherwise.\<close>

theorem nitems_count:
  "case sr_get_items sr ds xpath of
     (rc, e, val) \<Rightarrow>
       fst (snd (srx_nitems sr ds xpath)) = length val
       \<and> fst (srx_nitems sr ds xpath) = (if rc \<noteq> 0 \<and> e \<in> {None, Some 0} then -1 else 0)"
  by (auto simp: srx_nitems_def srx_vnitems_def srx_vaget_def Let_def errno_defs split: prod.splits)

text \<open>Reading an integer: a single item of the requested type and of any of the eight integer
  types is returned as the \<open>int\<close> congruent to its value modulo \<open>2^32\<close>, which is the value
  itself whenever that fits; the unsigned and 64-bit types wrap otherwise, without an error.\<close>

theorem get_int_wraps:
  assumes "sr_get_items sr ds xpath = (0, e, [val])"
    and "type \<in> {SR_UNKNOWN_T, sr_type val}"
    and "val_int val = Some z"
  shows "\<exists>r errno'. srx_get_int sr ds result type xpath errno = (0, r, errno')
    \<and> r mod 2 ^ 32 = z mod 2 ^ 32 \<and> INT_MIN \<le> r \<and> r \<le> INT_MAX
    \<and> (INT_MIN \<le> z \<and> z \<le> INT_MAX \<longrightarrow> r = z)"
proof -
  let ?r = "signed_take_bit 31 z"
  from assms obtain errno' where "srx_get_int sr ds result type xpath errno = (0, ?r, errno')"
    by (auto simp: srx_get_int_def srx_vaget_def Let_def int_of_val_eq)
  moreover have "?r mod 2 ^ 32 = z mod 2 ^ 32"
    using take_bit_signed_take_bit [of 32 31 z] by (simp add: take_bit_eq_mod)
  moreover have "INT_MIN \<le> ?r" "?r \<le> INT_MAX"
    using signed_take_bit_int_greater_eq_minus_exp [of 31 z] signed_take_bit_int_less_exp [of 31 z]
    by (simp_all add: INT_MIN_def INT_MAX_def)
  moreover have "?r = z" if "INT_MIN \<le> z" "z \<le> INT_MAX"
    using that by (intro signed_take_bit_int_eq_self) (simp_all add: INT_MIN_def INT_MAX_def)
  ultimately show ?thesis by blast
qed

definition demo_sr :: "sr_val list sr" where
  "demo_sr = \<lparr>sr_get_items = (\<lambda>ds xpath. (0, None, ds)), sr_set_item = (\<lambda>ds xpath v. (0, ds)),
     sr_set_item_str = (\<lambda>ds xpath s. (0, ds)), sr_val_to_str = (\<lambda>v. None)\<rparr>"

theorem get_int_wraps_witness:
  "\<exists>errno'. srx_get_int demo_sr [SrUint16 4094] 0 SR_UNKNOWN_T ''/vlan-id'' 0 = (0, 4094, errno')"
  using get_int_wraps [of demo_sr "[SrUint16 4094]" "''/vlan-id''" None "SrUint16 4094" SR_UNKNOWN_T 4094 0 0]
  by (auto simp: demo_sr_def val_int_def INT_MIN_def INT_MAX_def)

text \<open>A boolean setting counts as enabled exactly if the query answers with one item and that
  item is the boolean \<open>true\<close>; a missing, repeated or differently typed item, and a failed query,
  count as disabled.\<close>

theorem enabled_iff:
  "fst (srx_enabled sr ds xpath errno) = 1
     \<longleftrightarrow> (\<exists>e. sr_get_items sr ds xpath = (0, e, [SrBool True]))"
proof -
  obtain rc e val where q: "sr_get_items sr ds xpath = (rc, e, val)" by (cases "sr_get_items sr ds xpath")
  show ?thesis
  proof (cases "rc = 0 \<and> (\<exists>v. val = [v])")
    case True
    then obtain v where v: "val = [v]" "rc = 0" by blast
    then show ?thesis
      by (cases v) (simp_all add: q srx_enabled_def get_vabool_def srx_vaget_def Let_def)
  next
    case False
    then have "rc \<noteq> 0 \<or> length val = 0 \<or> 1 < length val"
      by (cases val) (auto simp: neq_Nil_conv)
    with False show ?thesis
      by (auto simp: q srx_enabled_def get_vabool_def srx_vaget_def Let_def)
  qed
qed

end
