(* ===== verification/SysConf.thy ===== *)
theory SysConf
  imports SrxVal Helpers
begin

text \<open>
  The parts of \<open>src/src/confd/src/confd/ietf-system.c\<close> that turn configuration into files below
  \<open>/etc\<close>: the time zone, the NTP client, the DNS resolver and the message of the day.  The first
  three stage the new file as \<open><file>+\<close> when a change is proposed and swap it in when the change is
  done, keeping the old one as \<open><file>-\<close>.

  sysrepo is the record \<open>sr\<close> of the theory \<open>SrxVal\<close>; \<open>y_list\<close> stands for \<open>sr_get_items\<close> on a
  list, and gives the status and the paths of the instances found.  \<^const>\<open>None\<close> is a call that
  reads or frees what was never set.
\<close>

record 'ds sysd =
  y_os :: os
  y_sr :: "'ds sr"
  y_list :: "'ds \<Rightarrow> string \<Rightarrow> int \<times> string list"

abbreviation sys_str :: "'ds sysd \<Rightarrow> 'ds \<Rightarrow> string \<Rightarrow> cstr" where
  "sys_str y ds xpath \<equiv> fst (srx_get_str (y_sr y) ds xpath 0)"

abbreviation enabled :: "'ds sysd \<Rightarrow> 'ds \<Rightarrow> string \<Rightarrow> int" where
  "enabled y ds xpath \<equiv> fst (srx_enabled (y_sr y) ds xpath 0)"

section \<open>Staged files\<close>

definition next_of :: "string \<Rightarrow> string" where
  "next_of conf = conf @ ''+''"

definition prev_of :: "string \<Rightarrow> string" where
  "prev_of conf = conf @ ''-''"

definition swap_in :: "string \<Rightarrow> world \<Rightarrow> world" where
  "swap_in conf w =
     rename_file (next_of conf) conf
       (rename_file conf (prev_of conf) (remove_file (prev_of conf) w))"

section \<open>Time zone\<close>

definition TIMEZONE_CONF :: string where "TIMEZONE_CONF = ''/etc/timezone''"

definition clock_stage :: "'ds sysd \<Rightarrow> 'ds \<Rightarrow> world \<Rightarrow> int \<times> world" where
  "clock_stage y ds w =
     (case sys_str y ds ''/ietf-system:system/clock/timezone-name'' of
        None \<Rightarrow> (SR_ERR_VALIDATION_FAILED, w)
      | Some timezone \<Rightarrow>
          (case systemf (y_os y) (''ln -s /usr/share/zoneinfo/'' @ timezone @ '' /etc/localtime+'')
                  (remove_file ''/etc/localtime+'' w) of
             (rc, w) \<Rightarrow>
               if rc \<noteq> 0 then (SR_ERR_VALIDATION_FAILED, w)
               else (case writesf (y_os y) timezone ''w'' (next_of TIMEZONE_CONF) w of
                       (rc, w) \<Rightarrow> if rc \<noteq> 0 then (SR_ERR_SYS, w) else (SR_ERR_OK, w))))"

definition change_clock :: "'ds sysd \<Rightarrow> sr_event \<Rightarrow> 'ds \<Rightarrow> world \<Rightarrow> int \<times> world" where
  "change_clock y event ds w =
     (case event of
        SR_EV_ENABLED \<Rightarrow> clock_stage y ds w
      | SR_EV_CHANGE \<Rightarrow> clock_stage y ds w
      | SR_EV_ABORT \<Rightarrow> (SR_ERR_OK, remove_file (next_of TIMEZONE_CONF) w)
      | SR_EV_DONE \<Rightarrow>
          if \<not> fexistf (next_of TIMEZONE_CONF) w then (SR_ERR_OK, w)
          else (SR_ERR_OK, swap_in ''/etc/localtime'' (swap_in TIMEZONE_CONF w))
      | _ \<Rightarrow> (SR_ERR_OK, w))"

section \<open>NTP client\<close>

definition CHRONY_CONF :: string where "CHRONY_CONF = ''/etc/chrony.conf''"

text \<open>The line for one server, empty if it has no address.\<close>

definition ntp_server_line :: "'ds sysd \<Rightarrow> 'ds \<Rightarrow> string \<Rightarrow> string" where
  "ntp_server_line y ds xpath =
     (case sys_str y ds (xpath @ ''/udp/address'') of
        None \<Rightarrow> []
      | Some ptr \<Rightarrow>
          (case sys_str y ds (xpath @ ''/association-type'') of None \<Rightarrow> ''server'' | Some t \<Rightarrow> t)
          @ '' '' @ ptr
          @ (case sys_str y ds (xpath @ ''/udp/port'') of None \<Rightarrow> [] | Some p \<Rightarrow> '' port '' @ p)
          @ (if 0 < enabled y ds (xpath @ ''/iburst'') then '' iburst'' else [])
          @ (if 0 < enabled y ds (xpath @ ''/prefer'') then '' prefer'' else [])
          @ nl)"

definition ntp_footer :: string where
  "ntp_footer =
     ''driftfile /var/lib/chrony/drift'' @ nl @ ''makestep 1.0 3'' @ nl @ ''maxupdateskew 100.0'' @ nl @
     ''dumpdir /var/lib/chrony'' @ nl @ ''rtcfile /var/lib/chrony/rtc'' @ nl"

text \<open>The counter \<open>valid\<close> after the loop.\<close>

definition ntp_valid :: "'ds sysd \<Rightarrow> 'ds \<Rightarrow> string list \<Rightarrow> int" where
  "ntp_valid y ds xpaths =
     (if xpaths = [] then -1
      else int (length (filter (\<lambda>x. sys_str y ds (x @ ''/udp/address'') \<noteq> None) xpaths)))"

definition ntp_stage :: "'ds sysd \<Rightarrow> 'ds \<Rightarrow> world \<Rightarrow> int \<times> world" where
  "ntp_stage y ds w =
     (case y_list y ds ''/ietf-system:system/ntp/server'' of
        (rc, val) \<Rightarrow>
          if rc \<noteq> 0 then (rc, remove_file (next_of CHRONY_CONF) w)
          else (case fopen (y_os y) (next_of CHRONY_CONF) ''w'' w of
            (None, w) \<Rightarrow> (SR_ERR_SYS, w)
          | (Some fp, w) \<Rightarrow>
              let w = fput fp (concat (map (ntp_server_line y ds) val) @ ntp_footer) w
              in if ntp_valid y ds val = 0
                 then (SR_ERR_VALIDATION_FAILED, remove_file (next_of CHRONY_CONF) w)
                 else (SR_ERR_OK, w)))"

definition ntp_done :: "'ds sysd \<Rightarrow> 'ds \<Rightarrow> world \<Rightarrow> world" where
  "ntp_done y ds w =
     (if enabled y ds ''/ietf-system:system/ntp/enabled'' \<noteq> 0
      then snd (systemf (y_os y) ''initctl -nbq disable chronyd'' w)
      else snd (systemf (y_os y) ''initctl -nbq enable chronyd''
                  (snd (systemf (y_os y) ''initctl -nbq touch chronyd'' w))))"

definition change_ntp :: "'ds sysd \<Rightarrow> sr_event \<Rightarrow> 'ds \<Rightarrow> world \<Rightarrow> int \<times> world" where
  "change_ntp y event ds w =
     (case event of
        SR_EV_ENABLED \<Rightarrow> ntp_stage y ds w
      | SR_EV_CHANGE \<Rightarrow> ntp_stage y ds w
      | SR_EV_ABORT \<Rightarrow> (SR_ERR_OK, remove_file (next_of CHRONY_CONF) w)
      | SR_EV_DONE \<Rightarrow>
          if \<not> fexistf (next_of CHRONY_CONF) w then (SR_ERR_OK, w)
          else (SR_ERR_OK, ntp_done y ds (swap_in CHRONY_CONF w))
      | _ \<Rightarrow> (SR_ERR_OK, w))"

section \<open>DNS resolver\<close>

definition RESOLV_CONF :: string where "RESOLV_CONF = ''/etc/resolv.conf.head''"

text \<open>The member \<open>string_val\<close> of each value; reading it from a value of another type is undefined.\<close>

fun string_vals :: "sr_val list \<Rightarrow> string list option" where
  "string_vals [] = Some []"
| "string_vals (v # vs) =
     (case v of
        SrString s \<Rightarrow> map_option (Cons s) (string_vals vs)
      | _ \<Rightarrow> None)"

definition dns_options :: "'ds sysd \<Rightarrow> 'ds \<Rightarrow> string" where
  "dns_options y ds =
     (let (r, timeout, e) = srx_get_int (y_sr y) ds 0 SR_UINT8_T
            ''/ietf-system:system/dns-resolver/options/timeout'' 0;
          (r, timeout, e) = srx_get_int (y_sr y) ds timeout SR_UINT8_T
            ''/ietf-system:system/dns-resolver/options/attempts'' 0;
          attempts = 0
      in if timeout \<noteq> 0 \<or> attempts \<noteq> 0
         then ''options'' @ (if timeout \<noteq> 0 then '' timeout:'' @ dec_int timeout else []) @
              (if attempts \<noteq> 0 then '' attempts:'' @ dec_int attempts @ '' '' else []) @ nl
         else [])"

definition dns_search :: "string list \<Rightarrow> string" where
  "dns_search names =
     (if names = [] then [] else ''search '' @ concat (map (\<lambda>s. s @ '' '') names) @ nl)"

definition dns_server_line :: "'ds sysd \<Rightarrow> 'ds \<Rightarrow> string \<Rightarrow> string" where
  "dns_server_line y ds xpath =
     (case sys_str y ds (xpath @ ''/udp-and-tcp/address'') of
        None \<Rightarrow> [] | Some ptr \<Rightarrow> ''nameserver '' @ ptr @ nl)"

definition dns_stage :: "'ds sysd \<Rightarrow> 'ds \<Rightarrow> world \<Rightarrow> (int \<times> world) option" where
  "dns_stage y ds w =
     (case fopen (y_os y) (next_of RESOLV_CONF) ''w'' w of
        (None, w) \<Rightarrow> None
      | (Some fp, w) \<Rightarrow>
          (case sr_get_items (y_sr y) ds ''/ietf-system:system/dns-resolver/search'' of
             (rc, e, val) \<Rightarrow>
               if rc \<noteq> 0 then Some (rc, remove_file (next_of RESOLV_CONF) w)
               else do {
                 names \<leftarrow> string_vals val;
                 let (rc, servers) = y_list y ds ''/ietf-system:system/dns-resolver/server'';
                 if rc \<noteq> 0 then Some (rc, remove_file (next_of RESOLV_CONF) w)
                 else Some (SR_ERR_OK,
                        fput fp (dns_options y ds @ dns_search names @
                                 concat (map (dns_server_line y ds) servers)) w)
               }))"

definition dns_done :: "'ds sysd \<Rightarrow> world \<Rightarrow> world" where
  "dns_done y w =
     (case systemf (y_os y) ''initctl -bq cond get hook/sys/up'' w of
        (rc, w) \<Rightarrow> if rc \<noteq> 0 then w else snd (systemf (y_os y) ''resolvconf -u'' w))"

definition change_dns :: "'ds sysd \<Rightarrow> sr_event \<Rightarrow> 'ds \<Rightarrow> world \<Rightarrow> (int \<times> world) option" where
  "change_dns y event ds w =
     (case event of
        SR_EV_ENABLED \<Rightarrow> dns_stage y ds w
      | SR_EV_CHANGE \<Rightarrow> dns_stage y ds w
      | SR_EV_ABORT \<Rightarrow> Some (SR_ERR_OK, remove_file (next_of RESOLV_CONF) w)
      | SR_EV_DONE \<Rightarrow>
          if \<not> fexistf (next_of RESOLV_CONF) w then Some (SR_ERR_OK, w)
          else Some (SR_ERR_OK, dns_done y (swap_in RESOLV_CONF w))
      | _ \<Rightarrow> Some (SR_ERR_OK, w))"

section \<open>Message of the day\<close>

definition change_motd :: "'ds sysd \<Rightarrow> string \<Rightarrow> sr_event \<Rightarrow> 'ds \<Rightarrow> world \<Rightarrow> int \<times> world" where
  "change_motd y xpath event ds w =
     (if event \<noteq> SR_EV_DONE then (SR_ERR_OK, w)
      else (case sys_str y ds xpath of
              None \<Rightarrow> (SR_ERR_OK, remove_file ''/etc/motd'' w)
            | Some message \<Rightarrow>
                (case writesf (y_os y) message ''w'' ''/etc/motd'' w of
                   (rc, w) \<Rightarrow> (if rc \<noteq> 0 then SR_ERR_SYS else SR_ERR_OK, w))))"

end
