(* ===== verification/SysStage.thy ===== *)
theory SysStage
  imports SysConf
begin

text \<open>
  The staged files as transactions.  A transaction proposes a configuration and, if the callback
  accepts it, is either done or aborted.  The locale states what a callback on one staged file
  promises for each event and derives what a whole sequence of transactions does to that file; the
  callbacks for the time zone, the NTP client and the DNS resolver are instances.
\<close>

section \<open>Transactions\<close>

text \<open>The callback of a transaction, and whether it accepted the change.\<close>

definition run_txn ::
  "(sr_event \<Rightarrow> 'p \<Rightarrow> world \<Rightarrow> (int \<times> world) option) \<Rightarrow> 'p \<Rightarrow> bool \<Rightarrow> world \<Rightarrow> (bool \<times> world) option" where
  "run_txn cb x commit w =
     do {
       (rc, w) \<leftarrow> cb SR_EV_CHANGE x w;
       if rc \<noteq> 0 then Some (False, w)
       else do {
         (rc, w) \<leftarrow> cb (if commit then SR_EV_DONE else SR_EV_ABORT) x w;
         Some (True, w)
       }
     }"

fun run_txns ::
  "(sr_event \<Rightarrow> 'p \<Rightarrow> world \<Rightarrow> (int \<times> world) option) \<Rightarrow> ('p \<times> bool) list \<Rightarrow> world \<Rightarrow>
   (bool list \<times> world) option" where
  "run_txns cb [] w = Some ([], w)"
| "run_txns cb ((x, commit) # ts) w =
     do {
       (acc, w) \<leftarrow> run_txn cb x commit w;
       (accs, w) \<leftarrow> run_txns cb ts w;
       Some (acc # accs, w)
     }"

text \<open>What the transactions should do to the contents of the file: each one that was accepted and
  committed replaces them.\<close>

fun committed :: "('p \<Rightarrow> string option) \<Rightarrow> ('p \<times> bool) list \<Rightarrow> bool list \<Rightarrow> string option \<Rightarrow> string option" where
  "committed stext ((x, commit) # ts) (acc # accs) c =
     committed stext ts accs (if acc \<and> commit then stext x else c)"
| "committed stext ts accs c = c"

locale staged_file =
  fixes cb :: "sr_event \<Rightarrow> 'p \<Rightarrow> world \<Rightarrow> (int \<times> world) option"
    and conf :: string
    and stext :: "'p \<Rightarrow> string option"
  assumes change_keeps:
      "cb SR_EV_CHANGE x w = Some (rc, w') \<Longrightarrow> text_of w' conf = text_of w conf"
    and change_refused:
      "cb SR_EV_CHANGE x w = Some (rc, w') \<Longrightarrow> rc \<noteq> 0 \<Longrightarrow> w_fs w (next_of conf) = None \<Longrightarrow>
         w_fs w' (next_of conf) = None"
    and change_staged:
      "cb SR_EV_CHANGE x w = Some (0, w') \<Longrightarrow>
         stext x \<noteq> None \<and> text_of w' (next_of conf) = stext x"
    and abort_drops:
      "cb SR_EV_ABORT x w = Some (rc, w') \<Longrightarrow>
         text_of w' conf = text_of w conf \<and> w_fs w' (next_of conf) = None"
    and done_swaps:
      "cb SR_EV_DONE x w = Some (rc, w') \<Longrightarrow> w_fs w (next_of conf) \<noteq> None \<Longrightarrow>
         text_of w' conf = text_of w (next_of conf) \<and> w_fs w' (next_of conf) = None"
begin

lemma txn_commits:
  assumes "run_txn cb x commit w = Some (acc, w')" "w_fs w (next_of conf) = None"
  shows "w_fs w' (next_of conf) = None \<and>
    text_of w' conf = (if acc \<and> commit then stext x else text_of w conf)"
proof -
  obtain rc w1 where c: "cb SR_EV_CHANGE x w = Some (rc, w1)"
    using assms(1) by (auto simp: run_txn_def split: Option.bind_splits)
  show ?thesis
  proof (cases "rc = 0")
    case False
    with assms c change_keeps [OF c] change_refused [OF c] show ?thesis
      by (auto simp: run_txn_def)
  next
    case True
    note s = change_staged [OF c [unfolded True]] change_keeps [OF c]
    then have "w_fs w1 (next_of conf) \<noteq> None" by (auto simp: text_of_def split: option.splits)
    with True assms(1) c s show ?thesis
      by (auto simp: run_txn_def split: Option.bind_splits if_splits
          dest!: done_swaps abort_drops)
  qed
qed

lemma txns_commit:
  "run_txns cb ts w = Some (accs, w') \<Longrightarrow> w_fs w (next_of conf) = None \<Longrightarrow>
     w_fs w' (next_of conf) = None \<and> text_of w' conf = committed stext ts accs (text_of w conf)"
proof (induction ts arbitrary: w accs)
  case (Cons t ts)
  obtain x commit where t: "t = (x, commit)" by (cases t)
  with Cons.prems(1) obtain acc w1 accs' where
      w1: "run_txn cb x commit w = Some (acc, w1)" "run_txns cb ts w1 = Some (accs', w')"
      "accs = acc # accs'"
    by (auto split: Option.bind_splits)
  with Cons.IH [OF w1(2)] txn_commits [OF w1(1) Cons.prems(2)] show ?case by (simp add: t)
qed simp

end

section \<open>The three callbacks\<close>

text \<open>The shell commands the callbacks run have nothing to do with the staged files: \<open>guard_os Q os\<close>
  is the system \<open>os\<close> in which no command changes a file of \<open>Q\<close>.\<close>

definition guard_os :: "string set \<Rightarrow> os \<Rightarrow> os" where
  "guard_os Q os = os\<lparr>os_sh := (\<lambda>cmd fs. case os_sh os cmd fs of
     (rc, e, fs') \<Rightarrow> (rc, e, \<lambda>q. if q \<in> Q then fs q else fs' q))\<rparr>"

definition files_of :: "string \<Rightarrow> string set" where
  "files_of conf = {conf, next_of conf, prev_of conf}"

definition guarded :: "string \<Rightarrow> 'ds sysd \<Rightarrow> 'ds sysd" where
  "guarded conf y = y\<lparr>y_os := guard_os (files_of conf) (y_os y)\<rparr>"

lemma guarded_simps [simp]:
  "y_sr (guarded conf y) = y_sr y" "y_list (guarded conf y) = y_list y"
  "y_os (guarded conf y) = guard_os (files_of conf) (y_os y)"
  by (simp_all add: guarded_def)

lemma systemf_guard:
  "systemf (guard_os Q os) cmd w = (rc, w') \<Longrightarrow> q \<in> Q \<Longrightarrow> w_fs w' q = w_fs w q"
  by (auto simp: systemf_def guard_os_def split: prod.splits)

lemma systemf_guard_snd [simp]: "q \<in> Q \<Longrightarrow> w_fs (snd (systemf (guard_os Q os) cmd w)) q = w_fs w q"
  using systemf_guard by (metis prod.collapse)

lemma names_differ [simp]:
  "conf \<noteq> next_of conf" "conf \<noteq> prev_of conf" "next_of conf \<noteq> conf" "prev_of conf \<noteq> conf"
  "next_of conf \<noteq> prev_of conf" "prev_of conf \<noteq> next_of conf"
  "conf \<in> files_of conf" "next_of conf \<in> files_of conf" "prev_of conf \<in> files_of conf"
  by (simp_all add: next_of_def prev_of_def files_of_def)

lemma swap_in_fs:
  assumes "w_fs w (next_of conf) = Some n"
  shows "w_fs (swap_in conf w) conf = Some n" "w_fs (swap_in conf w) (next_of conf) = None"
    "w_fs (swap_in conf w) (prev_of conf) = w_fs w conf"
  using assms by (auto simp: swap_in_def rename_file_def split: option.splits)

definition ntp_text :: "'ds sysd \<Rightarrow> 'ds \<Rightarrow> string option" where
  "ntp_text y ds =
     (case y_list y ds ''/ietf-system:system/ntp/server'' of (rc, val) \<Rightarrow>
        if rc \<noteq> 0 \<or> ntp_valid y ds val = 0 then None
        else Some (concat (map (ntp_server_line y ds) val) @ ntp_footer))"

text \<open>Staging a text: what a callback does that writes \<open><file>+\<close> and removes it again if the text
  is refused.\<close>

definition stages :: "string \<Rightarrow> string option \<Rightarrow> world \<Rightarrow> int \<times> world \<Rightarrow> bool" where
  "stages conf t w = (\<lambda>(rc, w').
     (\<forall>q \<in> files_of conf. q \<noteq> next_of conf \<longrightarrow> w_fs w' q = w_fs w q) \<and>
     (rc \<noteq> 0 \<longrightarrow> w_fs w (next_of conf) = None \<longrightarrow> w_fs w' (next_of conf) = None) \<and>
     (rc = 0 \<longrightarrow> t \<noteq> None \<and> text_of w' (next_of conf) = t))"

lemma ntp_stages: "stages CHRONY_CONF (ntp_text y ds) w (ntp_stage y ds w)"
proof -
  obtain rc val where l: "y_list y ds ''/ietf-system:system/ntp/server'' = (rc, val)" by fastforce
  let ?p = "next_of CHRONY_CONF" and ?s = "concat (map (ntp_server_line y ds) val) @ ntp_footer"
  show ?thesis
  proof (cases "fopen (y_os y) ?p ''w'' w")
    case (Pair r w1)
    show ?thesis
    proof (cases r)
      case None
      then show ?thesis
        using Pair fopen_w_fail [of "y_os y" ?p "''w''" w w1]
        by (simp add: ntp_stage_def l stages_def sr_err_defs)
    next
      case (Some fp)
      then show ?thesis
        using Pair fopen_w_put [of "y_os y" ?p w fp w1 ?s]
        by (simp add: ntp_stage_def ntp_text_def l stages_def sr_err_defs SR_ERR_VALIDATION_FAILED_def
            Let_def)
    qed
  qed
qed

definition clock_text :: "'ds sysd \<Rightarrow> 'ds \<Rightarrow> string option" where
  "clock_text y ds =
     map_option (\<lambda>tz. tz @ nl) (sys_str y ds ''/ietf-system:system/clock/timezone-name'')"

lemma clock_stages:
  "stages TIMEZONE_CONF (clock_text y ds) w (clock_stage (guarded TIMEZONE_CONF y) ds w)"
proof (cases "sys_str y ds ''/ietf-system:system/clock/timezone-name''")
  case None
  then show ?thesis
    by (simp add: clock_stage_def stages_def SR_ERR_VALIDATION_FAILED_def)
next
  case (Some tz)
  let ?os = "guard_os (files_of TIMEZONE_CONF) (y_os y)" and ?p = "next_of TIMEZONE_CONF"
  obtain rc w1 where s: "systemf ?os (''ln -s /usr/share/zoneinfo/'' @ tz @ '' /etc/localtime+'')
      (remove_file ''/etc/localtime+'' w) = (rc, w1)" by fastforce
  have l: "''/etc/localtime+'' \<notin> files_of TIMEZONE_CONF"
    by (simp add: files_of_def next_of_def prev_of_def TIMEZONE_CONF_def)
  have w1: "\<forall>q \<in> files_of TIMEZONE_CONF. w_fs w1 q = w_fs w q"
    using systemf_guard [OF s] l by auto
  show ?thesis
  proof (cases "fopen ?os ?p ''w'' w1")
    case (Pair r w2)
    show ?thesis
    proof (cases r)
      case None
      then show ?thesis
        using Pair fopen_w_fail [of ?os ?p "''w''" w1 w2] w1 s
        by (simp add: clock_stage_def Some writesf_def open_file_def stages_def sr_err_defs
            SR_ERR_VALIDATION_FAILED_def)
    next
      case fp: (Some fp)
      then show ?thesis
        using Pair fopen_w_put [of ?os ?p w1 fp w2 "tz @ nl"] w1 s
        by (simp add: clock_stage_def clock_text_def Some writesf_def open_file_def stages_def
            sr_err_defs SR_ERR_VALIDATION_FAILED_def)
    qed
  qed
qed

definition dns_text :: "'ds sysd \<Rightarrow> 'ds \<Rightarrow> string option" where
  "dns_text y ds =
     (case sr_get_items (y_sr y) ds ''/ietf-system:system/dns-resolver/search'' of (rc, e, val) \<Rightarrow>
        (case y_list y ds ''/ietf-system:system/dns-resolver/server'' of (rc', servers) \<Rightarrow>
           if rc \<noteq> 0 \<or> rc' \<noteq> 0 then None
           else map_option (\<lambda>names. dns_options y ds @ dns_search names @
                  concat (map (dns_server_line y ds) servers)) (string_vals val)))"

lemma dns_stages:
  assumes "dns_stage y ds w = Some r"
  shows "stages RESOLV_CONF (dns_text y ds) w r"
proof -
  let ?p = "next_of RESOLV_CONF"
  obtain rc e val where g: "sr_get_items (y_sr y) ds ''/ietf-system:system/dns-resolver/search'' = (rc, e, val)"
    by (metis prod_cases3)
  obtain rc' servers where l: "y_list y ds ''/ietf-system:system/dns-resolver/server'' = (rc', servers)"
    by fastforce
  obtain fp w1 where f: "fopen (y_os y) ?p ''w'' w = (Some fp, w1)"
    using assms by (auto simp: dns_stage_def split: prod.splits option.splits)
  show ?thesis
  proof (cases "rc = 0")
    case False
    then show ?thesis
      using assms f fopen_other [OF f] by (auto simp: dns_stage_def g stages_def)
  next
    case True
    then obtain names where n: "string_vals val = Some names"
      using assms f by (auto simp: dns_stage_def g split: Option.bind_splits)
    let ?s = "dns_options y ds @ dns_search names @ concat (map (dns_server_line y ds) servers)"
    show ?thesis
      using assms f fopen_w_put [OF f, where s = ?s] True n fopen_other [OF f]
      by (auto simp: dns_stage_def dns_text_def g l stages_def sr_err_defs split: if_splits)
  qed
qed

lemma swap_in_other: "q \<notin> files_of conf \<Longrightarrow> w_fs (swap_in conf w) q = w_fs w q"
  by (auto simp: swap_in_def rename_file_def files_of_def split: option.splits)

lemma stagesD:
  assumes "stages conf t w (rc, w')"
  shows "text_of w' conf = text_of w conf"
    "rc \<noteq> 0 \<Longrightarrow> w_fs w (next_of conf) = None \<Longrightarrow> w_fs w' (next_of conf) = None"
    "rc = 0 \<Longrightarrow> t \<noteq> None \<and> text_of w' (next_of conf) = t"
  using assms by (auto simp: stages_def intro: text_of_cong)

lemma ntp_done_fs:
  "q \<in> files_of CHRONY_CONF \<Longrightarrow> w_fs (ntp_done (guarded CHRONY_CONF y) ds w) q = w_fs w q"
  by (simp add: ntp_done_def)

lemma dns_done_fs:
  "q \<in> files_of RESOLV_CONF \<Longrightarrow> w_fs (dns_done (guarded RESOLV_CONF y) w) q = w_fs w q"
  by (auto simp: dns_done_def systemf_guard split: prod.splits)

lemma guarded_lines [simp]:
  "ntp_server_line (guarded conf y) = ntp_server_line y" "ntp_valid (guarded conf y) = ntp_valid y"
  "dns_options (guarded conf y) = dns_options y" "dns_server_line (guarded conf y) = dns_server_line y"
  unfolding fun_eq_iff ntp_server_line_def ntp_valid_def dns_options_def dns_server_line_def guarded_simps
  by simp_all

lemma guarded_texts [simp]:
  "ntp_text (guarded conf y) = ntp_text y" "dns_text (guarded conf y) = dns_text y"
  unfolding fun_eq_iff ntp_text_def dns_text_def guarded_simps guarded_lines by simp_all

interpretation ntp: staged_file "\<lambda>e ds w. Some (change_ntp (guarded CHRONY_CONF y) e ds w)" CHRONY_CONF
  "ntp_text y" for y
proof (unfold_locales, goal_cases)
  case (1 x w rc w')
  then show ?case
    using stagesD(1) [of CHRONY_CONF _ w rc w'] ntp_stages [of "guarded CHRONY_CONF y" x w]
    by (simp add: change_ntp_def)
next
  case (2 x w rc w')
  then show ?case
    using stagesD(2) [of CHRONY_CONF _ w rc w'] ntp_stages [of "guarded CHRONY_CONF y" x w]
    by (simp add: change_ntp_def)
next
  case (3 x w w')
  then show ?case
    using stagesD(3) [of CHRONY_CONF _ w 0 w'] ntp_stages [of "guarded CHRONY_CONF y" x w]
    by (simp add: change_ntp_def)
next
  case (4 x w rc w')
  then show ?case by (auto simp: change_ntp_def text_of_def)
next
  case (5 x w rc w')
  then obtain n where n: "w_fs w (next_of CHRONY_CONF) = Some n" by auto
  with 5 swap_in_fs [OF n] show ?case
    by (auto simp: change_ntp_def fexistf_def text_of_def ntp_done_fs)
qed

interpretation clock: staged_file "\<lambda>e ds w. Some (change_clock (guarded TIMEZONE_CONF y) e ds w)"
  TIMEZONE_CONF "clock_text y" for y
proof (unfold_locales, goal_cases)
  case (1 x w rc w')
  then show ?case
    using stagesD(1) [of TIMEZONE_CONF _ w rc w'] clock_stages [of y x w] by (simp add: change_clock_def)
next
  case (2 x w rc w')
  then show ?case
    using stagesD(2) [of TIMEZONE_CONF _ w rc w'] clock_stages [of y x w] by (simp add: change_clock_def)
next
  case (3 x w w')
  then show ?case
    using stagesD(3) [of TIMEZONE_CONF _ w 0 w'] clock_stages [of y x w] by (simp add: change_clock_def)
next
  case (4 x w rc w')
  then show ?case by (auto simp: change_clock_def text_of_def)
next
  case (5 x w rc w')
  then obtain n where n: "w_fs w (next_of TIMEZONE_CONF) = Some n" by auto
  have "TIMEZONE_CONF \<notin> files_of ''/etc/localtime''"
    "next_of TIMEZONE_CONF \<notin> files_of ''/etc/localtime''"
    by (simp_all add: files_of_def next_of_def prev_of_def TIMEZONE_CONF_def)
  with 5 n swap_in_fs [OF n] show ?case
    by (auto simp: change_clock_def fexistf_def text_of_def swap_in_other)
qed

interpretation dns: staged_file "change_dns (guarded RESOLV_CONF y)" RESOLV_CONF "dns_text y" for y
proof (unfold_locales, goal_cases)
  case (1 x w rc w')
  then show ?case
    using stagesD(1) [of RESOLV_CONF _ w rc w'] dns_stages [of "guarded RESOLV_CONF y" x w]
    by (simp add: change_dns_def)
next
  case (2 x w rc w')
  then show ?case
    using stagesD(2) [of RESOLV_CONF _ w rc w'] dns_stages [of "guarded RESOLV_CONF y" x w]
    by (simp add: change_dns_def)
next
  case (3 x w w')
  then show ?case
    using stagesD(3) [of RESOLV_CONF _ w 0 w'] dns_stages [of "guarded RESOLV_CONF y" x w]
    by (simp add: change_dns_def)
next
  case (4 x w rc w')
  then show ?case by (auto simp: change_dns_def text_of_def)
next
  case (5 x w rc w')
  then obtain n where n: "w_fs w (next_of RESOLV_CONF) = Some n" by auto
  with 5 swap_in_fs [OF n] show ?case
    by (auto simp: change_dns_def fexistf_def text_of_def dns_done_fs)
qed

section \<open>Properties\<close>

definition shell_keeps :: "os \<Rightarrow> string \<Rightarrow> bool" where
  "shell_keeps os conf =
     (\<forall>cmd fs. \<forall>q \<in> files_of conf. snd (snd (os_sh os cmd fs)) q = fs q)"

lemma shell_keeps_guarded: "shell_keeps (y_os y) conf \<Longrightarrow> guarded conf y = y"
proof -
  assume "shell_keeps (y_os y) conf"
  then have "(case os_sh (y_os y) cmd fs of (rc, e, fs') \<Rightarrow>
      (rc, e, \<lambda>q. if q \<in> files_of conf then fs q else fs' q)) = os_sh (y_os y) cmd fs" for cmd fs
    by (auto simp: shell_keeps_def fun_eq_iff split: prod.splits) (metis snd_conv)
  then show ?thesis by (simp add: guarded_def guard_os_def)
qed

lemma run_txns_total:
  assumes cb: "\<And>e x w. \<exists>rc w'. cb e x w = Some (rc, w')"
  shows "\<exists>accs w'. run_txns cb ts w = Some (accs, w')"
proof (induction ts arbitrary: w)
  case (Cons t ts)
  obtain x commit where t: "t = (x, commit)" by (cases t)
  obtain rc w1 where 1: "cb SR_EV_CHANGE x w = Some (rc, w1)" using cb by blast
  obtain rc' w2 where 2: "cb (if commit then SR_EV_DONE else SR_EV_ABORT) x w1 = Some (rc', w2)"
    using cb by blast
  obtain acc w' where "run_txn cb x commit w = Some (acc, w')"
    using 1 2 by (cases "rc = 0") (simp_all add: run_txn_def)
  moreover obtain accs w'' where "run_txns cb ts w' = Some (accs, w'')" using Cons.IH by blast
  ultimately show ?case by (simp add: t)
qed simp


text \<open>When a change of the NTP configuration is done, chronyd is disabled exactly if the
  configuration enables the client, and restarted and enabled if it does not: the test is inverted.\<close>

theorem ntp_enable_inverted:
  assumes "fexistf (next_of CHRONY_CONF) w"
  shows "w_log (snd (change_ntp y SR_EV_DONE ds w)) = w_log w @
    (if enabled y ds ''/ietf-system:system/ntp/enabled'' \<noteq> 0 then [''initctl -nbq disable chronyd'']
     else [''initctl -nbq touch chronyd'', ''initctl -nbq enable chronyd''])"
proof -
  have l: "w_log (snd (systemf os c v)) = w_log v @ [c]" for os c v
    using systemf_log [of os c v] by (metis prod.collapse)
  have "w_log (swap_in CHRONY_CONF w) = w_log w"
    by (auto simp: swap_in_def rename_file_def remove_file_def split: option.splits)
  then show ?thesis using assms by (simp add: change_ntp_def ntp_done_def l)
qed

text \<open>The resolver option for the number of attempts is never written: its value is read into the
  variable of the timeout and replaces the timeout that was configured.\<close>

theorem dns_attempts_replace_timeout:
  assumes "sr_get_items (y_sr y) ds ''/ietf-system:system/dns-resolver/options/attempts'' = (0, e, [SrUint8 a])"
    and "a \<noteq> 0"
  shows "dns_options y ds = ''options timeout:'' @ dec_int (uint a) @ nl"
proof -
  have "uint a \<noteq> 0" using assms(2) by (simp add: uint_0_iff)
  then show ?thesis
    using assms(1) by (simp add: dns_options_def srx_get_int_def srx_vaget_def int_of_val_def Let_def
        split: prod.splits)
qed

section \<open>A small configuration\<close>

text \<open>Items by path, and one NTP server.\<close>

type_synonym demo_ds = "(string \<times> sr_val) list"

definition demo_sysd :: "demo_ds sysd" where
  "demo_sysd =
     \<lparr>y_os = \<lparr>os_sh = (\<lambda>cmd fs. (0, 0, fs)), os_open = (\<lambda>p m fs. 0), os_chmod = (\<lambda>p. True),
              os_ifindex = (\<lambda>x. True), os_popen_json = (\<lambda>c. None), os_json_str = (\<lambda>j k. None)\<rparr>,
      y_sr = \<lparr>sr_get_items = (\<lambda>ds p. (0, None, map snd (filter (\<lambda>(q, v). q = p) ds))),
              sr_set_item = (\<lambda>ds p v. (0, ds)), sr_set_item_str = (\<lambda>ds p v. (0, ds)),
              sr_val_to_str = (\<lambda>v. case v of SrString s \<Rightarrow> Some s | _ \<Rightarrow> None)\<rparr>,
      y_list = (\<lambda>ds p. (0, if p = ''/ietf-system:system/ntp/server'' then [''/s1''] else []))\<rparr>"

definition demo_items :: demo_ds where
  "demo_items =
     [(''/s1/udp/address'', SrString ''10.0.0.1''), (''/s1/iburst'', SrBool True),
      (''/ietf-system:system/ntp/enabled'', SrBool True),
      (''/ietf-system:system/dns-resolver/options/timeout'', SrUint8 5),
      (''/ietf-system:system/dns-resolver/options/attempts'', SrUint8 3)]"

definition demo_sys_world :: world where
  "demo_sys_world = \<lparr>w_fs = Map.empty, w_errno = 0, w_log = []\<rparr>"


theorem ntp_enable_inverted_witness:
  "w_log (snd (change_ntp demo_sysd SR_EV_DONE demo_items
      (demo_sys_world\<lparr>w_fs := [next_of CHRONY_CONF \<mapsto> FFile [] False]\<rparr>))) = [''initctl -nbq disable chronyd'']"
proof -
  have "enabled demo_sysd demo_items ''/ietf-system:system/ntp/enabled'' \<noteq> 0" by code_simp
  then show ?thesis
    using ntp_enable_inverted [of "demo_sys_world\<lparr>w_fs := [next_of CHRONY_CONF \<mapsto> FFile [] False]\<rparr>" demo_sysd demo_items]
    by (simp add: fexistf_def demo_sys_world_def)
qed

theorem dns_attempts_replace_timeout_witness:
  "dns_options demo_sysd demo_items = ''options timeout:3'' @ nl"
proof -
  have "sr_get_items (y_sr demo_sysd) demo_items ''/ietf-system:system/dns-resolver/options/attempts''
      = (0, None, [SrUint8 3])"
    by code_simp
  moreover have "dec_int (uint (3 :: 8 word)) = ''3''" by code_simp
  ultimately show ?thesis using dns_attempts_replace_timeout [of demo_sysd demo_items None 3] by simp
qed

end
