(* ===== verification/SysAuth.thy ===== *)
theory SysAuth
  imports SrxVal Helpers
begin

text \<open>
  Users, passwords, SSH keys and the host name: \<open>change_auth\<close> and \<open>change_hostname\<close> of
  \<open>src/src/confd/src/confd/ietf-system.c\<close>, with \<open>src/src/confd/src/confd/systemv.c\<close>, which runs
  a program without a shell.

  Outside the sources, and so in the record \<open>authd\<close>: what a program started with an argument vector
  does (\<open>a_exec\<close>), the table of users (\<open>a_getpwnam\<close>), the key \<open>name\<close> of the list \<open>user\<close> in a path
  (\<open>a_key\<close>, sysrepo's \<open>sr_xpath_key_value\<close>), the login shell configured at build time, libite's
  \<open>whichp\<close>, \<open>sethostname\<close>, and Augeas over an opaque tree.  \<^const>\<open>None\<close> as a result is a failed
  assertion or the use of a null pointer.
\<close>

section \<open>Running a program\<close>

datatype child = Fork_failed | Wait_failed | Exited int | Signaled

record 'aug authd =
  a_exec :: "string list \<Rightarrow> fs \<Rightarrow> child \<times> fs"
  a_getpwnam :: "string \<Rightarrow> fs \<Rightarrow> bool"
  a_key :: "string \<Rightarrow> cstr"
  a_shell :: string
  a_which :: "string \<Rightarrow> bool"
  a_sethostname :: "string \<Rightarrow> int"
  aug_set :: "'aug \<Rightarrow> string \<Rightarrow> string \<Rightarrow> int \<times> 'aug"
  aug_get :: "'aug \<Rightarrow> string \<Rightarrow> string option"
  aug_match :: "'aug \<Rightarrow> string \<Rightarrow> string list"
  aug_load :: "'aug \<Rightarrow> fs \<Rightarrow> int \<times> 'aug"
  aug_save :: "'aug \<Rightarrow> fs \<Rightarrow> int \<times> fs"

definition EINTR :: int where "EINTR = 4"

fun unwords :: "string list \<Rightarrow> string" where
  "unwords [] = []"
| "unwords [x] = x"
| "unwords (x # xs) = x @ '' '' @ unwords xs"

definition fsystemv :: "'aug authd \<Rightarrow> string list option \<Rightarrow> world \<Rightarrow> int \<times> world" where
  "fsystemv a args w =
     (case args of
        None \<Rightarrow> (-1, w\<lparr>w_errno := EINVAL\<rparr>)
      | Some argv \<Rightarrow>
          (case a_exec a argv (w_fs w) of
             (c, fs) \<Rightarrow>
               (let w = w\<lparr>w_fs := fs, w_log := w_log w @ [unwords argv]\<rparr> in
                case c of
                  Fork_failed \<Rightarrow> (-1, w)
                | Wait_failed \<Rightarrow> (-1, w)
                | Exited rc \<Rightarrow> (rc, w\<lparr>w_errno := 0\<rparr>)
                | Signaled \<Rightarrow> (-1, w\<lparr>w_errno := EINTR\<rparr>))))"

definition systemv :: "'aug authd \<Rightarrow> string list option \<Rightarrow> world \<Rightarrow> int \<times> world" where
  "systemv a args w = fsystemv a args w"

text \<open>The output of the program is not modelled.\<close>

definition systemv_silent :: "'aug authd \<Rightarrow> string list option \<Rightarrow> world \<Rightarrow> int \<times> world" where
  "systemv_silent a args w = fsystemv a args w"

section \<open>Users\<close>

definition is_alpha :: "char \<Rightarrow> bool" where
  "is_alpha c = (let n = (of_char c :: nat) in (65 \<le> n \<and> n \<le> 90) \<or> (97 \<le> n \<and> n \<le> 122))"

definition is_alnum :: "char \<Rightarrow> bool" where
  "is_alnum c = (is_alpha c \<or> is_digit c)"

definition is_valid_username :: "string \<Rightarrow> bool" where
  "is_valid_username user =
     (case user of
        [] \<Rightarrow> False
      | c # cs \<Rightarrow>
          (is_alpha c \<or> c = CHR ''_'') \<and>
          list_all (\<lambda>c. is_alnum c \<or> c = CHR ''_'' \<or> c = CHR ''-'' \<or> c = CHR ''.'') cs)"

definition keys_file :: "cstr \<Rightarrow> string" where
  "keys_file user = ''/var/run/sshd/'' @ pstr user @ ''.keys''"

definition sys_del_user :: "'aug authd \<Rightarrow> string \<Rightarrow> world \<Rightarrow> int \<times> world" where
  "sys_del_user a user w =
     (case systemv_silent a (Some [''deluser'', user]) (remove_file (keys_file (Some user)) w) of
        (err, w) \<Rightarrow> (if err \<noteq> 0 then SR_ERR_SYS else SR_ERR_OK, w))"

definition sys_add_new_user :: "'aug authd \<Rightarrow> string \<Rightarrow> world \<Rightarrow> int \<times> world" where
  "sys_add_new_user a name w =
     (let shell = a_shell a;
          sargs = [''adduser'', ''-D'', ''-s'', shell, ''-S'', ''-G'', ''wheel'', name];
          uargs = [''adduser'', ''-D'', ''-s'', shell, name];
          args = (if name = ''admin'' then sargs else uargs);
          args = (if \<not> a_which a shell then args[2 := ''/bin/sh''] else args)
      in case systemv_silent a (Some args) w of
           (err, w) \<Rightarrow> (if err \<noteq> 0 then SR_ERR_SYS else SR_ERR_OK, w))"

section \<open>Changes\<close>

datatype sr_op = SR_OP_CREATED | SR_OP_MODIFIED | SR_OP_DELETED | SR_OP_MOVED

text \<open>The old and the new value, each with its path.\<close>

record sr_change =
  c_op :: sr_op
  c_old :: "(string \<times> sr_val) option"
  c_new :: "(string \<times> sr_val) option"

type_synonym 'aug auth_step = "sr_change \<Rightarrow> 'aug \<times> world \<Rightarrow> (int \<times> 'aug \<times> world) option"

fun change_loop :: "'aug auth_step \<Rightarrow> sr_change list \<Rightarrow> 'aug \<times> world \<Rightarrow> (int \<times> 'aug \<times> world) option" where
  "change_loop cb [] s = Some (SR_ERR_OK, s)"
| "change_loop cb (c # cs) s =
     do { (err, s) \<leftarrow> cb c s; if err \<noteq> 0 then Some (err, s) else change_loop cb cs s }"

text \<open>\<open>_sr_change_iter\<close>; the changes are the answer of \<open>sr_dup_changes_iter\<close> for the path.\<close>

definition sr_change_iter ::
  "(string \<Rightarrow> int \<times> sr_change list) \<Rightarrow> string \<Rightarrow> 'aug auth_step \<Rightarrow> 'aug \<times> world \<Rightarrow>
   (int \<times> 'aug \<times> world) option" where
  "sr_change_iter changes xpath cb s =
     (case changes xpath of
        (err, cs) \<Rightarrow> if err \<noteq> 0 then Some (err, s) else change_loop cb cs s)"

definition old_or_new :: "sr_change \<Rightarrow> (string \<times> sr_val) option" where
  "old_or_new c = (case c_old c of Some v \<Rightarrow> Some v | None \<Rightarrow> c_new c)"

definition aug_set_dynpath :: "'aug authd \<Rightarrow> 'aug \<Rightarrow> string \<Rightarrow> string \<Rightarrow> int \<times> 'aug" where
  "aug_set_dynpath a aug val path = aug_set a aug path val"

definition handle_sr_passwd_update :: "'aug authd \<Rightarrow> 'aug auth_step" where
  "handle_sr_passwd_update a change s =
     (case s of (aug, w) \<Rightarrow>
      do {
        (xpath, v) \<leftarrow> old_or_new change;
        user \<leftarrow> a_key a xpath;
        let set_password = (\<lambda>hash.
              case aug_set_dynpath a aug hash (''etc/shadow/'' @ user @ ''/password'') of
                (rc, aug) \<Rightarrow> Some (if rc \<noteq> 0 then SR_ERR_SYS else SR_ERR_OK, aug, w));
        if \<not> a_getpwnam a user (w_fs w) then Some (SR_ERR_OK, aug, w)
        else if c_op change \<in> {SR_OP_CREATED, SR_OP_MODIFIED} then
          do {
            (p, new) \<leftarrow> c_new change;
            case new of
              SrString hash \<Rightarrow>
                if hash = [] then Some (SR_ERR_INTERNAL, aug, w) else set_password hash
            | _ \<Rightarrow> Some (SR_ERR_INTERNAL, aug, w)
          }
        else if c_op change = SR_OP_DELETED then set_password ''!''
        else Some (SR_ERR_OK, aug, w)
      })"

definition check_sr_user_update :: "'aug authd \<Rightarrow> 'aug auth_step" where
  "check_sr_user_update a change s =
     do {
       (xpath, v) \<leftarrow> old_or_new change;
       name \<leftarrow> a_key a xpath;
       if \<not> is_valid_username name then Some (SR_ERR_VALIDATION_FAILED, s) else Some (SR_ERR_OK, s)
     }"

definition handle_sr_user_update :: "'aug authd \<Rightarrow> 'aug auth_step" where
  "handle_sr_user_update a change s =
     (case s of (aug, w) \<Rightarrow>
      (case c_op change of
         SR_OP_CREATED \<Rightarrow>
           do {
             (xpath, v) \<leftarrow> c_new change;
             name \<leftarrow> a_key a xpath;
             let (err, w) = sys_add_new_user a name w;
             Some (err, aug, w)
           }
       | SR_OP_DELETED \<Rightarrow>
           do {
             (xpath, v) \<leftarrow> c_old change;
             name \<leftarrow> a_key a xpath;
             let (err, w) = sys_del_user a name w;
             Some (err, aug, w)
           }
       | _ \<Rightarrow> Some (SR_ERR_OK, aug, w)))"

section \<open>SSH keys\<close>

text \<open>The nodes \<open>LYX_LIST_FOR_EACH\<close> visits; a node without a schema is a crash.\<close>

fun list_nodes :: "string \<Rightarrow> lyd_ref list \<Rightarrow> lyd_ref list option" where
  "list_nodes name [] = Some []"
| "list_nodes name (r # rs) =
     do {
       is \<leftarrow> streq (n_schema (r_node r)) name;
       rest \<leftarrow> list_nodes name rs;
       Some (if is then r # rest else rest)
     }"

definition lyx_list_is_empty :: "lyd_ptr \<Rightarrow> string \<Rightarrow> bool option" where
  "lyx_list_is_empty parent name =
     map_option (\<lambda>nodes. length nodes = 0) (list_nodes name (LY_LIST_FOR parent))"

definition key_line :: "cstr \<Rightarrow> lyd_ref \<Rightarrow> string" where
  "key_line username key =
     pstr (lydx_get_cattr (Some key) ''algorithm'') @ '' '' @
     pstr (lydx_get_cattr (Some key) ''key-data'') @ '' '' @
     pstr (case lydx_get_cattr (Some key) ''name'' of None \<Rightarrow> username | n \<Rightarrow> n) @ nl"

definition user_keys :: "os \<Rightarrow> lyd_ref \<Rightarrow> world \<Rightarrow> world option" where
  "user_keys os user w =
     (let username = lydx_get_cattr (Some user) ''name'' in
      do {
        empty \<leftarrow> lyx_list_is_empty (lyd_child (Some user)) ''authorized-key'';
        if empty then Some (remove_file (keys_file username) w)
        else (case fopen os (keys_file username) ''w'' w of
                (None, w) \<Rightarrow> Some w
              | (Some fp, w) \<Rightarrow>
                  do {
                    keys \<leftarrow> list_nodes ''authorized-key'' (LY_LIST_FOR (lyd_child (Some user)));
                    Some (fput fp (concat (map (key_line username) keys)) w)
                  })
      })"

fun users_keys :: "os \<Rightarrow> lyd_ref list \<Rightarrow> world \<Rightarrow> world option" where
  "users_keys os [] w = Some w"
| "users_keys os (user # users) w = do { w \<leftarrow> user_keys os user w; users_keys os users w }"

text \<open>\<open>cfg\<close> is the answer of \<open>sr_get_data\<close>.\<close>

definition generate_auth_keys :: "os \<Rightarrow> int \<times> lyd_ptr option \<Rightarrow> world \<Rightarrow> (int \<times> world) option" where
  "generate_auth_keys os cfg w =
     (case cfg of (err, data) \<Rightarrow>
      if err \<noteq> 0 then Some (err, w)
      else do {
        tree \<leftarrow> data;
        case lydx_get_descendant tree [''system'', ''authentication''] of
          None \<Rightarrow> Some (0, w)
        | Some auth \<Rightarrow>
            do {
              users \<leftarrow> list_nodes ''user'' (LY_LIST_FOR (lyd_child (Some auth)));
              w \<leftarrow> users_keys os users w;
              Some (0, w)
            }
      })"

section \<open>The callback for authentication\<close>

text \<open>What sysrepo hands over with the event.\<close>

record auth_event =
  e_changes :: "string \<Rightarrow> int \<times> sr_change list"
  e_data :: "int \<times> lyd_ptr option"

definition change_auth_check ::
  "'aug authd \<Rightarrow> auth_event \<Rightarrow> 'aug \<times> world \<Rightarrow> (int \<times> 'aug \<times> world) option" where
  "change_auth_check a ev s =
     sr_change_iter (e_changes ev) ''/ietf-system:system/authentication/user'' (check_sr_user_update a) s"

definition change_auth_done ::
  "os \<Rightarrow> 'aug authd \<Rightarrow> auth_event \<Rightarrow> 'aug \<times> world \<Rightarrow> (int \<times> 'aug \<times> world) option" where
  "change_auth_done os a ev s =
     do {
       (err, aug, w) \<leftarrow> sr_change_iter (e_changes ev) ''/ietf-system:system/authentication/user''
                          (handle_sr_user_update a) s;
       if err \<noteq> 0 then Some (err, aug, w)
       else (case aug_load a aug (w_fs w) of
         (rc, aug) \<Rightarrow>
           if rc \<noteq> 0 then Some (SR_ERR_INTERNAL, aug, w)
           else do {
             (err, aug, w) \<leftarrow> sr_change_iter (e_changes ev)
               ''/ietf-system:system/authentication/user[*]/password'' (handle_sr_passwd_update a) (aug, w);
             if err \<noteq> 0 then Some (err, aug, w)
             else (case aug_save a aug (w_fs w) of
               (rc, fs) \<Rightarrow>
                 let w = w\<lparr>w_fs := fs\<rparr> in
                 if rc \<noteq> 0 then Some (SR_ERR_SYS, aug, w)
                 else do {
                   (err, w) \<leftarrow> generate_auth_keys os (e_data ev) w;
                   Some (if err \<noteq> 0 then err else SR_ERR_OK, aug, w)
                 })
           })
     }"

definition change_auth ::
  "os \<Rightarrow> 'aug authd \<Rightarrow> sr_event \<Rightarrow> auth_event \<Rightarrow> 'aug \<times> world \<Rightarrow> (int \<times> 'aug \<times> world) option" where
  "change_auth os a event ev s =
     (if event = SR_EV_CHANGE then change_auth_check a ev s
      else if event = SR_EV_DONE then change_auth_done os a ev s
      else Some (SR_ERR_OK, s))"

section \<open>Host name\<close>

definition sys_reload_services :: "os \<Rightarrow> world \<Rightarrow> int \<times> world" where
  "sys_reload_services os w = systemf os ''initctl -nbq touch sysklogd lldpd'' w"

text \<open>The loop over the entries of \<open>/etc/hosts\<close>: after a first error nothing more is set.\<close>

fun rename_hosts :: "'aug authd \<Rightarrow> string \<Rightarrow> string \<Rightarrow> string list \<Rightarrow> int \<Rightarrow> 'aug \<Rightarrow> int \<times> 'aug" where
  "rename_hosts a current nm [] err aug = (err, aug)"
| "rename_hosts a current nm (h # hosts) err aug =
     (if aug_get a aug h = Some current \<and> err = 0 then
        (case aug_set a aug h nm of (err, aug) \<Rightarrow> rename_hosts a current nm hosts err aug)
      else rename_hosts a current nm hosts err aug)"

definition change_hostname ::
  "os \<Rightarrow> 'aug authd \<Rightarrow> sr_event \<Rightarrow> cstr \<Rightarrow> 'aug \<times> world \<Rightarrow> int \<times> 'aug \<times> world" where
  "change_hostname os a event name s =
     (case s of (aug, w) \<Rightarrow>
      if event \<noteq> SR_EV_DONE then (SR_ERR_OK, aug, w)
      else
        (let nm = (case name of None \<Rightarrow> ''infix'' | Some n \<Rightarrow> n) in
         case aug_get a aug ''etc/hostname/hostname'' of
           None \<Rightarrow> (SR_ERR_INTERNAL, aug, w)
         | Some current \<Rightarrow>
             (let err = a_sethostname a nm;
                  (err, aug) = (if err \<noteq> 0 then (err, aug) else aug_set a aug ''etc/hostname/hostname'' nm);
                  (err, aug) = rename_hosts a current nm (aug_match a aug ''etc/hosts/*/canonical'') err aug
              in if err \<noteq> 0 then (err, aug, w)
                 else (case aug_save a aug (w_fs w) of
                   (rc, fs) \<Rightarrow>
                     (case sys_reload_services os (w\<lparr>w_fs := fs\<rparr>) of
                        (rc, w) \<Rightarrow> (if rc \<noteq> 0 then SR_ERR_SYS else SR_ERR_OK, aug, w))))))"

section \<open>Properties\<close>

lemma is_digit_code: "is_digit c \<Longrightarrow> 48 \<le> (of_char c :: nat) \<and> (of_char c :: nat) \<le> 57"
  unfolding is_digit_def digit_of_def Let_def by (simp split: if_splits option.splits)

lemma username_char:
  assumes "is_alnum c \<or> c = CHR ''_'' \<or> c = CHR ''-'' \<or> c = CHR ''.''"
  shows "c \<noteq> CHR ''/'' \<and> safe_char c"
proof (cases "is_alnum c")
  case True
  then have "(48 \<le> (of_char c :: nat) \<and> (of_char c :: nat) \<le> 57) \<or>
      (65 \<le> (of_char c :: nat) \<and> (of_char c :: nat) \<le> 90) \<or>
      (97 \<le> (of_char c :: nat) \<and> (of_char c :: nat) \<le> 122)"
    unfolding is_alnum_def is_alpha_def Let_def using is_digit_code by blast
  moreover have "(of_char (CHR ''/'') :: nat) = 47" by simp
  ultimately show ?thesis unfolding safe_char_def Let_def by force
next
  case False
  with assms show ?thesis by (auto simp: safe_char_def Let_def)
qed

lemma username_first:
  assumes "is_alpha c \<or> c = CHR ''_''"
  shows "c \<noteq> CHR ''-'' \<and> c \<noteq> CHR ''.'' \<and> is_alnum c \<or> c = CHR ''_''"
  using assms by (auto simp: is_alpha_def is_alnum_def Let_def)

lemma valid_username_chars:
  assumes "is_valid_username name"
  shows "name \<noteq> []" "CHR ''/'' \<notin> set name" "hd name \<noteq> CHR ''-''" "hd name \<noteq> CHR ''.''" "shell_safe name"
proof -
  obtain c cs where n: "name = c # cs" using assms by (cases name) (auto simp: is_valid_username_def)
  have c: "is_alpha c \<or> c = CHR ''_''" using assms by (simp add: n is_valid_username_def)
  then have c': "c \<noteq> CHR ''-'' \<and> c \<noteq> CHR ''.''" "c \<noteq> CHR ''/'' \<and> safe_char c"
    using username_first [OF c] username_char [of c] by auto
  have "\<forall>d \<in> set cs. d \<noteq> CHR ''/'' \<and> safe_char d"
    using assms username_char by (fastforce simp: n is_valid_username_def list_all_iff)
  with c' show "name \<noteq> []" "CHR ''/'' \<notin> set name" "hd name \<noteq> CHR ''-''" "hd name \<noteq> CHR ''.''"
    "shell_safe name"
    by (auto simp: n shell_safe_def list_all_iff)
qed

lemma check_loop_valid:
  assumes "change_loop (check_sr_user_update a) cs s = Some (0, s')"
  shows "s' = s \<and> (\<forall>c \<in> set cs. \<forall>xp v name. old_or_new c = Some (xp, v) \<longrightarrow> a_key a xp = Some name \<longrightarrow>
    is_valid_username name)"
  using assms
  by (induction cs)
    (auto simp: check_sr_user_update_def sr_err_defs SR_ERR_VALIDATION_FAILED_def
      split: Option.bind_splits if_splits)


text \<open>If the login shell is not installed, the fallback overwrites the option \<open>-s\<close> instead of its
  argument: \<open>adduser\<close> is called with the two shells as operands before the name of the user.\<close>

theorem missing_shell_breaks_adduser:
  assumes "\<not> a_which a (a_shell a)" "name \<noteq> ''admin''"
  shows "w_log (snd (sys_add_new_user a name w)) =
    w_log w @ [''adduser -D /bin/sh '' @ a_shell a @ '' '' @ name]"
  using assms
  by (auto simp: sys_add_new_user_def systemv_silent_def fsystemv_def Let_def numeral_2_eq_2
      split: prod.splits child.splits)

text \<open>The file \<open>q\<close> is a plain file or not there.\<close>

definition plain_or_absent :: "world \<Rightarrow> string \<Rightarrow> bool" where
  "plain_or_absent w q = (case w_fs w q of None \<Rightarrow> True | Some (FFile c m) \<Rightarrow> True | _ \<Rightarrow> False)"

lemma fopen_w_plain:
  assumes "plain_or_absent w p" "\<forall>p m fs. os_open os p m fs = 0"
  shows "fopen os p ''w'' w = (Some p, snd (fopen os p ''w'' w))"
  using assms by (simp add: plain_or_absent_def fopen_def split: option.splits fnode.splits)

lemma user_keys_text:
  assumes ks: "list_nodes ''authorized-key'' (LY_LIST_FOR (lyd_child (Some user))) = Some ks"
    and n: "lydx_get_cattr (Some user) ''name'' = Some n"
    and "\<forall>p m fs. os_open os p m fs = 0" "plain_or_absent w (keys_file (Some n))"
  shows "\<exists>w'. user_keys os user w = Some w' \<and>
    text_of w' (keys_file (Some n)) =
      (if ks = [] then None else Some (concat (map (key_line (Some n)) ks))) \<and>
    (\<forall>q. q \<noteq> keys_file (Some n) \<longrightarrow> w_fs w' q = w_fs w q)"
proof (cases "ks = []")
  case True
  then show ?thesis
    using ks n by (simp add: user_keys_def lyx_list_is_empty_def text_of_def)
next
  case False
  obtain w1 where f: "fopen os (keys_file (Some n)) ''w'' w = (Some (keys_file (Some n)), w1)"
    using fopen_w_plain [OF assms(4,3)] by blast
  show ?thesis
    using False ks n f fopen_w_put [OF f, of "concat (map (key_line (Some n)) ks)"]
    by (simp add: user_keys_def lyx_list_is_empty_def Let_def)
qed

lemma keys_file_inj: "keys_file (Some m) = keys_file (Some n) \<longleftrightarrow> m = n"
  by (simp add: keys_file_def)

text \<open>The text of the keys of a user, from the configuration.\<close>

definition keys_text :: "lyd_ref \<Rightarrow> string option" where
  "keys_text user =
     (case list_nodes ''authorized-key'' (LY_LIST_FOR (lyd_child (Some user))) of
        None \<Rightarrow> None
      | Some ks \<Rightarrow>
          if ks = [] then None
          else Some (concat (map (key_line (lydx_get_cattr (Some user) ''name'')) ks)))"

definition user_ok :: "world \<Rightarrow> lyd_ref \<Rightarrow> bool" where
  "user_ok w user =
     (lydx_get_cattr (Some user) ''name'' \<noteq> None \<and>
      list_nodes ''authorized-key'' (LY_LIST_FOR (lyd_child (Some user))) \<noteq> None \<and>
      plain_or_absent w (keys_file (lydx_get_cattr (Some user) ''name'')))"

lemma users_keys_texts:
  assumes "\<forall>p m fs. os_open os p m fs = 0" "list_all (user_ok w) users"
    and "distinct (map (\<lambda>u. lydx_get_cattr (Some u) ''name'') users)"
  shows "\<exists>w'. users_keys os users w = Some w' \<and>
    (\<forall>u \<in> set users. text_of w' (keys_file (lydx_get_cattr (Some u) ''name'')) = keys_text u) \<and>
    (\<forall>q. q \<notin> (\<lambda>u. keys_file (lydx_get_cattr (Some u) ''name'')) ` set users \<longrightarrow> w_fs w' q = w_fs w q)"
  using assms(2,3)
proof (induction users arbitrary: w)
  case (Cons u users)
  obtain n ks where n: "lydx_get_cattr (Some u) ''name'' = Some n"
      "list_nodes ''authorized-key'' (LY_LIST_FOR (lyd_child (Some u))) = Some ks"
      "plain_or_absent w (keys_file (Some n))"
    using Cons.prems(1) by (auto simp: user_ok_def)
  obtain w1 where w1: "user_keys os u w = Some w1" "text_of w1 (keys_file (Some n)) = keys_text u"
      "\<forall>q. q \<noteq> keys_file (Some n) \<longrightarrow> w_fs w1 q = w_fs w q"
    using user_keys_text [OF n(2,1) assms(1) n(3)] by (auto simp: keys_text_def n)
  have other: "keys_file (lydx_get_cattr (Some v) ''name'') \<noteq> keys_file (Some n)" if v: "v \<in> set users" for v
  proof -
    obtain m where m: "lydx_get_cattr (Some v) ''name'' = Some m"
      using v Cons.prems(1) by (auto simp: list_all_iff user_ok_def)
    moreover have "lydx_get_cattr (Some v) ''name'' \<noteq> lydx_get_cattr (Some u) ''name''"
      using v Cons.prems(2) by (auto simp: image_def)
    ultimately show ?thesis using n(1) by (simp add: keys_file_inj)
  qed
  have "list_all (user_ok w1) users"
    using Cons.prems(1) other w1(3) by (auto simp: list_all_iff user_ok_def plain_or_absent_def)
  then obtain w2 where w2: "users_keys os users w1 = Some w2"
      "\<forall>u \<in> set users. text_of w2 (keys_file (lydx_get_cattr (Some u) ''name'')) = keys_text u"
      "\<forall>q. q \<notin> (\<lambda>u. keys_file (lydx_get_cattr (Some u) ''name'')) ` set users \<longrightarrow> w_fs w2 q = w_fs w1 q"
    using Cons.IH [of w1] Cons.prems(2) by auto
  have nin: "keys_file (Some n) \<notin> (\<lambda>u. keys_file (lydx_get_cattr (Some u) ''name'')) ` set users"
  proof
    assume "keys_file (Some n) \<in> (\<lambda>u. keys_file (lydx_get_cattr (Some u) ''name'')) ` set users"
    then obtain v where "v \<in> set users" "keys_file (Some n) = keys_file (lydx_get_cattr (Some v) ''name'')"
      by (rule imageE)
    with other [of v] show False by simp
  qed
  have "text_of w2 (keys_file (Some n)) = keys_text u"
    using w2(3) [rule_format, OF nin] w1(2) by (simp add: text_of_def)
  then have "\<forall>v \<in> set (u # users). text_of w2 (keys_file (lydx_get_cattr (Some v) ''name'')) = keys_text v"
    using w2(2) n(1) by simp
  moreover have "users_keys os (u # users) w = Some w2" by (simp add: w1(1) w2(1))
  moreover have "\<forall>q. q \<notin> (\<lambda>u. keys_file (lydx_get_cattr (Some u) ''name'')) ` set (u # users) \<longrightarrow>
      w_fs w2 q = w_fs w q"
    using w2(3) w1(3) n(1) by simp
  ultimately show ?case by blast
qed simp

text \<open>C23. After the keys have been generated, every user in the configuration has a file with exactly one
  line for each of its authorized keys, in their order, or no file if it has none; nothing else
  changes.\<close>

theorem auth_keys_written:
  assumes "lydx_get_descendant tree [''system'', ''authentication''] = Some auth"
    and "list_nodes ''user'' (LY_LIST_FOR (lyd_child (Some auth))) = Some users"
    and "\<forall>p m fs. os_open os p m fs = 0" "list_all (user_ok w) users"
    and "distinct (map (\<lambda>u. lydx_get_cattr (Some u) ''name'') users)"
  shows "\<exists>w'. generate_auth_keys os (0, Some tree) w = Some (0, w') \<and>
    (\<forall>u \<in> set users. text_of w' (keys_file (lydx_get_cattr (Some u) ''name'')) = keys_text u) \<and>
    (\<forall>q. q \<notin> (\<lambda>u. keys_file (lydx_get_cattr (Some u) ''name'')) ` set users \<longrightarrow> w_fs w' q = w_fs w q)"
  using users_keys_texts [OF assms(3-5)] assms(1,2) by (auto simp: generate_auth_keys_def)

section \<open>A small configuration\<close>

definition leaf :: "string \<Rightarrow> string \<Rightarrow> lyd_node" where
  "leaf name val = LydNode (Some name) (Some val) False [] None []"

definition node :: "string \<Rightarrow> lyd_node list \<Rightarrow> lyd_node" where
  "node name cs = LydNode (Some name) None False [] None cs"

definition demo_bob :: lyd_node where
  "demo_bob = node ''user'' [leaf ''name'' ''bob'', node ''authorized-key''
     [leaf ''name'' ''bob@host'', leaf ''algorithm'' ''ssh-rsa'', leaf ''key-data'' ''AAAA'']]"

definition demo_eve :: lyd_node where
  "demo_eve = node ''user'' [leaf ''name'' ''eve'']"

definition demo_auth :: lyd_node where
  "demo_auth = node ''authentication'' [demo_bob, demo_eve]"

definition demo_system :: lyd_node where
  "demo_system = node ''system'' [demo_auth]"

definition demo_tree :: lyd_ptr where
  "demo_tree = Some (LydRef demo_system [] [])"

definition demo_users :: "lyd_ref list" where
  "demo_users = [LydRef demo_bob [demo_eve] [demo_auth, demo_system], LydRef demo_eve [] [demo_auth, demo_system]]"

definition demo_authd :: "unit authd" where
  "demo_authd = \<lparr>a_exec = (\<lambda>argv fs. (Exited 0, fs)), a_getpwnam = (\<lambda>u fs. True), a_key = (\<lambda>p. Some p),
     a_shell = ''/bin/clish'', a_which = (\<lambda>p. p = ''/bin/sh''), a_sethostname = (\<lambda>n. 0),
     aug_set = (\<lambda>a p v. (0, a)), aug_get = (\<lambda>a p. None), aug_match = (\<lambda>a p. []),
     aug_load = (\<lambda>a fs. (0, a)), aug_save = (\<lambda>a fs. (0, fs))\<rparr>"

definition demo_auth_os :: os where
  "demo_auth_os = \<lparr>os_sh = (\<lambda>cmd fs. (0, 0, fs)), os_open = (\<lambda>p m fs. 0), os_chmod = (\<lambda>p. True),
     os_ifindex = (\<lambda>x. True), os_popen_json = (\<lambda>c. None), os_json_str = (\<lambda>j k. None)\<rparr>"

definition demo_auth_world :: world where
  "demo_auth_world =
     \<lparr>w_fs = [''/var/run/sshd/eve.keys'' \<mapsto> FFile ''old'' False], w_errno = 0, w_log = []\<rparr>"


theorem missing_shell_breaks_adduser_witness:
  "w_log (snd (sys_add_new_user demo_authd ''bob'' demo_auth_world)) = [''adduser -D /bin/sh /bin/clish bob'']"
  using missing_shell_breaks_adduser [of demo_authd "''bob''" demo_auth_world]
  by (simp add: demo_authd_def demo_auth_world_def)

theorem auth_keys_written_witness:
  "\<exists>w'. generate_auth_keys demo_auth_os (0, Some demo_tree) demo_auth_world = Some (0, w') \<and>
     text_of w' ''/var/run/sshd/bob.keys'' = Some (''ssh-rsa AAAA bob@host'' @ nl) \<and>
     text_of w' ''/var/run/sshd/eve.keys'' = None"
proof -
  have t: "lydx_get_descendant demo_tree [''system'', ''authentication''] =
      Some (LydRef demo_auth [] [demo_system])"
    by code_simp
  have u: "list_nodes ''user'' (LY_LIST_FOR (lyd_child (Some (LydRef demo_auth [] [demo_system])))) = Some demo_users"
    by code_simp
  have o: "\<forall>p m fs. os_open demo_auth_os p m fs = 0" by (simp add: demo_auth_os_def)
  have k: "list_all (user_ok demo_auth_world) demo_users" by code_simp
  have d: "distinct (map (\<lambda>u. lydx_get_cattr (Some u) ''name'') demo_users)" by code_simp
  have e: "map (\<lambda>u. (keys_file (lydx_get_cattr (Some u) ''name''), keys_text u)) demo_users =
      [(''/var/run/sshd/bob.keys'', Some (''ssh-rsa AAAA bob@host'' @ nl)), (''/var/run/sshd/eve.keys'', None)]"
    by code_simp
  from auth_keys_written [OF t u o k d] obtain w' where
      "generate_auth_keys demo_auth_os (0, Some demo_tree) demo_auth_world = Some (0, w')"
      "\<forall>u \<in> set demo_users. text_of w' (keys_file (lydx_get_cattr (Some u) ''name'')) = keys_text u"
    by blast
  moreover from this(2) have "\<forall>(p, t) \<in> set (map (\<lambda>u. (keys_file (lydx_get_cattr (Some u) ''name''), keys_text u))
      demo_users). text_of w' p = t"
    by simp
  ultimately show ?thesis unfolding e by simp
qed

end
