(* ===== verification/SysInfo.thy ===== *)
theory SysInfo
  imports SrxVal Helpers
begin

text \<open>
  The operational data and the remote procedure calls of \<open>src/src/confd/src/confd/ietf-system.c\<close>:
  the identity of the system from \<open>os-release\<close>, the clock, and setting the time.  The C library's
  calendar (\<open>strftime\<close>, \<open>strptime\<close>, \<open>mktime\<close>) and the kernel's clock are parameters.
  \<^const>\<open>None\<close> is an access outside a buffer.
\<close>

section \<open>Identity of the system\<close>

definition strip_quotes :: "string \<Rightarrow> string" where
  "strip_quotes str =
     (let s = dropWhile (\<lambda>c. is_space c \<or> c = CHR 0x22) str in
      case rindex s (CHR 0x22) of
        None \<Rightarrow> s
      | Some t \<Rightarrow> if length t = length s then s else take (length s - length t) s)"

definition setvar :: "string \<Rightarrow> string \<Rightarrow> cstr \<Rightarrow> cstr" where
  "setvar line nm var =
     (case dropWhile (\<lambda>c. c \<noteq> CHR ''='') line of
        [] \<Rightarrow> var
      | e # rest \<Rightarrow> if has_prefix nm line then Some (strip_quotes rest) else var)"

record os_vars =
  v_ver :: cstr
  v_rel :: cstr
  v_sys :: cstr
  v_os :: cstr

definition os_line :: "string \<Rightarrow> os_vars \<Rightarrow> os_vars" where
  "os_line line v =
     (let line = butlast line in
      v\<lparr>v_os := setvar line ''NAME'' (v_os v), v_ver := setvar line ''VERSION_ID'' (v_ver v),
        v_rel := setvar line ''BUILD_ID'' (v_rel v), v_sys := setvar line ''ARCHITECTURE'' (v_sys v)\<rparr>)"

text \<open>\<open>uts\<close> is the answer of \<open>uname\<close>: system name, release and machine.\<close>

definition os_init :: "os \<Rightarrow> (string \<times> string \<times> string) option \<Rightarrow> world \<Rightarrow> os_vars \<times> world" where
  "os_init os uts w =
     (let v = (case uts of
                 None \<Rightarrow> \<lparr>v_ver = None, v_rel = None, v_sys = None, v_os = None\<rparr>
               | Some (sysname, release, machine) \<Rightarrow>
                   \<lparr>v_ver = Some release, v_rel = Some release, v_sys = Some machine,
                    v_os = Some sysname\<rparr>) in
      case fopen os ''/etc/os-release'' ''r'' w of
        (Some fp, w) \<Rightarrow> (fold os_line (read_lines 80 (file_text w fp)) v, w)
      | (None, w) \<Rightarrow>
          (case fopen os ''/usr/lib/os-release'' ''r'' w of
             (None, w) \<Rightarrow> (v, w)
           | (Some fp, w) \<Rightarrow> (fold os_line (read_lines 80 (file_text w fp)) v, w)))"

section \<open>Time stamps\<close>

text \<open>\<open>fmtime\<close> on the text \<open>strftime\<close> wrote into a buffer of \<open>len\<close> bytes: a colon is put into the
  offset from UTC.\<close>

definition fmtime :: "string \<Rightarrow> nat \<Rightarrow> string option" where
  "fmtime buf len =
     (let n = length buf; i = n - 5 in
      if n < 5 then None
      else if buf ! i = CHR ''+'' \<or> buf ! i = CHR ''-'' then
        if len < i + 7 then None else Some (take (i + 3) buf @ '':'' @ drop (i + 3) buf)
      else Some buf)"

text \<open>The first half of \<open>rpc_set_datetime\<close>: the text for \<open>strptime\<close> and its format.\<close>

definition datetime_arg :: "string \<Rightarrow> (string \<times> string) option" where
  "datetime_arg buf =
     (let n = length buf in
      if n < 3 then None
      else if buf ! (n - 3) = CHR '':'' then
        if n < 6 then None
        else if buf ! (n - 6) = CHR ''+'' \<or> buf ! (n - 6) = CHR ''-'' then
          Some (take (n - 3) buf @ drop (n - 2) buf, ''%FT%T%z'')
        else Some (buf, ''%FT%TZ'')
      else Some (buf, ''%FT%TZ''))"

text \<open>\<open>c_strptime\<close> gives the broken-down time and its offset from UTC in seconds, \<open>c_mktime\<close> takes
  the value of \<open>TZ\<close>.\<close>

record 'tm calendar =
  c_strptime :: "string \<Rightarrow> string \<Rightarrow> ('tm \<times> int) option"
  c_mktime :: "string \<Rightarrow> 'tm \<Rightarrow> int"
  c_settimeofday :: "int \<Rightarrow> bool"

definition cdiv :: "int \<Rightarrow> int \<Rightarrow> int" where
  "cdiv a b = (if a < 0 then - ((- a) div b) else a div b)"

text \<open>The rest of \<open>rpc_set_datetime\<close>.  \<open>rc\<close> is the static variable of the source; the result is its
  value, which is also returned, and the time the clock was set to.\<close>

definition rpc_set_datetime ::
  "'tm calendar \<Rightarrow> string \<Rightarrow> int \<Rightarrow> (int \<times> int option) option" where
  "rpc_set_datetime cal input rc =
     do {
       (buf, isofmt) \<leftarrow> datetime_arg input;
       case c_strptime cal buf isofmt of
         None \<Rightarrow> Some (rc, None)
       | Some (tm, gmtoff) \<Rightarrow>
           (let tz = take 23 (''UTC'' @ (if 0 < gmtoff then ''+'' else []) @ dec_int (cdiv gmtoff 3600));
                sec = c_mktime cal tz tm
            in if \<not> c_settimeofday cal sec then Some (rc, None)
               else Some (SR_ERR_OK, Some sec))
     }"

definition rpc_exec :: "(string \<Rightarrow> int) \<Rightarrow> string \<Rightarrow> int" where
  "rpc_exec sys priv = (if sys priv \<noteq> 0 then SR_ERR_INTERNAL else SR_ERR_OK)"

section \<open>Operational data\<close>

definition CLOCK_PATH :: string where "CLOCK_PATH = ''/ietf-system:system-state/clock''"
definition PLATFORM_PATH :: string where "PLATFORM_PATH = ''/ietf-system:system-state/platform''"

text \<open>Nodes are added one after the other until one fails.  A value is handed to \<open>lydx_new_path\<close> as
  the format; a null pointer there is a crash.\<close>

fun add_nodes_at ::
  "('t option \<Rightarrow> string \<Rightarrow> string \<Rightarrow> int \<times> 't option) \<Rightarrow> string \<Rightarrow> (string \<times> cstr) list \<Rightarrow>
   bool \<Rightarrow> 't option \<Rightarrow> (int \<times> 't option) option" where
  "add_nodes_at new_path base [] first parent = Some (SR_ERR_OK, parent)"
| "add_nodes_at new_path base ((node, val) # nodes) first parent =
     do {
       val \<leftarrow> val;
       let (rc, parent, first) = lydx_new_path new_path parent first base node val;
       if rc \<noteq> 0 then Some (SR_ERR_INTERNAL, parent)
       else add_nodes_at new_path base nodes first parent
     }"

text \<open>\<open>strf t\<close> is what \<open>localtime_r\<close> and \<open>strftime\<close> make of a time; \<open>boottime\<close> is the static
  buffer, empty before the first call.\<close>

definition clock_cb ::
  "('t option \<Rightarrow> string \<Rightarrow> string \<Rightarrow> int \<times> 't option) \<Rightarrow> (int \<Rightarrow> string) \<Rightarrow> int \<Rightarrow> int \<Rightarrow> string \<Rightarrow>
   't option \<Rightarrow> (string \<times> int \<times> 't option) option" where
  "clock_cb new_path strf now uptime boottime parent =
     do {
       boottime \<leftarrow> (if boottime = [] then fmtime (strf (now - uptime)) 64 else Some boottime);
       curtime \<leftarrow> fmtime (strf now) 64;
       (rc, parent) \<leftarrow> add_nodes_at new_path CLOCK_PATH
         [(''boot-datetime'', Some boottime), (''current-datetime'', Some curtime)] True parent;
       Some (boottime, rc, parent)
     }"

definition platform_cb ::
  "('t option \<Rightarrow> string \<Rightarrow> string \<Rightarrow> int \<times> 't option) \<Rightarrow> os_vars \<Rightarrow> 't option \<Rightarrow> (int \<times> 't option) option" where
  "platform_cb new_path v parent =
     add_nodes_at new_path PLATFORM_PATH
       [(''os-name'', v_os v), (''os-release'', v_rel v), (''os-version'', v_ver v),
        (''machine'', v_sys v)] True parent"

section \<open>Properties\<close>

text \<open>C22. The time stamp shown in the operational data can be fed back: for any text with a numeric
  offset that fits the buffer, \<open>rpc_set_datetime\<close> recovers from the output of \<open>fmtime\<close> exactly what
  \<open>strftime\<close> had written, and reads it with the format it was written with.\<close>

theorem datetime_roundtrip:
  assumes "s = pre @ [sg, h1, h2, m1, m2]" "sg \<in> {CHR ''+'', CHR ''-''}" "length s + 2 \<le> len"
  shows "\<exists>t. fmtime s len = Some t \<and> datetime_arg t = Some (s, ''%FT%T%z'')"
proof -
  let ?t = "pre @ [sg, h1, h2, CHR '':'', m1, m2]"
  have "fmtime s len = Some ?t"
    using assms by (auto simp: fmtime_def Let_def nth_append)
  moreover have "datetime_arg ?t = Some (s, ''%FT%T%z'')"
    using assms(1,2) by (auto simp: datetime_arg_def Let_def nth_append)
  ultimately show ?thesis by blast
qed

theorem datetime_roundtrip_witness:
  "\<exists>t. fmtime ''2023-06-01T12:00:00+0200'' 64 = Some t \<and>
     datetime_arg t = Some (''2023-06-01T12:00:00+0200'', ''%FT%T%z'')"
  using datetime_roundtrip [of "''2023-06-01T12:00:00+0200''" "''2023-06-01T12:00:00''" "CHR ''+''"
      "CHR ''0''" "CHR ''2''" "CHR ''0''" "CHR ''0''" 64]
  by simp

text \<open>POSIX: in \<open>TZ=UTC+h\<close> the hours are those to be added to the local time to get UTC.
  \<open>secs\<close> is a broken-down time as seconds, taken as UTC.\<close>

definition posix_tz :: "'tm calendar \<Rightarrow> ('tm \<Rightarrow> int) \<Rightarrow> bool" where
  "posix_tz cal secs =
     (\<forall>h tm. \<bar>h\<bar> \<le> 24 \<longrightarrow>
        c_mktime cal (''UTC'' @ (if 0 < h then ''+'' else []) @ dec_int h) tm = secs tm + 3600 * h)"

lemma length_dec_small: "\<bar>h\<bar> \<le> 24 \<Longrightarrow> length (dec_int h) \<le> 3"
proof -
  assume "\<bar>h\<bar> \<le> 24"
  then have "nat \<bar>h\<bar> < 10 ^ Suc 1" by simp
  from length_dec_nat [OF this] show ?thesis by (cases "h < 0") (simp_all add: dec_int_def)
qed

text \<open>Setting the time with an offset of a whole number of hours other than zero sets the clock
  wrong by twice the offset: local time at the offset \<open>h\<close> is \<open>3600 * h\<close> seconds ahead of UTC, but the
  sign of the time zone handed to \<open>mktime\<close> is that of the offset.\<close>

theorem set_datetime_offset_inverted:
  assumes "posix_tz cal secs" "datetime_arg input = Some (buf, fmt)"
    and "c_strptime cal buf fmt = Some (tm, 3600 * h)" "\<bar>h\<bar> \<le> 24"
    and "\<forall>t. c_settimeofday cal t"
  shows "rpc_set_datetime cal input rc = Some (SR_ERR_OK, Some (secs tm - 3600 * h + 2 * (3600 * h)))"
proof -
  have d: "cdiv (3600 * h) 3600 = h" by (auto simp: cdiv_def)
  have t: "take 23 (''UTC'' @ (if 0 < h then ''+'' else []) @ dec_int h)
      = ''UTC'' @ (if 0 < h then ''+'' else []) @ dec_int h"
    using length_dec_small [OF assms(4)] by (intro take_all) simp
  show ?thesis
    using assms(1,4) unfolding rpc_set_datetime_def assms(2) bind.bind_lunit prod.case assms(3)
      option.case Let_def d
    using assms(5) by (simp add: posix_tz_def t [simplified])
qed

definition demo_calendar :: "int calendar" where
  "demo_calendar = \<lparr>c_strptime = (\<lambda>buf fmt. Some (36000, 7200)),
     c_mktime = (\<lambda>tz tm. tm + 3600 * fst (strtoll 10 (drop 3 tz))), c_settimeofday = (\<lambda>t. True)\<rparr>"

lemma demo_posix_tz: "posix_tz demo_calendar (\<lambda>tm. tm)"
proof -
  have "fst (strtoll 10 ((if 0 < h then ''+'' else []) @ dec_int h)) = h" if "\<bar>h\<bar> \<le> 24" for h
  proof (cases "0 < h")
    case True
    then have "dec_int h = dec_nat (nat h)" by (simp add: dec_int_def)
    with True that show ?thesis
      by (simp add: strtoll_def is_space_def strto_acc_dec_nat LLONG_MAX_def LLONG_MIN_def)
  next
    case False
    with that strto_sign_dec_int [of h "[]"] show ?thesis
      by (auto simp: strtoll_def strto_acc_dec_nat LLONG_MAX_def LLONG_MIN_def Let_def)
  qed
  then show ?thesis by (simp add: posix_tz_def demo_calendar_def)
qed

theorem set_datetime_offset_inverted_witness:
  "rpc_set_datetime demo_calendar ''1970-01-01T10:00:00+02:00'' SR_ERR_SYS
     = Some (SR_ERR_OK, Some (28800 + 2 * 7200))"
proof -
  have "datetime_arg ''1970-01-01T10:00:00+02:00'' = Some (''1970-01-01T10:00:00+0200'', ''%FT%T%z'')"
    by code_simp
  from set_datetime_offset_inverted [OF demo_posix_tz this, where h = 2 and tm = 36000 and rc = SR_ERR_SYS]
  show ?thesis by (simp add: demo_calendar_def)
qed

text \<open>A line of \<open>os-release\<close> with a quoted value.\<close>

lemma strip_quotes_quoted:
  assumes "CHR 0x22 \<notin> set v" "v \<noteq> []" "\<not> is_space (hd v)"
  shows "strip_quotes (CHR 0x22 # v @ [CHR 0x22]) = v"
proof -
  have "dropWhile (\<lambda>c. is_space c \<or> c = CHR 0x22) (CHR 0x22 # v @ [CHR 0x22]) = v @ [CHR 0x22]"
    using assms by (cases v) auto
  moreover have "rindex (v @ [CHR 0x22]) (CHR 0x22) = Some [CHR 0x22]" by simp
  ultimately show ?thesis using assms(2) by (simp add: strip_quotes_def)
qed

lemma setvar_quoted:
  assumes "CHR 0x22 \<notin> set v" "v \<noteq> []" "\<not> is_space (hd v)" "CHR ''='' \<notin> set key"
  shows "setvar (key @ CHR ''='' # CHR 0x22 # v @ [CHR 0x22]) nm var =
    (if has_prefix nm (key @ CHR ''='' # CHR 0x22 # v @ [CHR 0x22]) then Some v else var)"
proof -
  have "dropWhile (\<lambda>c. c \<noteq> CHR ''='') (key @ CHR ''='' # CHR 0x22 # v @ [CHR 0x22])
      = CHR ''='' # CHR 0x22 # v @ [CHR 0x22]"
    using assms(4) by (induction key) auto
  then show ?thesis using strip_quotes_quoted [OF assms(1-3)] by (simp add: setvar_def)
qed

definition os_entry :: "string \<Rightarrow> string \<Rightarrow> string" where
  "os_entry key v = key @ CHR ''='' # CHR 0x22 # v @ [CHR 0x22]"

definition os_value :: "string \<Rightarrow> bool" where
  "os_value v = (v \<noteq> [] \<and> \<not> is_space (hd v) \<and> CHR 0x22 \<notin> set v \<and> CHR 0x0A \<notin> set v \<and> length v < 60)"

lemma os_line_entry:
  assumes "os_value v"
  shows "os_line (os_entry ''NAME'' v @ nl) st = st\<lparr>v_os := Some v\<rparr>"
    "os_line (os_entry ''VERSION_ID'' v @ nl) st = st\<lparr>v_ver := Some v\<rparr>"
    "os_line (os_entry ''BUILD_ID'' v @ nl) st = st\<lparr>v_rel := Some v\<rparr>"
    "os_line (os_entry ''ARCHITECTURE'' v @ nl) st = st\<lparr>v_sys := Some v\<rparr>"
proof -
  have q: "setvar (os_entry key v) nm var = (if has_prefix nm (os_entry key v) then Some v else var)"
    if "CHR ''='' \<notin> set key" for key nm var
    using assms that setvar_quoted unfolding os_entry_def os_value_def by blast
  have b: "butlast (x @ nl) = x" for x by (simp add: nl_def)
  show "os_line (os_entry ''NAME'' v @ nl) st = st\<lparr>v_os := Some v\<rparr>"
    "os_line (os_entry ''VERSION_ID'' v @ nl) st = st\<lparr>v_ver := Some v\<rparr>"
    "os_line (os_entry ''BUILD_ID'' v @ nl) st = st\<lparr>v_rel := Some v\<rparr>"
    "os_line (os_entry ''ARCHITECTURE'' v @ nl) st = st\<lparr>v_sys := Some v\<rparr>"
    unfolding os_line_def b Let_def by (simp_all add: q) (simp_all add: os_entry_def)
qed



end
