(* ===== verification/ConfdCore.thy ===== *)
theory ConfdCore
  imports SrxVal Helpers SysInfo
begin

text \<open>
  The frame of the daemon: \<open>src/src/confd/src/confd/core.c\<close> and \<open>core.h\<close> (subscriptions, the hooks
  around every change and the set-up of the plugin), \<open>src/src/confd/src/lib/srx_module.c\<close> (required
  YANG modules), the set-up functions of \<open>ietf-interfaces.c\<close> and \<open>ietf-system.c\<close>, and the DHCP
  clients of \<open>src/src/confd/src/confd/infix-dhcp.c\<close>.

  Calls into sysrepo and Augeas are the fields of the record \<open>confd_env\<close>; each is the status the call
  returns.  \<^const>\<open>None\<close> is a write outside a buffer or the use of a null pointer.
\<close>

section \<open>Subscriptions\<close>

datatype session = Running | Startup | Cand

datatype subscr_flag = SR_SUBSCR_PASSIVE | SR_SUBSCR_UPDATE | SR_SUBSCR_DEFAULT

datatype subscription =
    SubChange (sub_session: session) (sub_module: string) (sub_xpath: string) (sub_cb: string)
      (sub_prio: u32) (sub_flags: "subscr_flag list")
  | SubOper (sub_module: string) (sub_xpath: string) (sub_cb: string)
  | SubRpc (sub_xpath: string) (sub_cb: string)

record srx_module_requirement =
  mr_dir :: string
  mr_name :: string
  mr_rev :: cstr
  mr_features :: "string list option"

record confd_env =
  k_os :: os
  k_subscribe :: "subscription \<Rightarrow> int"
  k_install :: "string \<Rightarrow> string \<Rightarrow> string list option \<Rightarrow> int"
  k_enable_feature :: "string \<Rightarrow> string \<Rightarrow> int"
  k_conn :: bool
  k_session_start :: "session \<Rightarrow> int"
  k_aug_init :: bool
  k_aug_load_file :: "string \<Rightarrow> int"
  k_uname :: "(string \<times> string \<times> string) option"

record confd_st =
  hook_prio :: u32
  subs :: "subscription list"
  k_vars :: os_vars
  k_w :: world

definition CB_PRIO_PRIMARY :: u32 where "CB_PRIO_PRIMARY = 65535"
definition CB_PRIO_PASSIVE :: u32 where "CB_PRIO_PASSIVE = 65000"

definition core_hook_prio :: "confd_st \<Rightarrow> u32 \<times> confd_st" where
  "core_hook_prio st = (hook_prio st, st\<lparr>hook_prio := hook_prio st - 1\<rparr>)"

definition subscribe :: "confd_env \<Rightarrow> subscription \<Rightarrow> confd_st \<Rightarrow> int \<times> confd_st" where
  "subscribe env s st =
     (let rc = k_subscribe env s in (rc, if rc = 0 then st\<lparr>subs := subs st @ [s]\<rparr> else st))"

text \<open>The statuses of the hooks are dropped, as in the source.\<close>

definition register_change ::
  "confd_env \<Rightarrow> session \<Rightarrow> string \<Rightarrow> string \<Rightarrow> subscr_flag list \<Rightarrow> string \<Rightarrow> confd_st \<Rightarrow> int \<times> confd_st" where
  "register_change env session module xpath flags cb st =
     (let st = (if flags = []
                then snd (subscribe env (SubChange Running module xpath ''core_pre_hook'' 0
                            [SR_SUBSCR_PASSIVE]) st)
                else st);
          (rc, st) = subscribe env (SubChange session module xpath cb CB_PRIO_PRIMARY
                       (flags @ [SR_SUBSCR_DEFAULT])) st
      in if rc \<noteq> 0 then (rc, st)
         else if flags = [] then
           (let (p, st) = core_hook_prio st;
                st = snd (subscribe env (SubChange Running module xpath ''core_post_hook'' p
                            [SR_SUBSCR_PASSIVE]) st);
                (p, st) = core_hook_prio st;
                st = snd (subscribe env (SubChange Startup module xpath ''core_startup_save'' p
                            [SR_SUBSCR_PASSIVE]) st)
            in (0, st))
         else (0, st))"

definition register_oper ::
  "confd_env \<Rightarrow> string \<Rightarrow> string \<Rightarrow> string \<Rightarrow> confd_st \<Rightarrow> int \<times> confd_st" where
  "register_oper env module xpath cb st = subscribe env (SubOper module xpath cb) st"

definition register_rpc :: "confd_env \<Rightarrow> string \<Rightarrow> string \<Rightarrow> confd_st \<Rightarrow> int \<times> confd_st" where
  "register_rpc env xpath cb st = subscribe env (SubRpc xpath cb) st"

text \<open>The macros \<open>REGISTER_CHANGE\<close>, \<open>REGISTER_OPER\<close> and \<open>REGISTER_RPC\<close>, one after the other: the
  first that fails leaves the function.\<close>

fun register_all :: "(confd_st \<Rightarrow> int \<times> confd_st) list \<Rightarrow> confd_st \<Rightarrow> int \<times> confd_st" where
  "register_all [] st = (SR_ERR_OK, st)"
| "register_all (r # rs) st =
     (case r st of (rc, st) \<Rightarrow> if rc \<noteq> 0 then (rc, st) else register_all rs st)"

section \<open>Hooks\<close>

definition core_startup_save :: "os \<Rightarrow> world \<Rightarrow> int \<times> world" where
  "core_startup_save os w =
     (case systemf os ''sysrepocfg -X/cfg/startup-config.cfg -d startup -f json'' w of
        (rc, w) \<Rightarrow> (if rc \<noteq> 0 then SR_ERR_SYS else SR_ERR_OK, w))"

definition core_pre_hook :: int where
  "core_pre_hook = 0"

definition reload_services :: "os \<Rightarrow> world \<Rightarrow> int \<times> world" where
  "reload_services os w =
     (case systemf os ''runlevel >/dev/null 2>&1'' w of
        (rc, w) \<Rightarrow>
          if rc \<noteq> 0 then (SR_ERR_OK, w)
          else (case systemf os ''initctl -nbq reload'' w of
                  (rc, w) \<Rightarrow> (if rc \<noteq> 0 then SR_ERR_SYS else SR_ERR_OK, w)))"

text \<open>The counter is the static variable \<open>num_changes\<close>.\<close>

definition core_post_hook :: "os \<Rightarrow> sr_event \<Rightarrow> int \<Rightarrow> world \<Rightarrow> int \<times> int \<times> world" where
  "core_post_hook os event num_changes w =
     (case event of
        SR_EV_CHANGE \<Rightarrow> (SR_ERR_OK, num_changes + 1, w)
      | SR_EV_ABORT \<Rightarrow> (SR_ERR_OK, 0, w)
      | SR_EV_DONE \<Rightarrow>
          if num_changes - 1 = 0
          then (case reload_services os w of (rc, w) \<Rightarrow> (rc, num_changes - 1, w))
          else (SR_ERR_OK, num_changes - 1, w)
      | _ \<Rightarrow> (SR_ERR_SYS, num_changes, w))"

section \<open>YANG modules\<close>

fun enable_features :: "confd_env \<Rightarrow> string \<Rightarrow> string list \<Rightarrow> int \<Rightarrow> int" where
  "enable_features env name [] err = err"
| "enable_features env name (f # fs) err = enable_features env name fs (k_enable_feature env name f)"

definition srx_require_module :: "confd_env \<Rightarrow> srx_module_requirement \<Rightarrow> int option" where
  "srx_require_module env mr =
     (let path = mr_name mr @ (case mr_rev mr of None \<Rightarrow> [] | Some r \<Rightarrow> ''@'' @ r) @ ''.yang'';
          err = k_install env path (mr_dir mr) (mr_features mr)
      in if err = SR_ERR_EXISTS
         then map_option (\<lambda>fs. enable_features env (mr_name mr) fs 0) (mr_features mr)
         else Some err)"

fun srx_require_modules :: "confd_env \<Rightarrow> srx_module_requirement list \<Rightarrow> int option" where
  "srx_require_modules env [] = Some SR_ERR_OK"
| "srx_require_modules env (mr # mrs) =
     do {
       err \<leftarrow> srx_require_module env mr;
       if err \<noteq> 0 then Some err else srx_require_modules env mrs
     }"

section \<open>Set-up\<close>

definition ietf_interfaces_init :: "confd_env \<Rightarrow> confd_st \<Rightarrow> int \<times> confd_st" where
  "ietf_interfaces_init env st =
     register_all
       [register_change env Running ''ietf-interfaces'' ''/ietf-interfaces:interfaces'' [] ''ifchange'',
        register_change env Cand ''ietf-interfaces'' ''/ietf-interfaces:interfaces'' [SR_SUBSCR_UPDATE]
          ''ifchange_cand''] st"

definition ietf_system_init :: "confd_env \<Rightarrow> confd_st \<Rightarrow> int \<times> confd_st" where
  "ietf_system_init env st =
     (case os_init (k_os env) (k_uname env) (k_w st) of
        (v, w) \<Rightarrow>
          (let st = st\<lparr>k_vars := v, k_w := w\<rparr>;
               change = (\<lambda>p cb. register_change env Running ''ietf-system'' (''/ietf-system:system/'' @ p) [] cb)
           in if k_aug_load_file env ''/etc/hostname'' \<noteq> 0 \<or> k_aug_load_file env ''/etc/hosts'' \<noteq> 0
              then (SR_ERR_INTERNAL, st)
              else register_all
                [change ''authentication'' ''change_auth'', change ''hostname'' ''change_hostname'',
                 change ''infix-system:motd'' ''change_motd'', change ''clock'' ''change_clock'',
                 change ''ntp'' ''change_ntp'', change ''dns-resolver'' ''change_dns'',
                 register_oper env ''ietf-system'' CLOCK_PATH ''clock_cb'',
                 register_oper env ''ietf-system'' PLATFORM_PATH ''platform_cb'',
                 register_rpc env ''/ietf-system:system-restart'' ''rpc_exec'',
                 register_rpc env ''/ietf-system:system-shutdown'' ''rpc_exec'',
                 register_rpc env ''/ietf-system:set-current-datetime'' ''rpc_set_datetime''] st))"

definition infix_dhcp_reqs :: "string \<Rightarrow> srx_module_requirement list" where
  "infix_dhcp_reqs YANG_PATH =
     [\<lparr>mr_dir = YANG_PATH, mr_name = ''infix-dhcp-client'', mr_rev = Some ''2023-05-22'',
       mr_features = None\<rparr>]"

definition infix_dhcp_init :: "confd_env \<Rightarrow> string \<Rightarrow> confd_st \<Rightarrow> (int \<times> confd_st) option" where
  "infix_dhcp_init env YANG_PATH st =
     do {
       rc \<leftarrow> srx_require_modules env (infix_dhcp_reqs YANG_PATH);
       if rc \<noteq> 0 then Some (rc, st)
       else Some (register_all
         [register_change env Running ''infix-dhcp-client'' ''/infix-dhcp-client:dhcp-client'' []
            ''client_change''] st)
     }"

text \<open>On an error everything subscribed so far is dropped.\<close>

definition init_err :: "int \<Rightarrow> confd_st \<Rightarrow> int \<times> confd_st" where
  "init_err rc st = (rc, st\<lparr>subs := []\<rparr>)"

definition sr_plugin_init_cb :: "confd_env \<Rightarrow> string \<Rightarrow> confd_st \<Rightarrow> (int \<times> confd_st) option" where
  "sr_plugin_init_cb env YANG_PATH st =
     (let st = st\<lparr>subs := []\<rparr>; rc = SR_ERR_SYS in
      if \<not> k_conn env then Some (init_err rc st)
      else
        (let rc = k_session_start env Startup in
         if rc \<noteq> 0 then Some (init_err rc st)
         else
           (let rc = k_session_start env Cand in
            if rc \<noteq> 0 then Some (init_err rc st)
            else if \<not> k_aug_init env then Some (init_err rc st)
            else
              (case ietf_interfaces_init env st of
                 (rc, st) \<Rightarrow>
                   if rc \<noteq> 0 then Some (init_err rc st)
                   else (case ietf_system_init env st of
                     (rc, st) \<Rightarrow>
                       if rc \<noteq> 0 then Some (init_err rc st)
                       else do {
                         (rc, st) \<leftarrow> infix_dhcp_init env YANG_PATH st;
                         Some (if rc \<noteq> 0 then init_err rc st else (SR_ERR_OK, st))
                       })))))"

section \<open>DHCP clients\<close>

definition dhcp_conf :: "cstr \<Rightarrow> string" where
  "dhcp_conf ifname = ''/etc/finit.d/available/dhcp-'' @ pstr ifname @ ''.conf''"

text \<open>The option for the client identifier, formatted into \<open>strlen (client_id) + 12\<close> bytes.\<close>

definition client_id_args :: "cstr \<Rightarrow> string option" where
  "client_id_args client_id =
     (case client_id of
        None \<Rightarrow> Some []
      | Some [] \<Rightarrow> Some []
      | Some s \<Rightarrow>
          (let args = ''-C -x 61:'' @ sq @ dq @ s @ dq @ sq in
           if length args + 1 \<le> length s + 12 then Some args else None))"

definition dhcp_add :: "os \<Rightarrow> cstr \<Rightarrow> cstr \<Rightarrow> world \<Rightarrow> world option" where
  "dhcp_add os ifname client_id w =
     (case fopen os (dhcp_conf ifname) ''w'' w of
        (None, w) \<Rightarrow> Some w
      | (Some fp, w) \<Rightarrow>
          do {
            args \<leftarrow> client_id_args client_id;
            let w = fput fp (''service name:dhcp :'' @ pstr ifname @ '' udhcpc -f -S -R -i '' @ pstr ifname
                      @ '' '' @ args @ '' -- DHCP client @'' @ pstr ifname @ nl) w;
            Some (snd (systemf os (''initctl -bfq enable dhcp-'' @ pstr ifname) w))
          })"

definition dhcp_del :: "os \<Rightarrow> cstr \<Rightarrow> world \<Rightarrow> world" where
  "dhcp_del os ifname w = snd (systemf os (''initctl -bfq delete dhcp-'' @ pstr ifname) w)"

text \<open>The inner loop: the configuration of the interface, and what it asks for.\<close>

fun client_apply :: "os \<Rightarrow> bool \<Rightarrow> cstr \<Rightarrow> lyd_ref list \<Rightarrow> world \<Rightarrow> world option" where
  "client_apply os ena ifname [] w = Some w"
| "client_apply os ena ifname (cif # cifs) w =
     do {
       is_if \<leftarrow> streq (n_schema (r_node cif)) ''client-if'';
       if is_if then
         do {
           n \<leftarrow> ifname;
           m \<leftarrow> lydx_get_cattr (Some cif) ''if-name'';
           if n \<noteq> m then client_apply os ena ifname cifs w
           else if \<not> ena \<or> \<not> lydx_is_enabled (Some cif) ''enabled'' then Some (dhcp_del os ifname w)
           else dhcp_add os ifname (lydx_get_cattr (Some cif) ''client-id'') w
         }
       else client_apply os ena ifname cifs w
     }"

fun client_loop :: "os \<Rightarrow> bool \<Rightarrow> lyd_ref list \<Rightarrow> lyd_ref list \<Rightarrow> world \<Rightarrow> world option" where
  "client_loop os ena cifs [] w = Some w"
| "client_loop os ena cifs (dif # difs) w =
     do {
       is_if \<leftarrow> streq (n_schema (r_node dif)) ''client-if'';
       w \<leftarrow> (if \<not> is_if then Some w
             else if lydx_get_op (Some dif) = LYDX_OP_DELETE
             then Some (dhcp_del os (lydx_get_cattr (Some dif) ''if-name'') w)
             else client_apply os ena (lydx_get_cattr (Some dif) ''if-name'') cifs w);
       client_loop os ena cifs difs w
     }"

text \<open>\<open>cfg\<close> is the answer of \<open>sr_get_data\<close>.\<close>

definition client_change ::
  "os \<Rightarrow> sr_event \<Rightarrow> int \<times> lyd_ptr option \<Rightarrow> sr_diff \<Rightarrow> world \<Rightarrow> (int \<times> world) option" where
  "client_change os event cfg ev w =
     (if event \<noteq> SR_EV_DONE then Some (SR_ERR_OK, w)
      else if fst cfg \<noteq> 0 then Some (fst cfg, w)
      else do {
        (err, diff) \<leftarrow> srx_get_diff ev;
        if err \<noteq> 0 then Some (err, w)
        else do {
          tree \<leftarrow> snd cfg;
          let global = lydx_get_descendant tree [''dhcp-client''];
          let ena = lydx_is_enabled global ''enabled'';
          let cifs = lydx_get_descendant tree [''dhcp-client'', ''client-if''];
          let difs = lydx_get_descendant diff [''dhcp-client'', ''client-if''];
          w \<leftarrow> client_loop os ena (LY_LIST_FOR cifs) (LY_LIST_FOR difs) w;
          Some (0, w)
        }
      })"

end
