(* ===== verification/ConfdProps.thy ===== *)
theory ConfdProps
  imports ConfdCore
begin

text \<open>
  What the frame of the daemon guarantees: services are reloaded once per changeset, the subscriptions
  made at start and their order, and where the set-up and the DHCP clients go wrong.
\<close>

section \<open>The commit hook\<close>

fun run_hook :: "os \<Rightarrow> sr_event list \<Rightarrow> int \<times> world \<Rightarrow> int \<times> world" where
  "run_hook os [] s = s"
| "run_hook os (e # es) s = run_hook os es (snd (core_post_hook os e (fst s) (snd s)))"

lemma run_hook_append: "run_hook os (es @ es') s = run_hook os es' (run_hook os es s)"
  by (induction es arbitrary: s) simp_all

lemma run_hook_changes:
  "run_hook os (replicate k SR_EV_CHANGE) (n, w) = (n + int k, w)"
  by (induction k arbitrary: n) (simp_all add: core_post_hook_def)

lemma run_hook_dones:
  "run_hook os (replicate (Suc k) SR_EV_DONE) (int (Suc k), w) = (0, snd (reload_services os w))"
proof (induction k)
  case 0
  then show ?case by (simp add: core_post_hook_def split: prod.splits)
next
  case (Suc k)
  have "core_post_hook os SR_EV_DONE (int (Suc (Suc k))) w = (SR_ERR_OK, int (Suc k), w)"
    by (simp add: core_post_hook_def)
  then show ?case using Suc.IH by simp
qed


section \<open>Start of the plugin\<close>

definition all_ok :: "confd_env \<Rightarrow> bool" where
  "all_ok env =
     ((\<forall>s. k_subscribe env s = 0) \<and> (\<forall>p d f. k_install env p d f = 0) \<and> k_conn env \<and>
      (\<forall>s. k_session_start env s = 0) \<and> k_aug_init env \<and> (\<forall>f. k_aug_load_file env f = 0))"

lemma subscribe_ok: "all_ok env \<Longrightarrow> subscribe env s st = (0, st\<lparr>subs := subs st @ [s]\<rparr>)"
  by (simp add: subscribe_def all_ok_def Let_def)

text \<open>The subscriptions of one module, with the priority its hooks get.\<close>

definition change_subs :: "u32 \<Rightarrow> string \<Rightarrow> string \<Rightarrow> string \<Rightarrow> subscription list" where
  "change_subs p module xpath cb =
     [SubChange Running module xpath ''core_pre_hook'' 0 [SR_SUBSCR_PASSIVE],
      SubChange Running module xpath cb CB_PRIO_PRIMARY [SR_SUBSCR_DEFAULT],
      SubChange Running module xpath ''core_post_hook'' p [SR_SUBSCR_PASSIVE],
      SubChange Startup module xpath ''core_startup_save'' (p - 1) [SR_SUBSCR_PASSIVE]]"

lemma register_change_ok:
  "all_ok env \<Longrightarrow> register_change env Running module xpath [] cb st =
     (0, st\<lparr>subs := subs st @ change_subs (hook_prio st) module xpath cb, hook_prio := hook_prio st - 2\<rparr>)"
  by (simp add: register_change_def subscribe_ok core_hook_prio_def change_subs_def Let_def)

lemma register_update_ok:
  "all_ok env \<Longrightarrow> register_change env Cand module xpath [SR_SUBSCR_UPDATE] cb st =
     (0, st\<lparr>subs := subs st @ [SubChange Cand module xpath cb CB_PRIO_PRIMARY
              [SR_SUBSCR_UPDATE, SR_SUBSCR_DEFAULT]]\<rparr>)"
  by (simp add: register_change_def subscribe_ok)

lemma register_all_ok_Cons:
  "r st = (0, st') \<Longrightarrow> register_all (r # rs) st = register_all rs st'"
  by simp

definition is_hook :: "subscription \<Rightarrow> bool" where
  "is_hook s = (case s of SubChange ss m x cb p f \<Rightarrow> cb = ''core_post_hook'' | _ \<Rightarrow> False)"


text \<open>If Augeas cannot be initialised, the plugin reports success although it has subscribed to
  nothing: the status it returns is that of the call before.\<close>

theorem augeas_failure_reported_as_success:
  assumes "k_conn env" "k_session_start env Startup = 0" "k_session_start env Cand = 0" "\<not> k_aug_init env"
  shows "sr_plugin_init_cb env dir st = Some (SR_ERR_OK, st\<lparr>subs := []\<rparr>)"
  using assms by (simp add: sr_plugin_init_cb_def init_err_def sr_err_defs)


section \<open>DHCP clients\<close>

text \<open>Switching the DHCP client as a whole on or off has no effect on the clients that are
  configured: without a change to the entry of an interface, nothing is written and no command is
  run.\<close>

theorem dhcp_global_switch_ignored:
  assumes "srx_get_diff ev = Some (0, diff)" "lydx_get_descendant diff [''dhcp-client'', ''client-if''] = None"
  shows "client_change os event (0, Some tree) ev w = Some (0, w)"
  using assms by (simp add: client_change_def sr_err_defs)

text \<open>A client identifier always overruns the buffer made for it: two bytes are missing, whatever its
  length, so no client with an identifier can be set up.\<close>

theorem client_id_overruns_buffer:
  assumes "s \<noteq> []" "fopen os (dhcp_conf ifname) ''w'' w = (Some fp, w')"
  shows "dhcp_add os ifname (Some s) w = None"
  using assms by (cases s) (simp_all add: dhcp_add_def client_id_args_def sq_def dq_def Let_def)

section \<open>Witnesses\<close>

definition demo_kos :: os where
  "demo_kos = \<lparr>os_sh = (\<lambda>cmd fs. (0, 0, fs)), os_open = (\<lambda>p m fs. 0), os_chmod = (\<lambda>p. True),
     os_ifindex = (\<lambda>x. True), os_popen_json = (\<lambda>c. None), os_json_str = (\<lambda>j k. None)\<rparr>"

definition demo_env :: confd_env where
  "demo_env = \<lparr>k_os = demo_kos, k_subscribe = (\<lambda>s. 0), k_install = (\<lambda>p d f. 0),
     k_enable_feature = (\<lambda>m f. 0), k_conn = True, k_session_start = (\<lambda>s. 0), k_aug_init = True,
     k_aug_load_file = (\<lambda>f. 0), k_uname = None\<rparr>"

definition demo_kst :: confd_st where
  "demo_kst = \<lparr>hook_prio = CB_PRIO_PASSIVE, subs = [],
     k_vars = \<lparr>v_ver = None, v_rel = None, v_sys = None, v_os = None\<rparr>,
     k_w = \<lparr>w_fs = Map.empty, w_errno = 0, w_log = []\<rparr>\<rparr>"



theorem augeas_failure_reported_as_success_witness:
  "sr_plugin_init_cb (demo_env\<lparr>k_aug_init := False\<rparr>) ''/yang'' demo_kst = Some (SR_ERR_OK, demo_kst\<lparr>subs := []\<rparr>)"
  by (rule augeas_failure_reported_as_success) (simp_all add: demo_env_def)


text \<open>The client as a whole is switched off while one interface is configured.\<close>

definition demo_dhcp_diff :: lyd_ptr where
  "demo_dhcp_diff = Some (LydRef (LydNode (Some ''dhcp-client'') None False [] None
     [LydNode (Some ''enabled'') (Some ''false'') False
        [(''yang:operation'', ''replace''), (''yang:orig-value'', ''true'')] None []]) [] [])"

definition demo_dhcp_tree :: lyd_ptr where
  "demo_dhcp_tree = Some (LydRef (LydNode (Some ''dhcp-client'') None False [] None
     [LydNode (Some ''enabled'') (Some ''false'') False [] None [],
      LydNode (Some ''client-if'') None False [] None
        [LydNode (Some ''if-name'') (Some ''eth0'') False [] None [],
         LydNode (Some ''enabled'') (Some ''true'') False [] None []]]) [] [])"

theorem dhcp_global_switch_ignored_witness:
  "client_change demo_kos SR_EV_DONE (0, Some demo_dhcp_tree)
     \<lparr>ev_iter = (0, Some demo_dhcp_diff), ev_dup = 0\<rparr> (k_w demo_kst) = Some (0, k_w demo_kst)"
proof (rule dhcp_global_switch_ignored [where diff = demo_dhcp_diff])
  show "lydx_get_descendant demo_dhcp_diff [''dhcp-client'', ''client-if''] = None" by code_simp
qed (simp add: srx_get_diff_def)

theorem client_id_overruns_buffer_witness:
  "dhcp_add demo_kos (Some ''eth0'') (Some ''x'') (k_w demo_kst) = None"
  by (rule client_id_overruns_buffer [where fp = "dhcp_conf (Some ''eth0'')" and
        w' = "(k_w demo_kst)\<lparr>w_fs := [dhcp_conf (Some ''eth0'') \<mapsto> FFile [] False]\<rparr>"])
    (simp_all add: fopen_def demo_kos_def demo_kst_def)

end
