(* ===== verification/Statd.thy ===== *)
theory Statd
  imports SrxVal Helpers
begin

text \<open>
  The status daemon, \<open>src/src/confd/src/statd/core.c\<close>: it answers requests for the operational state
  of an interface with what \<open>ip -d -j link\<close> prints.

  The JSON a command prints is the parameter \<open>link_json\<close>, \<^const>\<open>None\<close> if the command cannot be run or
  its output is not JSON; \<open>new_path\<close> is libyang's \<open>lyd_new_path\<close>, and \<open>sub\<close> the status of a
  subscription.  The allocations (\<open>strdup\<close>) are taken to succeed, and the command and the state, which
  the code passes on as format strings, to contain no percent sign.
\<close>

datatype json =
    JInt int
  | JStr string
  | JObj "(string \<times> json) list"
  | JArr "json list"
  | JOther

definition XPATH_IFACE_BASE :: string where "XPATH_IFACE_BASE = ''/ietf-interfaces:interfaces''"
definition XPATH_MAX :: nat where "XPATH_MAX = 4096"

definition to_lower :: "char \<Rightarrow> char" where
  "to_lower c =
     (let n = (of_char c :: nat) in if 65 \<le> n \<and> n \<le> 90 then char_of (n + 32) else c)"

definition to_lowercase :: "string \<Rightarrow> string" where
  "to_lowercase str = map to_lower str"

definition json_object_get :: "json \<Rightarrow> string \<Rightarrow> json option" where
  "json_object_get j key = (case j of JObj kvs \<Rightarrow> map_of kvs key | _ \<Rightarrow> None)"

text \<open>The elements of the array the command prints.\<close>

definition get_ip_link_json :: "(string \<Rightarrow> json option) \<Rightarrow> cstr \<Rightarrow> json list option" where
  "get_ip_link_json link_json ifname =
     (let cmd = snprintf 512 (case ifname of
                  None \<Rightarrow> ''ip -d -j link show 2>/dev/null''
                | Some n \<Rightarrow> ''ip -d -j link show dev '' @ n @ '' 2>/dev/null'')
      in case link_json cmd of
           None \<Rightarrow> None
         | Some j \<Rightarrow> (case j of JArr js \<Rightarrow> Some js | _ \<Rightarrow> None))"

definition add_ip_link_data ::
  "('t option \<Rightarrow> string \<Rightarrow> string \<Rightarrow> int \<times> 't option) \<Rightarrow> 't option \<Rightarrow> string \<Rightarrow> json \<Rightarrow> bool \<Rightarrow>
   int \<times> 't option \<times> bool" where
  "add_ip_link_data new_path parent xpath iface first =
     (case json_object_get iface ''ifindex'' of
        Some (JInt i) \<Rightarrow>
          (case lydx_new_path new_path parent first xpath ''if-index'' (dec_int i) of
             (err, parent, first) \<Rightarrow>
               if err \<noteq> 0 then (SR_ERR_LY, parent, first)
               else (case json_object_get iface ''operstate'' of
                 Some (JStr s) \<Rightarrow>
                   (case lydx_new_path new_path parent first xpath ''oper-status'' (to_lowercase s) of
                      (err, parent, first) \<Rightarrow>
                        (if err \<noteq> 0 then SR_ERR_LY else SR_ERR_OK, parent, first))
               | _ \<Rightarrow> (SR_ERR_SYS, parent, first)))
      | _ \<Rightarrow> (SR_ERR_SYS, parent, first))"

definition iface_path :: "string \<Rightarrow> string" where
  "iface_path ifname =
     snprintf XPATH_MAX (XPATH_IFACE_BASE @ ''/interface[name='' @ sq @ ifname @ sq @ '']'')"

definition add_ip_link ::
  "('t option \<Rightarrow> string \<Rightarrow> string \<Rightarrow> int \<times> 't option) \<Rightarrow> (string \<Rightarrow> json option) \<Rightarrow> 't option \<Rightarrow> string \<Rightarrow>
   int \<times> 't option" where
  "add_ip_link new_path link_json parent ifname =
     (case get_ip_link_json link_json (Some ifname) of
        Some [iface] \<Rightarrow>
          (case add_ip_link_data new_path parent (iface_path ifname) iface True of
             (err, parent, first) \<Rightarrow> (err, parent))
      | _ \<Rightarrow> (SR_ERR_SYS, parent))"

text \<open>\<open>con\<close> and \<open>ctx\<close> say whether there is a connection and a context.\<close>

definition iface_cb ::
  "('t option \<Rightarrow> string \<Rightarrow> string \<Rightarrow> int \<times> 't option) \<Rightarrow> (string \<Rightarrow> json option) \<Rightarrow> bool \<Rightarrow> bool \<Rightarrow> string \<Rightarrow>
   't option \<Rightarrow> int \<times> 't option" where
  "iface_cb new_path link_json con ctx ifname parent =
     (if \<not> con \<or> \<not> ctx then (SR_ERR_INTERNAL, parent)
      else add_ip_link new_path link_json parent ifname)"

text \<open>The paths subscribed to, and the status.\<close>

fun reg_loop :: "(string \<Rightarrow> int) \<Rightarrow> json list \<Rightarrow> string list \<Rightarrow> int \<times> string list" where
  "reg_loop sub [] done = (SR_ERR_OK, done)"
| "reg_loop sub (j # js) done =
     (case json_object_get j ''ifname'' of
        Some (JStr ifname) \<Rightarrow>
          (let xpath = iface_path ifname; err = sub xpath in
           if err \<noteq> 0 then (err, done) else reg_loop sub js (done @ [xpath]))
      | _ \<Rightarrow> reg_loop sub js done)"

definition reg_iface_handlers :: "(string \<Rightarrow> json option) \<Rightarrow> (string \<Rightarrow> int) \<Rightarrow> int \<times> string list" where
  "reg_iface_handlers link_json sub =
     (case get_ip_link_json link_json None of
        None \<Rightarrow> (SR_ERR_SYS, [])
      | Some js \<Rightarrow> reg_loop sub js [])"

definition statd_init_cb ::
  "bool \<Rightarrow> int \<Rightarrow> (string \<Rightarrow> json option) \<Rightarrow> (string \<Rightarrow> int) \<Rightarrow> int \<times> string list" where
  "statd_init_cb con session_start link_json sub =
     (if \<not> con then (SR_ERR_INTERNAL, [])
      else if session_start \<noteq> 0 then (session_start, [])
      else reg_iface_handlers link_json sub)"

section \<open>Properties\<close>

lemma reg_loop_ok:
  assumes "\<forall>x. sub x = 0"
  shows "reg_loop sub js done = (0, done @ map iface_path
    (concat (map (\<lambda>j. case json_object_get j ''ifname'' of Some (JStr n) \<Rightarrow> [n] | _ \<Rightarrow> []) js)))"
  using assms
  by (induction js arbitrary: "done") (auto simp: sr_err_defs split: option.splits json.splits)

text \<open>A tree as the list of its leaves.\<close>

definition leaf_list :: "(string \<times> string) list option \<Rightarrow> string \<Rightarrow> string \<Rightarrow> int \<times> (string \<times> string) list option" where
  "leaf_list t xpath val = (0, Some ((case t of None \<Rightarrow> [] | Some ls \<Rightarrow> ls) @ [(xpath, val)]))"


definition demo_link_json :: "string \<Rightarrow> json option" where
  "demo_link_json cmd = Some (JArr [JObj [(''ifindex'', JInt 2), (''ifname'', JStr ''eth0''),
     (''operstate'', JStr ''UP'')]])"


end
