(* ===== verification/Klinfix.thy ===== *)
theory Klinfix
  imports Prelude
begin

text \<open>
  The plugin of the command line shell, \<open>src/src/klinfix/src/klinfix.c\<close>: copying between datastores
  and committing the candidate.  The connection to sysrepo is the record \<open>kl_env\<close> of the statuses its
  calls return; the state counts the open connections and records the copies made, each as destination
  and source.
\<close>

datatype sr_datastore =
    SR_DS_STARTUP | SR_DS_RUNNING | SR_DS_CANDIDATE | SR_DS_OPERATIONAL | SR_DS_FACTORY_DEFAULT

record kl_env =
  kl_connect :: int
  kl_session :: "sr_datastore \<Rightarrow> int"
  kl_copy_config :: "sr_datastore \<Rightarrow> sr_datastore \<Rightarrow> int"

record kl_st =
  kl_conns :: int
  kl_copies :: "(sr_datastore \<times> sr_datastore) list"

text \<open>\<open>strncmp (name, text, strlen (text)) == 0\<close>: the text is a prefix of the name.\<close>

definition klix_ds_from_str :: "string \<Rightarrow> sr_datastore option" where
  "klix_ds_from_str text =
     (if has_prefix text ''startup-config'' then Some SR_DS_STARTUP
      else if has_prefix text ''running-config'' then Some SR_DS_RUNNING
      else if has_prefix text ''candidate-config'' then Some SR_DS_CANDIDATE
      else if has_prefix text ''operational-config'' then Some SR_DS_OPERATIONAL
      else if has_prefix text ''factory-config'' then Some SR_DS_FACTORY_DEFAULT
      else None)"

definition kl_open :: "kl_st \<Rightarrow> kl_st" where
  "kl_open st = st\<lparr>kl_conns := kl_conns st + 1\<rparr>"

definition sr_disconnect :: "kl_st \<Rightarrow> kl_st" where
  "sr_disconnect st = st\<lparr>kl_conns := kl_conns st - 1\<rparr>"

text \<open>The arguments are \<^const>\<open>None\<close> if they are missing.\<close>

definition klix_copy :: "kl_env \<Rightarrow> cstr \<Rightarrow> cstr \<Rightarrow> kl_st \<Rightarrow> int \<times> kl_st" where
  "klix_copy env src dst st =
     (case (src, dst) of
        (Some srcarg, Some dstarg) \<Rightarrow>
          (case (klix_ds_from_str srcarg, klix_ds_from_str dstarg) of
             (Some srcds, Some dstds) \<Rightarrow>
               if srcds \<notin> set [SR_DS_STARTUP, SR_DS_RUNNING, SR_DS_FACTORY_DEFAULT] then (-1, st)
               else if dstds \<notin> set [SR_DS_STARTUP, SR_DS_RUNNING] then (-1, st)
               else if kl_connect env \<noteq> 0 then (-1, st)
               else
                 (let st = kl_open st in
                  if kl_session env dstds \<noteq> 0 then (-1, sr_disconnect st)
                  else if kl_copy_config env dstds srcds \<noteq> 0 then (-1, sr_disconnect st)
                  else (0, sr_disconnect (st\<lparr>kl_copies := kl_copies st @ [(dstds, srcds)]\<rparr>)))
           | _ \<Rightarrow> (-1, st))
      | _ \<Rightarrow> (-1, st))"

definition klix_commit :: "kl_env \<Rightarrow> kl_st \<Rightarrow> int \<times> kl_st" where
  "klix_commit env st =
     (if kl_connect env \<noteq> 0 then (-1, st)
      else
        (let st = kl_open st in
         if kl_session env SR_DS_RUNNING \<noteq> 0 then (-1, sr_disconnect st)
         else if kl_copy_config env SR_DS_RUNNING SR_DS_CANDIDATE \<noteq> 0 then (-1, st)
         else (0, sr_disconnect (st\<lparr>kl_copies := kl_copies st @ [(SR_DS_RUNNING, SR_DS_CANDIDATE)]\<rparr>))))"

text \<open>The commands the plugin offers to the shell.\<close>

definition kplugin_klinfix_init :: "string list \<Rightarrow> int \<times> string list" where
  "kplugin_klinfix_init syms = (0, syms @ [''klix_copy'', ''klix_commit''])"

section \<open>Properties\<close>

text \<open>C35. Copying only ever writes the startup or the running configuration, and only from one of those or
  from the factory defaults; it succeeds exactly if a copy was made, and always gives its connection
  back.\<close>

theorem copy_confined:
  "case klix_copy env src dst st of (rc, st') \<Rightarrow>
     kl_conns st' = kl_conns st \<and>
     (if rc = 0
      then \<exists>d s. kl_copies st' = kl_copies st @ [(d, s)] \<and> d \<in> {SR_DS_STARTUP, SR_DS_RUNNING} \<and>
             s \<in> {SR_DS_STARTUP, SR_DS_RUNNING, SR_DS_FACTORY_DEFAULT}
      else kl_copies st' = kl_copies st)"
  by (auto simp: klix_copy_def kl_open_def sr_disconnect_def Let_def split: option.splits)

text \<open>A commit that sysrepo refuses leaves its connection open: after \<open>n\<close> of them \<open>n\<close> connections
  have leaked.\<close>

theorem refused_commits_leak:
  assumes "kl_connect env = 0" "kl_session env SR_DS_RUNNING = 0"
    and "kl_copy_config env SR_DS_RUNNING SR_DS_CANDIDATE \<noteq> 0"
  shows "kl_conns (((\<lambda>st. snd (klix_commit env st)) ^^ n) st) = kl_conns st + int n"
  using assms by (induction n) (simp_all add: klix_commit_def kl_open_def)

theorem refused_commits_leak_witness:
  "kl_conns (((\<lambda>st. snd (klix_commit \<lparr>kl_connect = 0, kl_session = (\<lambda>d. 0), kl_copy_config = (\<lambda>d s. 9)\<rparr> st)) ^^ 3)
     \<lparr>kl_conns = 0, kl_copies = []\<rparr>) = 3"
  using refused_commits_leak [of "\<lparr>kl_connect = 0, kl_session = (\<lambda>d. 0), kl_copy_config = (\<lambda>d s. 9)\<rparr>" 3
      "\<lparr>kl_conns = 0, kl_copies = []\<rparr>"]
  by simp

end
