(* ===== verification/Factory.thy ===== *)
theory Factory
  imports Posix
begin

text \<open>
  The factory reset tool, \<open>src/src/factory/factory.c\<close>.  The options come from \<open>getopt_long\<close> one by one;
  the keys pressed, the name of the terminal and the results of \<open>mknod\<close> and of the reboot command are
  the fields of the record \<open>fa_env\<close>.
\<close>

record fa_env =
  fa_opts :: "char list"
  fa_login :: bool
  fa_tty :: "string option"
  fa_errno :: int
  fa_mknod :: "int option"
  fa_reboot :: int
  fa_tcgetattr :: int
  fa_tcsetattr :: int

record fa_st =
  fa_keys :: "char list"
  fa_flag :: bool
  fa_rebooted :: bool

definition ENOTTY :: int where "ENOTTY = 25"

text \<open>One key, or -1 if the terminal cannot be put into raw mode; at the end of the input \<open>getchar\<close>
  gives -1 as well.\<close>

definition rawgetch :: "fa_env \<Rightarrow> fa_st \<Rightarrow> char \<times> fa_st" where
  "rawgetch env st =
     (if fa_tcgetattr env < 0 then (CHR 0xFF, st)
      else if fa_tcsetattr env < 0 then (CHR 0xFF, st)
      else (case fa_keys st of [] \<Rightarrow> (CHR 0xFF, st) | k # ks \<Rightarrow> (k, st\<lparr>fa_keys := ks\<rparr>)))"

definition yorn :: "fa_env \<Rightarrow> fa_st \<Rightarrow> bool \<times> fa_st" where
  "yorn env st =
     (case rawgetch env st of (k, st) \<Rightarrow>
        if k \<noteq> CHR ''y'' \<and> k \<noteq> CHR ''Y'' then (False, st) else (True, st))"

definition fa_run :: "fa_env \<Rightarrow> fa_st \<Rightarrow> int \<times> fa_st" where
  "fa_run env st =
     (let status = fa_reboot env;
          st = st\<lparr>fa_rebooted := True\<rparr>;
          rc = WEXITSTATUS status
      in if WIFEXITED status then (rc, st)
         else if WIFSIGNALED status \<and> rc = 0 then (1, st)
         else (rc, st))"

text \<open>The loop over the options: the exit status of \<open>usage\<close>, or whether to reboot and whether to take
  everything for confirmed.\<close>

fun fa_options :: "char list \<Rightarrow> bool \<Rightarrow> bool \<Rightarrow> int + bool \<times> bool" where
  "fa_options [] reboot yes = Inr (reboot, yes)"
| "fa_options (c # cs) reboot yes =
     (if c = CHR ''h'' \<or> c = CHR ''?'' then Inl 0
      else if c = CHR ''r'' then fa_options cs False yes
      else if c = CHR ''y'' then fa_options cs reboot True
      else Inl 1)"

text \<open>Asks unless everything is confirmed.\<close>

definition confirm :: "fa_env \<Rightarrow> bool \<Rightarrow> fa_st \<Rightarrow> bool \<times> fa_st" where
  "confirm env yes st = (if yes then (True, st) else yorn env st)"

text \<open>\<open>fa_mknod\<close> is \<^const>\<open>None\<close> on success and the errno otherwise.\<close>

definition factory_main :: "fa_env \<Rightarrow> fa_st \<Rightarrow> int \<times> fa_st" where
  "factory_main env st =
     (case fa_options (fa_opts env) True False of
        Inl rc \<Rightarrow> (rc, st)
      | Inr (reboot, yes) \<Rightarrow>
          (let yes = (yes \<or> (fa_tty env = None \<and> fa_errno env = ENOTTY)) in
           if fa_login env \<and> fa_tty env \<noteq> None \<and> fa_tty env \<noteq> Some ''/dev/console'' then (1, st)
           else
             (case confirm env yes st of
                (False, st) \<Rightarrow> (0, st)
              | (True, st) \<Rightarrow>
                  if fa_mknod env \<noteq> None \<and> fa_mknod env \<noteq> Some EEXIST then (1, st)
                  else
                    (let st = st\<lparr>fa_flag := True\<rparr> in
                     if \<not> reboot then (0, st)
                     else (case confirm env yes st of
                             (False, st) \<Rightarrow> (0, st)
                           | (True, st) \<Rightarrow> fa_run env st)))))"

section \<open>Properties\<close>

lemma fa_options_yes:
  "fa_options cs r yes = Inr (r', y) \<Longrightarrow> y \<Longrightarrow> yes \<or> CHR ''y'' \<in> set cs"
  by (induction cs arbitrary: r yes) (auto split: if_splits)

lemma confirm_frame:
  "confirm env yes st = (b, st') \<Longrightarrow> fa_flag st' = fa_flag st \<and> fa_rebooted st' = fa_rebooted st"
  by (auto simp: confirm_def yorn_def rawgetch_def split: if_splits list.splits)

lemma confirm_consent:
  "confirm env yes st = (True, st') \<Longrightarrow> yes \<or> (\<exists>k ks. fa_keys st = k # ks \<and> k \<in> {CHR ''y'', CHR ''Y''})"
  by (auto simp: confirm_def yorn_def rawgetch_def split: if_splits list.splits)

lemma fa_run_flag: "fa_flag (snd (fa_run env st)) = fa_flag st"
  by (simp add: fa_run_def Let_def)

text \<open>C36. The reset flag is only raised, and the system only rebooted, with consent: the option \<open>-y\<close>,
  an input that is no terminal, or the key \<open>y\<close>.  From a login shell on another terminal than the console
  nothing happens at all, and without the flag there is no reboot.\<close>

theorem reset_needs_consent:
  assumes "\<not> fa_flag st" "\<not> fa_rebooted st"
  shows "(fa_flag (snd (factory_main env st)) \<longrightarrow>
            CHR ''y'' \<in> set (fa_opts env) \<or> (fa_tty env = None \<and> fa_errno env = ENOTTY)
            \<or> (\<exists>k ks. fa_keys st = k # ks \<and> k \<in> {CHR ''y'', CHR ''Y''})) \<and>
    (fa_rebooted (snd (factory_main env st)) \<longrightarrow> fa_flag (snd (factory_main env st))) \<and>
    (fa_login env \<and> fa_tty env \<noteq> None \<and> fa_tty env \<noteq> Some ''/dev/console'' \<longrightarrow> snd (factory_main env st) = st)"
proof (cases "fa_options (fa_opts env) True False")
  case (Inl rc)
  then show ?thesis using assms by (simp add: factory_main_def)
next
  case (Inr ry)
  obtain r y where ry: "ry = (r, y)" by (cases ry)
  define yes where "yes = (y \<or> (fa_tty env = None \<and> fa_errno env = ENOTTY))"
  obtain b st1 where c: "confirm env yes st = (b, st1)" by (cases "confirm env yes st")
  obtain b2 st2 where c2: "confirm env yes (st1\<lparr>fa_flag := True\<rparr>) = (b2, st2)"
    by (cases "confirm env yes (st1\<lparr>fa_flag := True\<rparr>)")
  have f: "\<not> fa_flag st1" "\<not> fa_rebooted st1" "fa_flag st2"
    using confirm_frame [OF c] confirm_frame [OF c2] assms by simp_all
  have y: "y \<Longrightarrow> CHR ''y'' \<in> set (fa_opts env)"
    using fa_options_yes [OF Inr [unfolded ry]] by simp
  have k: "b \<Longrightarrow> yes \<or> (\<exists>k ks. fa_keys st = k # ks \<and> k \<in> {CHR ''y'', CHR ''Y''})"
    using confirm_consent c by simp
  have m: "factory_main env st =
      (if fa_login env \<and> fa_tty env \<noteq> None \<and> fa_tty env \<noteq> Some ''/dev/console'' then (1, st)
       else if \<not> b then (0, st1)
       else if fa_mknod env \<noteq> None \<and> fa_mknod env \<noteq> Some EEXIST then (1, st1)
       else if \<not> r then (0, st1\<lparr>fa_flag := True\<rparr>)
       else if \<not> b2 then (0, st2) else fa_run env st2)"
    unfolding factory_main_def Inr ry using c c2 by (cases b; cases b2) (auto simp: yes_def [symmetric] Let_def)
  have consent: "b \<Longrightarrow> CHR ''y'' \<in> set (fa_opts env) \<or> (fa_tty env = None \<and> fa_errno env = ENOTTY)
      \<or> (\<exists>k ks. fa_keys st = k # ks \<and> k \<in> {CHR ''y'', CHR ''Y''})"
    using k y unfolding yes_def by blast
  show ?thesis
    using f assms consent unfolding m by (cases b) (simp_all add: fa_run_flag)
qed

definition fa_demo :: fa_env where
  "fa_demo = \<lparr>fa_opts = [], fa_login = True, fa_tty = Some ''/dev/console'', fa_errno = 0,
     fa_mknod = None, fa_reboot = 0, fa_tcgetattr = 0, fa_tcsetattr = 0\<rparr>"

definition fa_demo_st :: fa_st where
  "fa_demo_st = \<lparr>fa_keys = ''yn'', fa_flag = False, fa_rebooted = False\<rparr>"

lemma fa_demo_run:
  "factory_main fa_demo fa_demo_st = (0, \<lparr>fa_keys = [], fa_flag = True, fa_rebooted = False\<rparr>)"
  by (simp add: factory_main_def fa_demo_def fa_demo_st_def confirm_def yorn_def rawgetch_def)

theorem reset_needs_consent_witness:
  "fa_flag (snd (factory_main fa_demo fa_demo_st)) \<and>
   (\<exists>k ks. fa_keys fa_demo_st = k # ks \<and> k \<in> {CHR ''y'', CHR ''Y''})"
proof -
  have "\<not> fa_flag fa_demo_st" "\<not> fa_rebooted fa_demo_st" "fa_opts fa_demo = []" "fa_tty fa_demo \<noteq> None"
    by (simp_all add: fa_demo_st_def fa_demo_def)
  then show ?thesis
    using reset_needs_consent [of fa_demo_st fa_demo] by (auto simp: fa_demo_run)
qed

end
