(* ===== verification/Inet.thy ===== *)
theory Inet
  imports Prelude
begin

text \<open>
  \<open>inet_pton\<close> of the C library, as far as \<open>is_std_lo_addr\<close> of
  \<open>src/src/confd/src/confd/ietf-interfaces.c\<close> depends on it: the IPv4 scanner, the IPv6 scanner
  with its \<open>::\<close> and its embedded IPv4 form, and \<^const>\<open>None\<close> for a string that is no address.
\<close>

type_synonym bytes = "nat list"

text \<open>State of the IPv4 scanner: the octets finished, the one being read, and whether it has a
  digit yet.  A second digit after a leading zero, a value over 255 and a fifth octet are
  refused.\<close>

fun pton4 :: "bytes \<Rightarrow> nat \<Rightarrow> bool \<Rightarrow> string \<Rightarrow> bytes option" where
  "pton4 octets cur saw [] = (if length octets + of_bool saw < 4 then None else Some (octets @ [cur]))"
| "pton4 octets cur saw (ch # src) =
     (case digit_of 10 ch of
        Some d \<Rightarrow>
          if saw \<and> cur = 0 then None
          else if 255 < cur * 10 + d then None
          else if \<not> saw \<and> 4 \<le> length octets then None
          else pton4 octets (cur * 10 + d) True src
      | None \<Rightarrow>
          if ch = CHR ''.'' \<and> saw then
            if length octets = 3 then None else pton4 (octets @ [cur]) 0 False src
          else None)"

definition inet_pton4 :: "string \<Rightarrow> bytes option" where
  "inet_pton4 src = pton4 [] 0 False src"

text \<open>State of the IPv6 scanner: the bytes stored, the position of \<open>::\<close>, the token being read
  (for an embedded IPv4 address), the number of hexadecimal digits in it and their value.\<close>

definition put16 :: "bytes \<Rightarrow> nat \<Rightarrow> bytes option" where
  "put16 tp val = (if 16 < length tp + 2 then None else Some (tp @ [val div 256 mod 256, val mod 256]))"

definition pton6_finish :: "bytes \<Rightarrow> nat option \<Rightarrow> nat \<Rightarrow> nat \<Rightarrow> bytes option" where
  "pton6_finish tp colonp xdigits val =
     do { tp \<leftarrow> (if 0 < xdigits then put16 tp val else Some tp);
          case colonp of
            None \<Rightarrow> if length tp = 16 then Some tp else None
          | Some p \<Rightarrow>
              if length tp = 16 then None
              else Some (take p tp @ replicate (16 - length tp) 0 @ drop p tp) }"

fun pton6 :: "bytes \<Rightarrow> nat option \<Rightarrow> string \<Rightarrow> nat \<Rightarrow> nat \<Rightarrow> string \<Rightarrow> bytes option" where
  "pton6 tp colonp curtok xdigits val [] = pton6_finish tp colonp xdigits val"
| "pton6 tp colonp curtok xdigits val (ch # src) =
     (case digit_of 16 ch of
        Some d \<Rightarrow>
          if xdigits = 4 then None
          else pton6 tp colonp curtok (Suc xdigits) (val * 16 + d) src
      | None \<Rightarrow>
          if ch = CHR '':'' then
            if xdigits = 0 then
              (case colonp of
                 Some p \<Rightarrow> None
               | None \<Rightarrow> pton6 tp (Some (length tp)) src xdigits val src)
            else if src = [] then None
            else do { tp \<leftarrow> put16 tp val; pton6 tp colonp src 0 0 src }
          else if ch = CHR ''.'' \<and> length tp + 4 \<le> 16 then
            do { v4 \<leftarrow> inet_pton4 curtok; pton6_finish (tp @ v4) colonp 0 val }
          else None)"

definition inet_pton6 :: "string \<Rightarrow> bytes option" where
  "inet_pton6 src =
     (case src of
        [] \<Rightarrow> None
      | c # cs \<Rightarrow>
          if c = CHR '':'' then
            (case cs of
               [] \<Rightarrow> None
             | c2 # cs2 \<Rightarrow> if c2 = CHR '':'' then pton6 [] None cs 0 0 cs else None)
          else pton6 [] None src 0 0 src)"

section \<open>Dotted quads\<close>

definition dotted :: "nat \<Rightarrow> nat \<Rightarrow> nat \<Rightarrow> nat \<Rightarrow> string" where
  "dotted a b c d = dec_nat a @ ''.'' @ dec_nat b @ ''.'' @ dec_nat c @ ''.'' @ dec_nat d"

lemma digit_of_dot: "digit_of 10 (CHR ''.'') = None"
  by code_simp

text \<open>Reading one decimal number the scanner starts on.\<close>

lemma pton4_dec_nat:
  assumes "n \<le> 255" "length octets \<le> 3"
  shows "pton4 octets 0 False (dec_nat n @ rest) = pton4 octets n True rest"
  using assms
proof (induction n arbitrary: rest rule: dec_nat.induct)
  case (1 n)
  show ?case
  proof (cases "n < 10")
    case True
    with "1.prems" show ?thesis by (subst dec_nat.simps) simp
  next
    case False
    have le: "n div 10 \<le> 255" using "1.prems" by simp
    have "pton4 octets 0 False (dec_nat n @ rest)
        = pton4 octets 0 False (dec_nat (n div 10) @ digit_char (n mod 10) # rest)"
      using False by (subst dec_nat.simps) simp
    also have "\<dots> = pton4 octets (n div 10) True (digit_char (n mod 10) # rest)"
      using "1.IH" [OF False le "1.prems"(2)] .
    also have "\<dots> = pton4 octets n True rest"
      using False "1.prems" by (simp add: mult.commute div_eq_0_iff)
    finally show ?thesis .
  qed
qed

lemma pton4_dot:
  "length octets \<le> 2 \<Longrightarrow> pton4 octets n True (CHR ''.'' # src) = pton4 (octets @ [n]) 0 False src"
  by (simp add: digit_of_dot)

lemma inet_pton4_dotted:
  assumes "a \<le> 255" "b \<le> 255" "c \<le> 255" "d \<le> 255"
  shows "inet_pton4 (dotted a b c d) = Some [a, b, c, d]"
proof -
  have "inet_pton4 (dotted a b c d)
      = pton4 [a] 0 False (dec_nat b @ ''.'' @ dec_nat c @ ''.'' @ dec_nat d)"
    using assms by (simp add: inet_pton4_def dotted_def pton4_dec_nat pton4_dot del: pton4.simps)
  also have "\<dots> = pton4 [a, b] 0 False (dec_nat c @ ''.'' @ dec_nat d)"
    using assms by (simp add: pton4_dec_nat pton4_dot del: pton4.simps)
  also have "\<dots> = pton4 [a, b, c] 0 False (dec_nat d @ [])"
    using assms by (simp add: pton4_dec_nat pton4_dot del: pton4.simps)
  also have "\<dots> = pton4 [a, b, c] d True []"
    using assms by (intro pton4_dec_nat) simp_all
  finally show ?thesis by simp
qed

lemma digit_chars:
  "digit_of 16 (CHR '':'') = None" "digit_of 16 (CHR ''.'') = None"
  "digit_of 16 (CHR ''0'') = Some 0" "digit_of 16 (CHR ''1'') = Some 1"
  by (simp_all add: digit_of_def)

lemma inet_pton6_loopback:
  "inet_pton6 ''::1'' = Some [0, 0, 0, 0, 0, 0, 0, 0, 0, 0, 0, 0, 0, 0, 0, 1]"
  "inet_pton6 ''0:0:0:0:0:0:0:1'' = Some [0, 0, 0, 0, 0, 0, 0, 0, 0, 0, 0, 0, 0, 0, 0, 1]"
  by (simp_all add: inet_pton6_def digit_chars put16_def pton6_finish_def)
    (simp add: numeral_eq_Suc)

end
