(* ===== verification/Netdag.thy ===== *)
theory Netdag
  imports Dagger SrxVal Inet
begin

text \<open>
  \<open>src/src/confd/src/confd/ietf-interfaces.c\<close>, the running-datastore half: from the diff of a
  configuration change to the scripts of the next generation (\<open>netdag_*\<close>) and the change
  callback \<open>ifchange\<close> that wraps them in a dagger transaction.

  The script \<open>ip\<close> is the path of the open stream.  \<open>dif\<close> is a node of the diff, \<open>cif\<close> the
  node of the same interface in the new configuration, null if it has none.  Operations return
  the status and the world; \<^const>\<open>None\<close> is a null pointer dereference or an undefined shift.
  The log messages (\<open>ERROR\<close>, \<open>ERR_IFACE\<close>) are left out.
\<close>

type_synonym step = "world \<Rightarrow> (int \<times> world) option"

text \<open>\<open>err = err ? : f (...)\<close> and \<open>if (err) goto ...\<close>: steps up to the first that fails.\<close>

fun run_steps :: "step list \<Rightarrow> step" where
  "run_steps [] w = Some (0, w)"
| "run_steps (s # ss) w =
     do { (err, w) \<leftarrow> s w; if err \<noteq> 0 then Some (err, w) else run_steps ss w }"

definition put_step :: "string \<Rightarrow> string \<Rightarrow> step" where
  "put_step fp s w = Some (0, fput fp s w)"

section \<open>Physical interfaces\<close>

definition iface_is_phys :: "os \<Rightarrow> cstr \<Rightarrow> bool" where
  "iface_is_phys os ifname =
     (case os_popen_json os (''ip -d -j link show dev '' @ pstr ifname @ '' 2>/dev/null'') of
        None \<Rightarrow> False
      | Some link \<Rightarrow>
          (case os_json_str os link [''link_type''] of
             None \<Rightarrow> False
           | Some attr \<Rightarrow>
               if attr \<noteq> ''ether'' then False
               else if os_json_str os link [''linkinfo'', ''info_kind''] \<noteq> None then False
               else True))"

section \<open>Addresses\<close>

definition netdag_exit_reload :: "os \<Rightarrow> dagger \<Rightarrow> world \<Rightarrow> int \<times> world" where
  "netdag_exit_reload os net w =
     (case dagger_fopen_current os net ''exit'' ''@post'' 90 ''reload.sh'' w of
        (None, w) \<Rightarrow> (- EIO, w)
      | (Some initctl, w) \<Rightarrow> (0, fput initctl (''initctl -bnq reload'' @ nl) w))"

text \<open>\<open>INADDR_LOOPBACK\<close> is 127.0.0.1.\<close>

definition is_std_lo_addr :: "cstr \<Rightarrow> cstr \<Rightarrow> cstr \<Rightarrow> bool option" where
  "is_std_lo_addr ifname ip pf =
     do { lo \<leftarrow> streq ifname ''lo'';
          if \<not> lo then Some False
          else do {
            ip \<leftarrow> ip;
            case inet_pton4 ip of
              Some in4 \<Rightarrow> if in4 = [127, 0, 0, 1] then streq pf ''8'' else Some False
            | None \<Rightarrow>
                (case inet_pton6 ip of
                   Some in6 \<Rightarrow> if Some in6 = inet_pton6 ''::1'' then streq pf ''128'' else Some False
                 | None \<Rightarrow> Some False) } }"

definition netdag_gen_diff_addr :: "string \<Rightarrow> cstr \<Rightarrow> lyd_ref \<Rightarrow> step" where
  "netdag_gen_diff_addr ip ifname addr w =
     (let op = lydx_get_op (Some addr);
          adr = lydx_get_child (Some addr) ''ip'';
          pfx = lydx_get_child (Some addr) ''prefix-length''
      in if adr = None \<or> pfx = None then Some (- EINVAL, w)
         else
           (let adrd = lydx_get_diff adr;
                pfxd = lydx_get_diff pfx;
                w = (if op \<noteq> LYDX_OP_CREATE
                     then fput ip (''address delete '' @ pstr (nd_old adrd) @ ''/''
                            @ pstr (nd_old pfxd) @ '' dev '' @ pstr ifname @ nl) w
                     else w)
            in if op = LYDX_OP_DELETE then Some (0, w)
               else do {
                 std \<leftarrow> (if op = LYDX_OP_CREATE
                        then is_std_lo_addr ifname (nd_new adrd) (nd_new pfxd) else Some False);
                 Some (0, fput ip (''address '' @ (if std then ''replace'' else ''add'') @ '' ''
                        @ pstr (nd_new adrd) @ ''/'' @ pstr (nd_new pfxd)
                        @ '' dev '' @ pstr ifname @ nl) w) }))"

text \<open>The bodies of the \<open>LYX_LIST_FOR_EACH\<close> loops, over the nodes \<open>LY_LIST_FOR\<close> visits.\<close>

fun gen_diff_addrs :: "string \<Rightarrow> cstr \<Rightarrow> lyd_ref list \<Rightarrow> step" where
  "gen_diff_addrs ip ifname [] w = Some (0, w)"
| "gen_diff_addrs ip ifname (addr # rest) w =
     do { is_addr \<leftarrow> streq (n_schema (r_node addr)) ''address'';
          if is_addr
          then do { (err, w) \<leftarrow> netdag_gen_diff_addr ip ifname addr w;
                    if err \<noteq> 0 then Some (err, w) else gen_diff_addrs ip ifname rest w }
          else gen_diff_addrs ip ifname rest w }"

definition netdag_gen_diff_addrs :: "string \<Rightarrow> cstr \<Rightarrow> lyd_ptr \<Rightarrow> step" where
  "netdag_gen_diff_addrs ip ifname ipvx w =
     gen_diff_addrs ip ifname (LY_LIST_FOR (lyd_child ipvx)) w"

fun set_conf_addrs :: "string \<Rightarrow> cstr \<Rightarrow> lyd_ref list \<Rightarrow> step" where
  "set_conf_addrs ip ifname [] w = Some (0, w)"
| "set_conf_addrs ip ifname (addr # rest) w =
     do { is_addr \<leftarrow> streq (n_schema (r_node addr)) ''address'';
          set_conf_addrs ip ifname rest
            (if is_addr
             then fput ip (''address add '' @ pstr (lydx_get_cattr (Some addr) ''ip'') @ ''/''
                    @ pstr (lydx_get_cattr (Some addr) ''prefix-length'')
                    @ '' dev '' @ pstr ifname @ nl) w
             else w) }"

definition netdag_set_conf_addrs :: "string \<Rightarrow> cstr \<Rightarrow> lyd_ptr \<Rightarrow> step" where
  "netdag_set_conf_addrs ip ifname ipvx w =
     set_conf_addrs ip ifname (LY_LIST_FOR (lyd_child ipvx)) w"

definition netdag_gen_ip_addrs :: "os \<Rightarrow> string \<Rightarrow> string \<Rightarrow> lyd_ptr \<Rightarrow> lyd_ptr \<Rightarrow> step" where
  "netdag_gen_ip_addrs os ip proto cif dif w =
     (let ipconf = lydx_get_child cif proto;
          ipdiff = lydx_get_child dif proto;
          ifname = lydx_get_cattr dif ''name''
      in if ipconf = None \<or> \<not> lydx_is_enabled ipconf ''enabled'' then
           do { dev \<leftarrow> ifname;
                if os_ifindex os dev
                then Some (0, snd (systemf os
                       (''ip -'' @ [proto ! 3] @ '' addr flush dev '' @ dev @ nl) w))
                else Some (0, w) }
         else if lydx_get_op (lydx_get_child ipdiff ''enabled'') = LYDX_OP_REPLACE
         then netdag_set_conf_addrs ip ifname ipconf w
         else netdag_gen_diff_addrs ip ifname ipdiff w)"

section \<open>Autoconfiguration\<close>

definition netdag_gen_ipv6_autoconf :: "string \<Rightarrow> lyd_ptr \<Rightarrow> lyd_ptr \<Rightarrow> step" where
  "netdag_gen_ipv6_autoconf ip cif dif w =
     (let ipconf = lydx_get_child cif ''ipv6'';
          ipdiff = lydx_get_child dif ''ipv6'';
          enable = put_step ip '' addrgenmode eui64'';
          disable = put_step ip '' addrgenmode none''
      in if ipconf = None \<or> \<not> lydx_is_enabled ipconf ''enabled'' then disable w
         else if lydx_get_op (lydx_get_child ipdiff ''enabled'') = LYDX_OP_REPLACE then
           (let node = lydx_get_child ipconf ''autoconf'' in
            if node \<noteq> None \<and> lydx_is_enabled node ''create-global-addresses'' then enable w
            else disable w)
         else
           (let node = lydx_get_descendant (lydx_get_child ipdiff ''autoconf'')
                         [''create-global-addresses''];
                nd = lydx_get_diff node
            in if node = None \<or> \<not> nd_modified nd then Some (0, w)
               else if nd_new nd = None then enable w
               else do { t \<leftarrow> streq (nd_val nd) ''true''; if t then enable w else disable w }))"

definition zeroconf_up :: "os \<Rightarrow> dagger \<Rightarrow> cstr \<Rightarrow> step" where
  "zeroconf_up os net ifname w =
     (case dagger_fopen_next os net ''init'' (pstr ifname) 60 ''zeroconf-up.sh'' w of
        (None, w) \<Rightarrow> Some (- EIO, w)
      | (Some initctl, w) \<Rightarrow>
          Some (0, fput initctl (''initctl -bnq enable zeroconf@'' @ pstr ifname @ ''.conf'' @ nl) w))"

definition zeroconf_down :: "os \<Rightarrow> dagger \<Rightarrow> cstr \<Rightarrow> step" where
  "zeroconf_down os net ifname w =
     (case dagger_fopen_current os net ''exit'' (pstr ifname) 40 ''zeroconf-down.sh'' w of
        (None, w) \<Rightarrow> if w_errno w = EUNATCH then Some (0, w) else Some (- EIO, w)
      | (Some initctl, w) \<Rightarrow>
          Some (netdag_exit_reload os net
            (fput initctl (''initctl -bnq disable zeroconf@'' @ pstr ifname @ ''.conf'' @ nl) w)))"

definition netdag_gen_ipv4_autoconf :: "os \<Rightarrow> dagger \<Rightarrow> lyd_ptr \<Rightarrow> lyd_ptr \<Rightarrow> step" where
  "netdag_gen_ipv4_autoconf os net cif dif w =
     (let ipconf = lydx_get_child cif ''ipv4'';
          ipdiff = lydx_get_child dif ''ipv4'';
          ifname = lydx_get_cattr dif ''name'';
          enable = zeroconf_up os net ifname;
          disable = zeroconf_down os net ifname
      in if ipconf = None \<or> \<not> lydx_is_enabled ipconf ''enabled'' then disable w
         else if lydx_get_op (lydx_get_child ipdiff ''enabled'') = LYDX_OP_REPLACE then
           (let node = lydx_get_child ipconf ''autoconf'' in
            if node \<noteq> None \<and> lydx_is_enabled node ''enabled'' then enable w else disable w)
         else
           (let node = lydx_get_descendant (lydx_get_child ipdiff ''autoconf'') [''enabled''];
                nd = lydx_get_diff node
            in if node = None \<or> \<not> nd_modified nd then Some (0, w)
               else if nd_new nd = None then disable w
               else do { t \<leftarrow> streq (nd_val nd) ''true''; if t then enable w else disable w }))"

section \<open>Kernel parameters\<close>

text \<open>\<open>*fpp\<close> is passed in and out: the stream opened by an earlier call, if any.\<close>

definition netdag_gen_sysctl_bool ::
  "os \<Rightarrow> dagger \<Rightarrow> cstr \<Rightarrow> string option \<Rightarrow> lyd_ptr \<Rightarrow> string \<Rightarrow> world
     \<Rightarrow> (int \<times> string option \<times> world) option" where
  "netdag_gen_sysctl_bool os net ifname fpp node key w =
     (if node = None then Some (0, fpp, w)
      else
        (let nd = lydx_get_diff node in
         if \<not> nd_modified nd then Some (0, fpp, w)
         else
           (case (case fpp of
                    Some fp \<Rightarrow> (Some fp, w)
                  | None \<Rightarrow> dagger_fopen_next os net ''init'' (pstr ifname) 60 ''init.sysctl'' w) of
              (None, w) \<Rightarrow> Some (- EIO, None, w)
            | (Some fp, w) \<Rightarrow>
                do { t \<leftarrow> (if nd_new nd = None then Some False else streq (nd_val nd) ''true'');
                     Some (0, Some fp,
                       fput fp (key @ '' = '' @ (if t then ''1'' else ''0'') @ nl) w) })))"

definition netdag_gen_sysctl :: "os \<Rightarrow> dagger \<Rightarrow> lyd_ptr \<Rightarrow> step" where
  "netdag_gen_sysctl os net dif w =
     (let ifname = lydx_get_cattr dif ''name'' in
      do { (err, sysctl, w) \<leftarrow>
             netdag_gen_sysctl_bool os net ifname None
               (lydx_get_descendant (lyd_child dif) [''ipv4'', ''forwarding''])
               (''net.ipv4.conf.'' @ pstr ifname @ ''.forwarding'') w;
           if err \<noteq> 0 then Some (err, w)
           else do {
             (err, sysctl, w) \<leftarrow>
               netdag_gen_sysctl_bool os net ifname sysctl
                 (lydx_get_descendant (lyd_child dif) [''ipv6'', ''forwarding''])
                 (''net.ipv6.conf.'' @ pstr ifname @ ''.forwarding'') w;
             Some (err, w) } })"

section \<open>Interface types\<close>

definition netdag_gen_veth :: "os \<Rightarrow> dagger \<Rightarrow> lyd_ptr \<Rightarrow> string \<Rightarrow> step" where
  "netdag_gen_veth os net cif ip w =
     (let ifname = lydx_get_cattr cif ''name'';
          node = lydx_get_descendant (lyd_child cif) [''veth'']
      in if node = None then Some (- EINVAL, w)
         else
           (let peer = lydx_get_cattr node ''peer'' in
            if dagger_should_skip net (pstr ifname) w
            then Some (dagger_add_dep os net (pstr ifname) (pstr peer) w)
            else
              Some (0, fput ip (''link add dev '' @ pstr ifname @ '' down type veth peer ''
                     @ pstr peer @ nl) (dagger_skip_iface os net (pstr peer) w))))"

text \<open>\<open>dif\<close> is null when called for a new interface.\<close>

definition netdag_gen_vlan :: "os \<Rightarrow> dagger \<Rightarrow> lyd_ptr \<Rightarrow> lyd_ptr \<Rightarrow> string \<Rightarrow> step" where
  "netdag_gen_vlan os net dif cif ip w =
     (let parent = lydx_get_cattr cif ''parent-interface'';
          ifname = lydx_get_cattr cif ''name'';
          (err, w) = dagger_add_dep os net (pstr ifname) (pstr parent) w
      in if err \<noteq> 0 then Some (err, w)
         else
           (let otag = lydx_get_descendant (lyd_child (if dif \<noteq> None then dif else cif))
                         [''encapsulation'', ''dot1q-vlan'', ''outer-tag'']
            in if otag = None then Some (0, w)
               else
                 (let w = fput ip (''link add dev '' @ pstr ifname @ '' down link '' @ pstr parent
                            @ '' type vlan'') w;
                      typed = lydx_get_diff (lydx_get_child otag ''tag-type'');
                      vidd = lydx_get_diff (lydx_get_child otag ''vlan-id'');
                      finish = (\<lambda>w.
                        (let w = (if nd_modified vidd then fput ip ('' id '' @ pstr (nd_new vidd)) w
                                  else w)
                         in Some (0, fput ip nl w)))
                  in if nd_modified typed then
                       do { c \<leftarrow> streq (nd_new typed) ''ieee802-dot1q-types:c-vlan'';
                            if c then finish (fput ip '' proto 802.1Q'' w)
                            else do {
                              s \<leftarrow> streq (nd_new typed) ''ieee802-dot1q-types:s-vlan'';
                              if s then finish (fput ip '' proto 802.1ad'' w)
                              else Some (- ENOSYS, w) } }
                     else finish w)))"

text \<open>The forwarding mask is an \<open>int\<close>: shifting 1 by 31 or more, or by a negative number, is
  undefined.\<close>

definition shl1 :: "int \<Rightarrow> 32 word option" where
  "shl1 val = (if 0 \<le> val \<and> val < 31 then Some (push_bit (nat val) 1) else None)"

fun fwd_mask_loop :: "lyd_ref list \<Rightarrow> 32 word \<Rightarrow> 32 word option" where
  "fwd_mask_loop [] fwd_mask = Some fwd_mask"
| "fwd_mask_loop (proto # rest) fwd_mask =
     do { is_fwd \<leftarrow> streq (n_schema (r_node proto)) ''ieee-group-forward'';
          if \<not> is_fwd then fwd_mask_loop rest fwd_mask
          else
            (case n_union (r_node proto) of
               None \<Rightarrow> fwd_mask_loop rest fwd_mask
             | Some actual \<Rightarrow>
                 do { b \<leftarrow> shl1 (case actual of LyUint8 v \<Rightarrow> uint v | LyEnum v \<Rightarrow> v);
                      fwd_mask_loop rest (fwd_mask OR b) }) }"

definition netdag_get_bridge_fwd_mask :: "lyd_ptr \<Rightarrow> int option" where
  "netdag_get_bridge_fwd_mask cif =
     (let node = lydx_get_descendant (lyd_child cif) [''bridge''] in
      if node = None then Some 0
      else map_option sint (fwd_mask_loop (LY_LIST_FOR (lyd_child node)) 0))"

definition netdag_set_bridge :: "lyd_ptr \<Rightarrow> string \<Rightarrow> step" where
  "netdag_set_bridge cif ip w =
     do { mask \<leftarrow> netdag_get_bridge_fwd_mask cif;
          Some (0, fput ip (''link set dev '' @ pstr (lydx_get_cattr cif ''name'')
                 @ '' type bridge group_fwd_mask '' @ dec_int mask @ nl) w) }"

definition netdag_gen_afspec_add :: "os \<Rightarrow> dagger \<Rightarrow> lyd_ptr \<Rightarrow> string \<Rightarrow> step" where
  "netdag_gen_afspec_add os net cif ip w =
     (let ifname = lydx_get_cattr cif ''name'';
          iftype = lydx_get_cattr cif ''type''
      in do {
        iftype \<leftarrow> iftype;
        if iftype = ''iana-if-type:bridge'' then
          do { mask \<leftarrow> netdag_get_bridge_fwd_mask cif;
               Some (0, fput ip (''link add dev '' @ pstr ifname
                      @ '' type bridge group_fwd_mask '' @ dec_int mask @ nl) w) }
        else if iftype = ''infix-if-type:veth'' then netdag_gen_veth os net cif ip w
        else if iftype = ''iana-if-type:l2vlan'' then netdag_gen_vlan os net None cif ip w
        else Some (- ENOSYS, w) })"

definition netdag_gen_afspec_set :: "os \<Rightarrow> dagger \<Rightarrow> lyd_ptr \<Rightarrow> lyd_ptr \<Rightarrow> string \<Rightarrow> step" where
  "netdag_gen_afspec_set os net dif cif ip w =
     do { iftype \<leftarrow> lydx_get_cattr cif ''type'';
          if iftype = ''iana-if-type:bridge'' then netdag_set_bridge cif ip w
          else if iftype = ''iana-if-type:l2vlan'' then netdag_gen_vlan os net dif cif ip w
          else if iftype = ''infix-if-type:veth'' then Some (0, w)
          else Some (- ENOSYS, w) }"

definition netdag_bridge_links :: "os \<Rightarrow> dagger \<Rightarrow> lyd_ptr \<Rightarrow> string \<Rightarrow> step" where
  "netdag_bridge_links os net cif ip w =
     (let ifname = lydx_get_cattr cif ''name'';
          node = lydx_get_descendant (lyd_child cif) [''bridge-port'']
      in if node = None then Some (0, w)
         else
           (let brname = lydx_get_cattr node ''bridge'';
                w = fput ip ('' master '' @ pstr brname) w
            in Some (dagger_add_dep os net (pstr ifname) (pstr brname) w)))"

definition netdag_must_del :: "lyd_ptr \<Rightarrow> lyd_ptr \<Rightarrow> bool option" where
  "netdag_must_del dif cif =
     do { iftype \<leftarrow> lydx_get_cattr cif ''type'';
          if iftype = ''iana-if-type:bridge'' then Some False
          else if iftype = ''iana-if-type:l2vlan'' then
            Some (lydx_get_cattr dif ''parent-interface'' \<noteq> None
              \<or> lydx_get_descendant (lyd_child dif)
                   [''encapsulation'', ''dot1q-vlan'', ''outer-tag''] \<noteq> None)
          else if iftype = ''infix-if-type:veth'' then
            Some (lydx_get_descendant (lyd_child dif) [''peer''] \<noteq> None)
          else Some False }"

section \<open>One interface\<close>

definition netdag_gen_iface_del :: "os \<Rightarrow> dagger \<Rightarrow> lyd_ptr \<Rightarrow> bool \<Rightarrow> world \<Rightarrow> int \<times> world" where
  "netdag_gen_iface_del os net dif fixed w =
     (let ifname = lydx_get_cattr dif ''name'' in
      case dagger_fopen_current os net ''exit'' (pstr ifname) 50 ''exit.ip'' w of
        (None, w) \<Rightarrow> (- EIO, w)
      | (Some ip, w) \<Rightarrow>
          (0, if fixed
              then fput ip (''addr flush dev '' @ pstr ifname @ nl)
                     (fput ip (''link set dev '' @ pstr ifname @ '' down'' @ nl) w)
              else fput ip (''link del dev '' @ pstr ifname @ nl) w))"

text \<open>The part of \<open>netdag_gen_iface\<close> between opening \<open>init.ip\<close> and \<open>err_close_ip\<close>.\<close>

definition gen_iface_steps ::
  "os \<Rightarrow> dagger \<Rightarrow> bool \<Rightarrow> lydx_op \<Rightarrow> lyd_ptr \<Rightarrow> lyd_ptr \<Rightarrow> string \<Rightarrow> string \<Rightarrow> step list" where
  "gen_iface_steps os net fixed op dif cif ifname ip =
     [\<lambda>w. if \<not> fixed \<and> op = LYDX_OP_CREATE then netdag_gen_afspec_add os net cif ip w
          else Some (0, w),
      put_step ip (''link set dev '' @ ifname @ '' down''),
      netdag_gen_ipv4_autoconf os net cif dif,
      netdag_gen_ipv6_autoconf ip cif dif,
      netdag_bridge_links os net cif ip,
      put_step ip nl,
      \<lambda>w. if \<not> fixed \<and> op \<noteq> LYDX_OP_CREATE then netdag_gen_afspec_set os net dif cif ip w
          else Some (0, w),
      netdag_gen_ip_addrs os ip ''ipv4'' cif dif,
      netdag_gen_ip_addrs os ip ''ipv6'' cif dif,
      (let attr = lydx_get_cattr cif ''enabled'' in
       if attr = None \<or> attr = Some ''true''
       then put_step ip (''link set dev '' @ ifname @ '' up'' @ nl) else (\<lambda>w. Some (0, w))),
      netdag_gen_sysctl os net dif]"

definition sr_status :: "int \<Rightarrow> int" where
  "sr_status err = (if err \<noteq> 0 then SR_ERR_INTERNAL else SR_ERR_OK)"

text \<open>From opening \<open>init.ip\<close> on.\<close>

definition gen_iface_init ::
  "os \<Rightarrow> dagger \<Rightarrow> bool \<Rightarrow> lydx_op \<Rightarrow> lyd_ptr \<Rightarrow> lyd_ptr \<Rightarrow> string \<Rightarrow> step" where
  "gen_iface_init os net fixed op dif cif ifname w =
     (case dagger_fopen_next os net ''init'' ifname 50 ''init.ip'' w of
        (None, w) \<Rightarrow> Some (- EIO, w)
      | (Some ip, w) \<Rightarrow> run_steps (gen_iface_steps os net fixed op dif cif ifname ip) w)"

definition netdag_gen_iface :: "os \<Rightarrow> dagger \<Rightarrow> lyd_ref \<Rightarrow> lyd_ptr \<Rightarrow> step" where
  "netdag_gen_iface os net dif cif w =
     (let ifname = lydx_get_cattr (Some dif) ''name'';
          op = lydx_get_op (Some dif)
      in
      do { fixed \<leftarrow> (if iface_is_phys os ifname then Some True else streq ifname ''lo'');
           if op = LYDX_OP_DELETE then
             (let (err, w) = netdag_gen_iface_del os net (Some dif) fixed w
              in Some (sr_status err, w))
           else do {
             must_del \<leftarrow> (if op \<noteq> LYDX_OP_CREATE then netdag_must_del (Some dif) cif else Some False);
             if must_del then
               (let (err, w) = netdag_gen_iface_del os net (Some dif) fixed w
                in if err \<noteq> 0 then Some (sr_status err, w)
                   else do {
                     cif \<leftarrow> cif;
                     let cif = lyd_new_meta cif ''yang:operation'' ''create'';
                     (err, w) \<leftarrow>
                       gen_iface_init os net fixed LYDX_OP_CREATE (Some cif) (Some cif) (pstr ifname) w;
                     Some (sr_status err, w) })
             else do {
               (err, w) \<leftarrow> gen_iface_init os net fixed op (Some dif) cif (pstr ifname) w;
               Some (sr_status err, w) } } })"

section \<open>The change callback\<close>

fun add_nodes :: "os \<Rightarrow> dagger \<Rightarrow> lyd_ref list \<Rightarrow> step" where
  "add_nodes os net [] w = Some (0, w)"
| "add_nodes os net (iface # rest) w =
     do { is_if \<leftarrow> streq (n_schema (r_node iface)) ''interface'';
          if is_if then
            (let (err, w) = dagger_add_node os net (pstr (lydx_get_cattr (Some iface) ''name'')) w
             in if err \<noteq> 0 then Some (SR_ERR_INTERNAL, w) else add_nodes os net rest w)
          else add_nodes os net rest w }"

definition netdag_init :: "os \<Rightarrow> dagger \<Rightarrow> lyd_ptr \<Rightarrow> lyd_ptr \<Rightarrow> step" where
  "netdag_init os net cifs difs =
     run_steps [add_nodes os net (LY_LIST_FOR cifs), add_nodes os net (LY_LIST_FOR difs)]"

text \<open>The inner loop of \<open>ifchange\<close>: the configured interface with the name of \<open>dif\<close>.\<close>

fun find_cif :: "lyd_ref \<Rightarrow> lyd_ref list \<Rightarrow> lyd_ptr option" where
  "find_cif dif [] = Some None"
| "find_cif dif (cif # rest) =
     do { is_if \<leftarrow> streq (n_schema (r_node cif)) ''interface'';
          if is_if then
            do { dn \<leftarrow> lydx_get_cattr (Some dif) ''name'';
                 cn \<leftarrow> lydx_get_cattr (Some cif) ''name'';
                 if dn = cn then Some (Some cif) else find_cif dif rest }
          else find_cif dif rest }"

fun gen_ifaces :: "os \<Rightarrow> dagger \<Rightarrow> lyd_ptr \<Rightarrow> lyd_ref list \<Rightarrow> step" where
  "gen_ifaces os net cifs [] w = Some (0, w)"
| "gen_ifaces os net cifs (dif # rest) w =
     do { is_if \<leftarrow> streq (n_schema (r_node dif)) ''interface'';
          if is_if then
            do { cif \<leftarrow> find_cif dif (LY_LIST_FOR cifs);
                 (err, w) \<leftarrow> netdag_gen_iface os net dif cif w;
                 if err \<noteq> 0 then Some (err, w) else gen_ifaces os net cifs rest w }
          else gen_ifaces os net cifs rest w }"

text \<open>What sysrepo hands over with a change: the result of \<open>sr_get_data\<close> (status, and the
  \<open>sr_data_t\<close> with its tree, null if there is none) and the diff.\<close>

record if_event =
  ev_cfg :: "int \<times> lyd_ptr option"
  ev_diff :: sr_diff

text \<open>Everything between a successful claim and \<open>err_abandon\<close>.\<close>

definition ifchange_body :: "os \<Rightarrow> dagger \<Rightarrow> if_event \<Rightarrow> step" where
  "ifchange_body os net ev w =
     (case ev_cfg ev of
        (err, cfg) \<Rightarrow>
          if err \<noteq> 0 then Some (err, w)
          else do {
            (err, diff) \<leftarrow> srx_get_diff (ev_diff ev);
            if err \<noteq> 0 then Some (err, w)
            else do {
              tree \<leftarrow> cfg;
              let cifs = lydx_get_descendant tree [''interfaces'', ''interface''];
              let difs = lydx_get_descendant diff [''interfaces'', ''interface''];
              run_steps [netdag_init os net cifs difs,
                         gen_ifaces os net cifs (LY_LIST_FOR difs)] w } })"

definition run_net :: string where "run_net = ''/run/net''"

definition ifchange ::
  "os \<Rightarrow> sr_event \<Rightarrow> if_event \<Rightarrow> dagger \<Rightarrow> world \<Rightarrow> (int \<times> dagger \<times> world) option" where
  "ifchange os event ev net w =
     (case event of
        SR_EV_ABORT \<Rightarrow> dagger_abandon os net w
      | SR_EV_DONE \<Rightarrow> dagger_evolve_or_abandon os net w
      | SR_EV_CHANGE \<Rightarrow>
          (let (err, net, w) = dagger_claim os run_net w in
           if err \<noteq> 0 then Some (err, net, w)
           else do {
             (err, w) \<leftarrow> ifchange_body os net ev w;
             if err \<noteq> 0 then
               do { (rc, net, w) \<leftarrow> dagger_abandon os net w; Some (err, net, w) }
             else Some (0, net, w) })
      | _ \<Rightarrow> Some (SR_ERR_OK, net, w))"

end
