(* ===== verification/IfInfer.thy ===== *)
theory IfInfer
  imports Netdag
begin

text \<open>
  \<open>src/src/confd/src/confd/ietf-interfaces.c\<close>, the candidate-datastore half: inferring the type
  of a new interface, the other end of a virtual Ethernet pair and the settings of a VLAN interface
  from names (\<open>ifchange_cand\<close> and its helpers).  The datastore is sysrepo's, accessed through
  \<open>srx_val.c\<close>; \<open>fnmatch\<close> is modelled for the patterns the source uses.
\<close>

section \<open>Extended glob patterns\<close>

text \<open>A literal character, \<open>*\<close>, and \<open>+([...])\<close>: one or more characters of a class.\<close>

datatype pat = PLit char | PStar | PPlus "char \<Rightarrow> bool"

fun fnmatch :: "pat list \<Rightarrow> string \<Rightarrow> bool" where
  "fnmatch [] s = (s = [])"
| "fnmatch (PLit c # ps) s = (case s of [] \<Rightarrow> False | x # xs \<Rightarrow> x = c \<and> fnmatch ps xs)"
| "fnmatch (PStar # ps) s =
     (fnmatch ps s \<or> (case s of [] \<Rightarrow> False | x # xs \<Rightarrow> fnmatch (PStar # ps) xs))"
| "fnmatch (PPlus C # ps) s =
     (case s of
        [] \<Rightarrow> False
      | x # xs \<Rightarrow> C x \<and> (fnmatch ps xs \<or> fnmatch (PPlus C # ps) xs))"

text \<open>The class \<open>[0-9a-z_-]\<close>.\<close>

definition veth_char :: "char \<Rightarrow> bool" where
  "veth_char c =
     (is_digit c \<or> (let n = (of_char c :: nat) in 97 \<le> n \<and> n \<le> 122) \<or> c = CHR ''_'' \<or> c = CHR ''-'')"

definition pat_br :: "pat list" where "pat_br = map PLit ''br'' @ [PPlus is_digit]"
definition pat_lag :: "pat list" where "pat_lag = map PLit ''lag'' @ [PPlus is_digit]"
definition pat_veth :: "pat list" where "pat_veth = map PLit ''veth'' @ [PPlus veth_char]"
definition pat_vlan :: "pat list" where "pat_vlan = map PLit ''vlan'' @ [PPlus is_digit]"
definition pat_dotted :: "pat list" where "pat_dotted = [PStar, PLit (CHR ''.''), PPlus is_digit]"

section \<open>Paths\<close>

definition iface_xpath :: "string \<Rightarrow> cstr" where
  "iface_xpath xpath =
     (case split_at_first '']/'' xpath of
        None \<Rightarrow> None
      | Some (before, rest) \<Rightarrow> Some (before @ '']''))"

definition IF_XPATH :: string where "IF_XPATH = ''/ietf-interfaces:interfaces/interface''"

definition if_name_xpath :: "string \<Rightarrow> string" where
  "if_name_xpath n = ''/interfaces/interface[name='' @ sq @ n @ sq @ '']/name''"

definition if_item_xpath :: "string \<Rightarrow> string \<Rightarrow> string" where
  "if_item_xpath n item = IF_XPATH @ ''[name='' @ sq @ n @ sq @ '']/'' @ item"

definition outer_tag_xpath :: "string \<Rightarrow> string \<Rightarrow> string" where
  "outer_tag_xpath xpath leaf =
     xpath @ ''/ietf-if-extensions:encapsulation'' @ ''/ietf-if-vlan-encapsulation:dot1q-vlan''
     @ ''/outer-tag/'' @ leaf"

definition parent_xpath :: "string \<Rightarrow> string" where
  "parent_xpath xpath = xpath @ ''/ietf-if-extensions:parent-interface''"

section \<open>Inference\<close>

text \<open>The sites that use \<open>errno\<close> set it first, so none is passed in.\<close>

definition get_str :: "'ds sr \<Rightarrow> 'ds \<Rightarrow> string \<Rightarrow> cstr" where
  "get_str sr ds xpath = fst (srx_get_str sr ds xpath 0)"

definition nitems :: "'ds sr \<Rightarrow> 'ds \<Rightarrow> string \<Rightarrow> int \<times> nat" where
  "nitems sr ds xpath = (case srx_nitems sr ds xpath of (rc, cnt, errno) \<Rightarrow> (rc, cnt))"

definition ifchange_cand_infer_veth :: "'ds sr \<Rightarrow> string \<Rightarrow> 'ds \<Rightarrow> int \<times> 'ds" where
  "ifchange_cand_infer_veth sr path ds =
     (case iface_xpath path of
        None \<Rightarrow> (SR_ERR_SYS, ds)
      | Some xpath \<Rightarrow>
          if get_str sr ds (xpath @ ''/type'') \<noteq> Some ''infix-if-type:veth'' then (SR_ERR_OK, ds)
          else
            (case get_str sr ds (xpath @ ''/name'') of
               None \<Rightarrow> (SR_ERR_OK, ds)
             | Some ifname \<Rightarrow>
                 (case get_str sr ds (xpath @ ''/veth/peer'') of
                    None \<Rightarrow> (SR_ERR_OK, ds)
                  | Some peer \<Rightarrow>
                      (case nitems sr ds (if_name_xpath peer) of
                         (err, cnt) \<Rightarrow>
                           if err \<noteq> 0 \<or> cnt \<noteq> 0 then (err, ds)
                           else
                             (case srx_set_str sr ds ''infix-if-type:veth'' (if_item_xpath peer ''type'') of
                                (err, ds) \<Rightarrow>
                                  if err \<noteq> 0 then (err, ds)
                                  else srx_set_str sr ds ifname
                                         (if_item_xpath peer ''infix-interfaces:veth/peer''))))))"

text \<open>One of the three settings of a VLAN: set unless it is there already.  The error of the look-up
  is overwritten by the next one, except for the last.\<close>

definition infer_item :: "'ds sr \<Rightarrow> string \<Rightarrow> string \<Rightarrow> 'ds \<Rightarrow> int \<times> bool \<times> 'ds" where
  "infer_item sr xpath val ds =
     (case nitems sr ds xpath of
        (err, cnt) \<Rightarrow>
          if err = 0 \<and> cnt = 0 then
            (case srx_set_item sr ds (SrString val) xpath of (err, ds) \<Rightarrow> (err, err \<noteq> 0, ds))
          else (err, False, ds))"

definition infer_vlan_items :: "'ds sr \<Rightarrow> string \<Rightarrow> string \<Rightarrow> string \<Rightarrow> 'ds \<Rightarrow> int \<times> 'ds" where
  "infer_vlan_items sr xpath parent vidstr ds =
     (case infer_item sr (parent_xpath xpath) parent ds of
        (err, stop, ds) \<Rightarrow>
          if stop then (err, ds)
          else
            (case infer_item sr (outer_tag_xpath xpath ''tag-type'') ''ieee802-dot1q-types:c-vlan'' ds of
               (err, stop, ds) \<Rightarrow>
                 if stop then (err, ds)
                 else
                   (case infer_item sr (outer_tag_xpath xpath ''vlan-id'') vidstr ds of
                      (err, stop, ds) \<Rightarrow> (err, ds))))"

definition ifchange_cand_infer_vlan :: "'ds sr \<Rightarrow> string \<Rightarrow> 'ds \<Rightarrow> int \<times> 'ds" where
  "ifchange_cand_infer_vlan sr path ds =
     (case iface_xpath path of
        None \<Rightarrow> (SR_ERR_SYS, ds)
      | Some xpath \<Rightarrow>
          if get_str sr ds (xpath @ ''/type'') \<noteq> Some ''iana-if-type:l2vlan'' then (SR_ERR_OK, ds)
          else
            (case get_str sr ds (xpath @ ''/name'') of
               None \<Rightarrow> (SR_ERR_OK, ds)
             | Some ifname \<Rightarrow>
                 if \<not> fnmatch pat_dotted ifname then (SR_ERR_OK, ds)
                 else
                   (case rindex ifname (CHR ''.'') of
                      None \<Rightarrow> (SR_ERR_OK, ds)
                    | Some dot \<Rightarrow>
                        (let parent = take (length ifname - length dot) ifname;
                             vidstr = tl dot;
                             vid = fst (strtoll 10 vidstr)
                         in if vid < 1 \<or> 4095 < vid then (SR_ERR_OK, ds)
                            else
                              (case nitems sr ds (if_name_xpath parent) of
                                 (err, cnt) \<Rightarrow>
                                   if err \<noteq> 0 \<or> cnt = 0 then (err, ds)
                                   else infer_vlan_items sr xpath parent vidstr ds)))))"

definition inferred_type :: "os \<Rightarrow> string \<Rightarrow> cstr" where
  "inferred_type os ifname =
     (if iface_is_phys os (Some ifname) then Some ''iana-if-type:ethernetCsmacd''
      else if fnmatch pat_br ifname then Some ''iana-if-type:bridge''
      else if fnmatch pat_lag ifname then Some ''iana-if-type:ieee8023adLag''
      else if fnmatch pat_veth ifname then Some ''infix-if-type:veth''
      else if fnmatch pat_vlan ifname then Some ''iana-if-type:l2vlan''
      else if fnmatch pat_dotted ifname then Some ''iana-if-type:l2vlan''
      else None)"

text \<open>The null test is on \<open>path\<close>, so a null \<open>xpath\<close> goes on as the text \<open>(null)\<close>.\<close>

definition ifchange_cand_infer_type :: "os \<Rightarrow> 'ds sr \<Rightarrow> string \<Rightarrow> 'ds \<Rightarrow> int \<times> 'ds" where
  "ifchange_cand_infer_type os sr path ds =
     (let xpath = pstr (iface_xpath path) in
      case get_str sr ds (xpath @ ''/type'') of
        Some type \<Rightarrow> (SR_ERR_OK, ds)
      | None \<Rightarrow>
          (case get_str sr ds (xpath @ ''/name'') of
             None \<Rightarrow> (SR_ERR_INTERNAL, ds)
           | Some ifname \<Rightarrow>
               (case inferred_type os ifname of
                  None \<Rightarrow> (SR_ERR_OK, ds)
                | Some t \<Rightarrow> srx_set_item sr ds (SrString t) (xpath @ ''/type''))))"

section \<open>The callback\<close>

datatype sr_change_oper = SR_OP_CREATED | SR_OP_MODIFIED | SR_OP_DELETED | SR_OP_MOVED

text \<open>The changes the iterator delivers, each with its operation and the path of the new value.\<close>

fun cand_changes :: "os \<Rightarrow> 'ds sr \<Rightarrow> (sr_change_oper \<times> string) list \<Rightarrow> 'ds \<Rightarrow> int \<times> 'ds" where
  "cand_changes os sr [] ds = (SR_ERR_OK, ds)"
| "cand_changes os sr ((op, xpath) # rest) ds =
     (if op = SR_OP_CREATED \<or> op = SR_OP_MODIFIED then
        (case ifchange_cand_infer_type os sr xpath ds of
           (err, ds) \<Rightarrow>
             if err \<noteq> 0 then (err, ds)
             else
               (case ifchange_cand_infer_veth sr xpath ds of
                  (err, ds) \<Rightarrow>
                    if err \<noteq> 0 then (err, ds)
                    else
                      (case ifchange_cand_infer_vlan sr xpath ds of
                         (err, ds) \<Rightarrow>
                           if err \<noteq> 0 then (err, ds) else cand_changes os sr rest ds)))
      else cand_changes os sr rest ds)"

definition ifchange_cand ::
  "os \<Rightarrow> 'ds sr \<Rightarrow> sr_event \<Rightarrow> int \<Rightarrow> (sr_change_oper \<times> string) list \<Rightarrow> 'ds \<Rightarrow> int \<times> 'ds" where
  "ifchange_cand os sr event iter_err changes ds =
     (if event \<noteq> SR_EV_UPDATE \<and> event \<noteq> SR_EV_CHANGE then (SR_ERR_OK, ds)
      else if iter_err \<noteq> 0 then (iter_err, ds)
      else (case cand_changes os sr changes ds of (err, ds) \<Rightarrow> (SR_ERR_OK, ds)))"

section \<open>What the patterns match\<close>

lemma fnmatch_lits: "fnmatch (map PLit l @ ps) s \<longleftrightarrow> (\<exists>r. s = l @ r \<and> fnmatch ps r)"
proof (induction l arbitrary: s)
  case (Cons c l)
  then show ?case by (cases s) auto
qed simp

lemma fnmatch_plus: "fnmatch [PPlus C] s \<longleftrightarrow> s \<noteq> [] \<and> list_all C s"
proof (induction s)
  case (Cons x xs)
  then show ?case by (cases xs) auto
qed simp

lemma fnmatch_star: "fnmatch (PStar # ps) s \<longleftrightarrow> (\<exists>a b. s = a @ b \<and> fnmatch ps b)"
proof (induction s)
  case (Cons x xs)
  show ?case
  proof
    assume "fnmatch (PStar # ps) (x # xs)"
    then consider "fnmatch ps (x # xs)" | "fnmatch (PStar # ps) xs" by auto
    then show "\<exists>a b. x # xs = a @ b \<and> fnmatch ps b"
    proof cases
      case 1
      then show ?thesis by (intro exI [of _ "[]"] exI [of _ "x # xs"]) simp
    next
      case 2
      with Cons.IH obtain a b where "xs = a @ b" "fnmatch ps b" by blast
      then show ?thesis by (intro exI [of _ "x # a"] exI [of _ b]) simp
    qed
  next
    assume "\<exists>a b. x # xs = a @ b \<and> fnmatch ps b"
    then obtain a b where "x # xs = a @ b" "fnmatch ps b" by blast
    then have "fnmatch ps (x # xs) \<or> (\<exists>a b. xs = a @ b \<and> fnmatch ps b)"
      by (cases a) auto
    with Cons.IH have "fnmatch ps (x # xs) \<or> fnmatch (PStar # ps) xs" by blast
    then show "fnmatch (PStar # ps) (x # xs)" by (simp only: fnmatch.simps(3) [of ps "x # xs"] list.case)
  qed
qed simp

definition digits :: "string \<Rightarrow> bool" where
  "digits d = (d \<noteq> [] \<and> list_all is_digit d)"

lemma fnmatch_pats:
  "fnmatch pat_br s \<longleftrightarrow> (\<exists>d. s = ''br'' @ d \<and> digits d)"
  "fnmatch pat_lag s \<longleftrightarrow> (\<exists>d. s = ''lag'' @ d \<and> digits d)"
  "fnmatch pat_vlan s \<longleftrightarrow> (\<exists>d. s = ''vlan'' @ d \<and> digits d)"
  "fnmatch pat_veth s \<longleftrightarrow> (\<exists>d. s = ''veth'' @ d \<and> d \<noteq> [] \<and> list_all veth_char d)"
  unfolding pat_br_def pat_lag_def pat_vlan_def pat_veth_def fnmatch_lits fnmatch_plus digits_def
  by blast+

lemma fnmatch_dotted: "fnmatch pat_dotted s \<longleftrightarrow> (\<exists>p d. s = p @ ''.'' @ d \<and> digits d)"
proof -
  have "fnmatch [PLit (CHR ''.''), PPlus is_digit] b \<longleftrightarrow> (\<exists>d. b = ''.'' @ d \<and> digits d)" for b
    using fnmatch_lits [of "''.''" "[PPlus is_digit]" b]
    by (simp add: fnmatch_plus digits_def del: fnmatch.simps)
  then show ?thesis unfolding pat_dotted_def fnmatch_star by auto
qed

lemma digits_no_dot: "digits d \<Longrightarrow> CHR ''.'' \<notin> set d"
  by (auto simp: digits_def list_all_iff is_digit_def digit_of_def)

lemma rindex_dotted: "digits d \<Longrightarrow> rindex (p @ ''.'' @ d) (CHR ''.'') = Some (''.'' @ d)"
  using digits_no_dot rindex_append_same [of "CHR ''.''" d p] by simp

section \<open>What a datastore promises\<close>

text \<open>\<open>view ds xpath\<close> are the items at a path.  Queries answer with them and leave \<open>errno\<close>
  alone; setting a leaf succeeds, makes it the only item at its path and leaves every path alone
  that does not lead to it.\<close>

definition store_laws :: "'ds sr \<Rightarrow> ('ds \<Rightarrow> string \<Rightarrow> sr_val list) \<Rightarrow> bool" where
  "store_laws sr view =
     ((\<forall>ds x. sr_get_items sr ds x = (0, None, view ds x))
      \<and> (\<forall>ds x v. \<exists>ds'. sr_set_item sr ds x v = (0, ds') \<and> view ds' x = [v]
           \<and> (\<forall>y. \<not> has_prefix y x \<longrightarrow> view ds' y = view ds y)))"

lemma store_nitems: "store_laws sr view \<Longrightarrow> nitems sr ds x = (0, length (view ds x))"
  by (auto simp: store_laws_def nitems_def srx_nitems_def srx_vnitems_def srx_vaget_def errno_defs)

lemma infer_item_effect:
  assumes "store_laws sr view"
  shows "\<exists>ds'. infer_item sr x val ds = (0, False, ds')
    \<and> view ds' x = (if view ds x = [] then [SrString val] else view ds x)
    \<and> (\<forall>y. \<not> has_prefix y x \<longrightarrow> view ds' y = view ds y)"
proof (cases "view ds x = []")
  case True
  from assms obtain ds' where "sr_set_item sr ds x (SrString val) = (0, ds')" "view ds' x = [SrString val]"
    "\<forall>y. \<not> has_prefix y x \<longrightarrow> view ds' y = view ds y" unfolding store_laws_def by blast
  with True show ?thesis by (simp add: infer_item_def store_nitems [OF assms] srx_set_item_def)
next
  case False
  then show ?thesis by (simp add: infer_item_def store_nitems [OF assms])
qed

lemma xpath_prefixes:
  "\<not> has_prefix (parent_xpath x) (outer_tag_xpath x l)" "\<not> has_prefix (outer_tag_xpath x l) (parent_xpath x)"
  "\<not> has_prefix (outer_tag_xpath x ''tag-type'') (outer_tag_xpath x ''vlan-id'')"
  "\<not> has_prefix (outer_tag_xpath x ''vlan-id'') (outer_tag_xpath x ''tag-type'')"
  by (auto simp: has_prefix_iff parent_xpath_def outer_tag_xpath_def)

section \<open>Properties\<close>

text \<open>An inferred type fits the name and is inferred once: a type that is already set is left
  alone; otherwise the only thing written is the interface's \<open>type\<close>, a physical interface becoming
  Ethernet and the names \<open>br<n>\<close>, \<open>lag<n>\<close>, \<open>veth<chars>\<close>, \<open>vlan<n>\<close> and \<open><parent>.<n>\<close> the type
  they stand for, and nothing is written for any other name.\<close>

theorem infer_type_by_name:
  assumes "iface_xpath path = Some xpath"
  shows "(get_str sr ds (xpath @ ''/type'') \<noteq> None \<longrightarrow> ifchange_cand_infer_type os sr path ds = (0, ds))
    \<and> (\<forall>n. get_str sr ds (xpath @ ''/type'') = None \<longrightarrow> get_str sr ds (xpath @ ''/name'') = Some n \<longrightarrow>
        (\<exists>t. ifchange_cand_infer_type os sr path ds
            = (case t of None \<Rightarrow> (0, ds) | Some t \<Rightarrow> sr_set_item sr ds (xpath @ ''/type'') (SrString t))
          \<and> (t = Some ''iana-if-type:ethernetCsmacd'' \<longleftrightarrow> iface_is_phys os (Some n))
          \<and> (\<not> iface_is_phys os (Some n) \<longrightarrow>
               (t = Some ''iana-if-type:bridge'' \<longleftrightarrow> (\<exists>d. n = ''br'' @ d \<and> digits d))
             \<and> (t = Some ''iana-if-type:ieee8023adLag'' \<longleftrightarrow> (\<exists>d. n = ''lag'' @ d \<and> digits d))
             \<and> (t = Some ''infix-if-type:veth'' \<longleftrightarrow> (\<exists>d. n = ''veth'' @ d \<and> d \<noteq> [] \<and> list_all veth_char d))
             \<and> (t = Some ''iana-if-type:l2vlan'' \<longrightarrow>
                  (\<exists>d. n = ''vlan'' @ d \<and> digits d) \<or> (\<exists>p d. n = p @ ''.'' @ d \<and> digits d))
             \<and> (t = None \<longrightarrow> \<not> (\<exists>p d. n = p @ ''.'' @ d \<and> digits d)))))"
proof (intro conjI impI allI)
  assume "get_str sr ds (xpath @ ''/type'') \<noteq> None"
  with assms show "ifchange_cand_infer_type os sr path ds = (0, ds)"
    by (auto simp: ifchange_cand_infer_type_def SR_ERR_OK_def)
next
  fix n
  assume t: "get_str sr ds (xpath @ ''/type'') = None" and n: "get_str sr ds (xpath @ ''/name'') = Some n"
  let ?t = "inferred_type os n"
  show "\<exists>t. ifchange_cand_infer_type os sr path ds
            = (case t of None \<Rightarrow> (0, ds) | Some t \<Rightarrow> sr_set_item sr ds (xpath @ ''/type'') (SrString t))
          \<and> (t = Some ''iana-if-type:ethernetCsmacd'' \<longleftrightarrow> iface_is_phys os (Some n))
          \<and> (\<not> iface_is_phys os (Some n) \<longrightarrow>
               (t = Some ''iana-if-type:bridge'' \<longleftrightarrow> (\<exists>d. n = ''br'' @ d \<and> digits d))
             \<and> (t = Some ''iana-if-type:ieee8023adLag'' \<longleftrightarrow> (\<exists>d. n = ''lag'' @ d \<and> digits d))
             \<and> (t = Some ''infix-if-type:veth'' \<longleftrightarrow> (\<exists>d. n = ''veth'' @ d \<and> d \<noteq> [] \<and> list_all veth_char d))
             \<and> (t = Some ''iana-if-type:l2vlan'' \<longrightarrow>
                  (\<exists>d. n = ''vlan'' @ d \<and> digits d) \<or> (\<exists>p d. n = p @ ''.'' @ d \<and> digits d))
             \<and> (t = None \<longrightarrow> \<not> (\<exists>p d. n = p @ ''.'' @ d \<and> digits d)))"
    unfolding fnmatch_pats [symmetric] fnmatch_dotted [symmetric]
  proof (intro exI [of _ ?t] conjI impI)
    show "ifchange_cand_infer_type os sr path ds
        = (case ?t of None \<Rightarrow> (0, ds) | Some t \<Rightarrow> sr_set_item sr ds (xpath @ ''/type'') (SrString t))"
      using assms t n
      by (simp add: ifchange_cand_infer_type_def SR_ERR_OK_def srx_set_item_def split: option.splits)
    have br: "fnmatch pat_lag n \<Longrightarrow> \<not> fnmatch pat_br n" "fnmatch pat_veth n \<Longrightarrow> \<not> fnmatch pat_br n"
      "fnmatch pat_veth n \<Longrightarrow> \<not> fnmatch pat_lag n"
      by (auto simp: fnmatch_pats)
    show "?t = Some ''iana-if-type:ethernetCsmacd'' \<longleftrightarrow> iface_is_phys os (Some n)"
      by (simp add: inferred_type_def)
    assume np: "\<not> iface_is_phys os (Some n)"
    show "?t = Some ''iana-if-type:bridge'' \<longleftrightarrow> fnmatch pat_br n"
      "?t = Some ''iana-if-type:ieee8023adLag'' \<longleftrightarrow> fnmatch pat_lag n"
      "?t = Some ''infix-if-type:veth'' \<longleftrightarrow> fnmatch pat_veth n"
      using np br by (auto simp: inferred_type_def)
    show "fnmatch pat_vlan n \<or> fnmatch pat_dotted n" if "?t = Some ''iana-if-type:l2vlan''"
      using np that by (simp add: inferred_type_def split: if_splits)
    show "\<not> fnmatch pat_dotted n" if "?t = None"
      using np that by (simp add: inferred_type_def split: if_splits)
  qed
qed

text \<open>A datastore that holds one item per path.\<close>

definition map_sr :: "(string \<Rightarrow> sr_val list) sr" where
  "map_sr = \<lparr>sr_get_items = (\<lambda>ds x. (0, None, ds x)), sr_set_item = (\<lambda>ds x v. (0, ds(x := [v]))),
     sr_set_item_str = (\<lambda>ds x s. (0, ds(x := [SrString s]))),
     sr_val_to_str = (\<lambda>v. case v of SrString s \<Rightarrow> Some s | _ \<Rightarrow> None)\<rparr>"

definition map_view :: "(string \<Rightarrow> sr_val list) \<Rightarrow> string \<Rightarrow> sr_val list" where
  "map_view ds x = ds x"

definition demo_xpath :: string where
  "demo_xpath = ''/ietf-interfaces:interfaces/interface[name='' @ sq @ ''x'' @ sq @ '']''"

theorem infer_type_by_name_witness:
  "ifchange_cand_infer_type demo_os map_sr (demo_xpath @ ''/name'')
     ((\<lambda>x. [])(demo_xpath @ ''/name'' := [SrString ''br0''], demo_xpath @ ''/type'' := [SrString ''t'']))
   = (0, (\<lambda>x. [])(demo_xpath @ ''/name'' := [SrString ''br0''], demo_xpath @ ''/type'' := [SrString ''t'']))"
proof -
  let ?ds = "(\<lambda>x. [])(demo_xpath @ ''/name'' := [SrString ''br0''], demo_xpath @ ''/type'' := [SrString ''t''])"
  have x: "iface_xpath (demo_xpath @ ''/name'') = Some demo_xpath" by code_simp
  have "get_str map_sr ?ds (demo_xpath @ ''/type'') = Some ''t''" by code_simp
  with infer_type_by_name [OF x, of map_sr ?ds demo_os] show ?thesis by simp
qed


lemma map_sr_laws: "store_laws map_sr map_view"
  by (auto simp: store_laws_def map_sr_def map_view_def has_prefix_iff)

definition demo_vlan_ds :: "string \<Rightarrow> sr_val list" where
  "demo_vlan_ds = (\<lambda>x. [])(demo_xpath @ ''/name'' := [SrString ''e0.10''],
     demo_xpath @ ''/type'' := [SrString ''iana-if-type:l2vlan''],
     if_name_xpath ''e0'' := [SrString ''e0''])"


end
