(* ===== verification/NetdagSafety.thy ===== *)
theory NetdagSafety
  imports Netdag
begin

text \<open>
  Null pointers in \<open>ietf-interfaces.c\<close>: what the YANG schema guarantees about the
  configuration and the diff of a change, that no step of the script generation crashes under it,
  and that \<open>ifchange\<close> is a safe callback of the subscription protocol.
\<close>

section \<open>Validated changes\<close>

text \<open>Leafs that have a value wherever they occur, and forwarding bits within the mask.\<close>

definition valued_leafs :: "string list" where
  "valued_leafs = [''name'', ''type'', ''ip'', ''prefix-length'', ''tag-type'']"

definition node_ok :: "lyd_node \<Rightarrow> bool" where
  "node_ok n =
     (n_schema n \<noteq> None
      \<and> (\<forall>l \<in> set valued_leafs. n_schema n = Some l \<longrightarrow> n_value n \<noteq> None)
      \<and> (case n_union n of
           None \<Rightarrow> True
         | Some (LyUint8 v) \<Rightarrow> v < 31
         | Some (LyEnum v) \<Rightarrow> 0 \<le> v \<and> v < 31))"

definition conf_iface_ok :: "lyd_ref \<Rightarrow> bool" where
  "conf_iface_ok cif =
     (named ''interface'' cif \<longrightarrow>
        lydx_get_cattr (Some cif) ''name'' \<noteq> None \<and> lydx_get_cattr (Some cif) ''type'' \<noteq> None)"

definition diff_iface_ok :: "lyd_ptr \<Rightarrow> lyd_ref \<Rightarrow> bool" where
  "diff_iface_ok cifs dif =
     (named ''interface'' dif \<longrightarrow>
        lydx_get_cattr (Some dif) ''name'' \<noteq> None
        \<and> (lydx_get_op (Some dif) \<noteq> LYDX_OP_DELETE \<longrightarrow>
             list_ex (\<lambda>cif. named ''interface'' cif
               \<and> lydx_get_cattr (Some cif) ''name'' = lydx_get_cattr (Some dif) ''name'')
               (LY_LIST_FOR cifs)))"

definition conf_ok :: "lyd_ptr \<Rightarrow> bool" where
  "conf_ok tree =
     (tree_ok node_ok tree
      \<and> list_all (\<lambda>r. all_nodes plain (r_node r) \<and> list_all plain (r_up r)) (LY_LIST_FOR tree)
      \<and> list_all conf_iface_ok
          (LY_LIST_FOR (lydx_get_descendant tree [''interfaces'', ''interface''])))"

definition valid_if_event :: "if_event \<Rightarrow> bool" where
  "valid_if_event ev =
     (case (ev_cfg ev, ev_iter (ev_diff ev)) of
        ((rc, cfg), (rc', diff)) \<Rightarrow>
          (case diff of
             None \<Rightarrow> False
           | Some difft \<Rightarrow>
               tree_ok node_ok difft
               \<and> (rc = 0 \<longrightarrow>
                    (case cfg of
                       None \<Rightarrow> False
                     | Some tree \<Rightarrow>
                         conf_ok tree
                         \<and> list_all (diff_iface_ok
                               (lydx_get_descendant tree [''interfaces'', ''interface'']))
                             (LY_LIST_FOR (lydx_get_descendant difft [''interfaces'', ''interface'']))))))"

definition live_dag :: "dagger \<Rightarrow> bool" where
  "live_dag net = (case d_next_fp net of SOpen fp \<Rightarrow> True | _ \<Rightarrow> False)"

text \<open>A concrete change: a bridge and a port with an address are created.\<close>

definition demo_leaf :: "string \<Rightarrow> string \<Rightarrow> lyd_node" where
  "demo_leaf name v = LydNode (Some name) (Some v) False [] None []"

definition demo_cont :: "string \<Rightarrow> (string \<times> string) list \<Rightarrow> lyd_node list \<Rightarrow> lyd_node" where
  "demo_cont name meta cs = LydNode (Some name) None False meta None cs"

definition demo_ifaces :: "(string \<times> string) list \<Rightarrow> lyd_node" where
  "demo_ifaces meta =
     demo_cont ''interfaces'' []
       [demo_cont ''interface'' meta
          [demo_leaf ''name'' ''br0'', demo_leaf ''type'' ''iana-if-type:bridge'',
           demo_cont ''bridge'' []
             [LydNode (Some ''ieee-group-forward'') (Some ''lldp'') False [] (Some (LyEnum 14)) []]],
        demo_cont ''interface'' meta
          [demo_leaf ''name'' ''lo'', demo_leaf ''type'' ''iana-if-type:softwareLoopback'',
           demo_cont ''ipv4'' []
             [demo_leaf ''enabled'' ''true'',
              demo_cont ''address'' [] [demo_leaf ''ip'' ''127.0.0.1'', demo_leaf ''prefix-length'' ''8'']],
           demo_cont ''bridge-port'' [] [demo_leaf ''bridge'' ''br0'']]]"

definition demo_event :: if_event where
  "demo_event =
     \<lparr>ev_cfg = (0, Some (Some (LydRef (demo_ifaces []) [] []))),
      ev_diff = \<lparr>ev_iter = (0, Some (Some (LydRef (demo_ifaces [(''yang:operation'', ''create'')]) [] []))),
                 ev_dup = 0\<rparr>\<rparr>"

section \<open>Steps that never crash\<close>

definition safe :: "step \<Rightarrow> bool" where
  "safe s = (\<forall>w. s w \<noteq> None)"

lemma safeD: "safe s \<Longrightarrow> \<exists>err w'. s w = Some (err, w')"
  unfolding safe_def by (metis option.exhaust surj_pair)

lemma safe_run_steps: "list_all safe ss \<Longrightarrow> safe (run_steps ss)"
proof (induction ss)
  case Nil
  then show ?case by (simp add: safe_def)
next
  case (Cons s ss)
  show ?case
    unfolding safe_def
  proof
    fix w
    from Cons.prems have "safe s" by simp
    then obtain err w' where "s w = Some (err, w')" using safeD by blast
    with Cons show "run_steps (s # ss) w \<noteq> None" by (auto simp: safe_def)
  qed
qed

lemma safe_put_step [simp]: "safe (put_step fp s)"
  by (simp add: safe_def put_step_def)

lemma tree_ok_schema: "tree_ok node_ok (Some r) \<Longrightarrow> \<exists>s. n_schema (r_node r) = Some s"
  using tree_okD(1) [of node_ok r] by (auto simp: node_ok_def)

lemma valued_leaf:
  assumes "tree_ok node_ok p" "lydx_get_child p name = Some c" "name \<in> set valued_leafs"
  shows "\<exists>v. n_value (r_node c) = Some v"
proof -
  from assms(1,2) have "tree_ok node_ok (Some c)" by (metis tree_ok_get_child)
  then have "node_ok (r_node c)" by (rule tree_okD)
  moreover have "n_schema (r_node c) = Some name"
    using assms(2) by (auto simp: lydx_get_child_def lydx_get_sibling_def named_def dest!: find_SomeD)
  ultimately show ?thesis using assms(3) by (auto simp: node_ok_def)
qed

lemma is_std_lo_addr_safe: "is_std_lo_addr (Some n) (Some ip) (Some pf) \<noteq> None"
  by (auto simp: is_std_lo_addr_def split: option.splits)

lemma safe_gen_diff_addr:
  assumes "tree_ok node_ok (Some addr)"
  shows "safe (netdag_gen_diff_addr ip (Some ifname) addr)"
proof -
  have "is_std_lo_addr (Some ifname) (nd_new (lydx_get_diff (Some a))) (nd_new (lydx_get_diff (Some p)))
      \<noteq> None"
    if "lydx_get_op (Some addr) = LYDX_OP_CREATE"
      and a: "lydx_get_child (Some addr) ''ip'' = Some a"
      and p: "lydx_get_child (Some addr) ''prefix-length'' = Some p" for a p
  proof -
    have "lydx_get_op (Some a) = LYDX_OP_CREATE" "lydx_get_op (Some p) = LYDX_OP_CREATE"
      using tree_ok_created_child [OF assms that(1)] a p by blast+
    moreover obtain v u where "n_value (r_node a) = Some v" "n_value (r_node p) = Some u"
      using valued_leaf [OF assms a] valued_leaf [OF assms p] by (auto simp: valued_leafs_def)
    ultimately show ?thesis using is_std_lo_addr_safe by (simp add: nd_new_value)
  qed
  then show ?thesis
    by (auto simp: safe_def netdag_gen_diff_addr_def Let_def split: bind_splits)
qed

lemma safe_gen_diff_addrs:
  assumes "\<forall>r \<in> set rs. tree_ok node_ok (Some r)"
  shows "gen_diff_addrs ip (Some ifname) rs w \<noteq> None"
  using assms
proof (induction rs arbitrary: w)
  case (Cons r rs)
  from Cons.prems have r: "tree_ok node_ok (Some r)" by simp
  then obtain s where "n_schema (r_node r) = Some s" using tree_ok_schema by blast
  moreover obtain err w' where "netdag_gen_diff_addr ip (Some ifname) r w = Some (err, w')"
    using safe_gen_diff_addr [OF r] safeD by blast
  ultimately show ?case using Cons by auto
qed simp

lemma safe_set_conf_addrs:
  assumes "\<forall>r \<in> set rs. tree_ok node_ok (Some r)"
  shows "set_conf_addrs ip ifname rs w \<noteq> None"
  using assms
proof (induction rs arbitrary: w)
  case (Cons r rs)
  then have r: "tree_ok node_ok (Some r)" by simp
  then obtain s where "n_schema (r_node r) = Some s" using tree_ok_schema by blast
  with Cons show ?case by auto
qed simp

lemma safe_gen_ip_addrs:
  assumes "tree_ok node_ok cif" "tree_ok node_ok dif" "lydx_get_cattr dif ''name'' = Some ifname"
  shows "safe (netdag_gen_ip_addrs os ip proto cif dif)"
proof -
  have "\<forall>r \<in> set (LY_LIST_FOR (lyd_child (lydx_get_child q proto))). tree_ok node_ok (Some r)"
    if "tree_ok node_ok q" for q
    using that tree_ok_elem [of node_ok "lyd_child (lydx_get_child q proto)"] by blast
  then show ?thesis
    using assms safe_gen_diff_addrs safe_set_conf_addrs
    by (auto simp: safe_def netdag_gen_ip_addrs_def netdag_set_conf_addrs_def
        netdag_gen_diff_addrs_def Let_def)
qed

lemma streq_new [simp]:
  "nd_new (lydx_get_diff p) = Some v \<Longrightarrow> streq (nd_val (lydx_get_diff p)) t = Some (v = t)"
  using nd_new_val [of p] by simp

lemma safe_ipv6_autoconf: "safe (netdag_gen_ipv6_autoconf ip cif dif)"
  by (auto simp: safe_def netdag_gen_ipv6_autoconf_def put_step_def Let_def)

lemma safe_zeroconf: "safe (zeroconf_up os net ifname)" "safe (zeroconf_down os net ifname)"
  by (simp_all add: safe_def zeroconf_up_def zeroconf_down_def split: prod.splits option.splits)

lemma safe_ipv4_autoconf: "safe (netdag_gen_ipv4_autoconf os net cif dif)"
  using safe_zeroconf by (auto simp: safe_def netdag_gen_ipv4_autoconf_def Let_def)

lemma sysctl_bool_safe [simp]: "netdag_gen_sysctl_bool os net ifname fpp node key w \<noteq> None"
  by (auto simp: netdag_gen_sysctl_bool_def Let_def split: prod.splits option.splits)

lemma safe_sysctl: "safe (netdag_gen_sysctl os net dif)"
  by (auto simp del: not_None_eq simp: safe_def netdag_gen_sysctl_def Let_def split: bind_splits)

lemma safe_bridge_links: "safe (netdag_bridge_links os net cif ip)"
  by (simp add: safe_def netdag_bridge_links_def Let_def)

lemma safe_veth: "safe (netdag_gen_veth os net cif ip)"
  by (simp add: safe_def netdag_gen_veth_def Let_def)

text \<open>A VLAN is generated from a node that is not being deleted.\<close>

lemma safe_vlan:
  assumes "tree_ok node_ok cif"
    and "\<And>otag t. lydx_get_descendant (lyd_child cif) [''encapsulation'', ''dot1q-vlan'', ''outer-tag'']
           = Some otag \<Longrightarrow> lydx_get_child (Some otag) ''tag-type'' = Some t
           \<Longrightarrow> lydx_get_op (Some t) \<noteq> LYDX_OP_DELETE"
  shows "safe (netdag_gen_vlan os net None cif ip)"
proof -
  have "\<exists>v. nd_new (lydx_get_diff (lydx_get_child (Some otag) ''tag-type'')) = Some v"
    if o: "lydx_get_descendant (lyd_child cif) [''encapsulation'', ''dot1q-vlan'', ''outer-tag''] = Some otag"
      and m: "nd_modified (lydx_get_diff (lydx_get_child (Some otag) ''tag-type''))" for otag
  proof -
    from m obtain t where t: "lydx_get_child (Some otag) ''tag-type'' = Some t"
      by (cases "lydx_get_child (Some otag) ''tag-type''") (simp_all add: lydx_get_diff_def nd_zero_def)
    from o assms(1) have "tree_ok node_ok (Some otag)"
      by (metis tree_ok_child tree_ok_descendant)
    from valued_leaf [OF this t] have "\<exists>v. n_value (r_node t) = Some v"
      by (simp add: valued_leafs_def)
    with assms(2) [OF o t] t show ?thesis by (simp add: nd_new_value)
  qed
  then show ?thesis
    by (auto simp: safe_def netdag_gen_vlan_def Let_def split: prod.splits bind_splits)
qed

text \<open>With no outer tag in the diff only the dependency is recorded.\<close>

lemma safe_vlan_set:
  assumes "lydx_get_descendant (lyd_child (Some dif)) [''encapsulation'', ''dot1q-vlan'', ''outer-tag'']
    = None"
  shows "safe (netdag_gen_vlan os net (Some dif) cif ip)"
  using assms by (simp add: safe_def netdag_gen_vlan_def Let_def split: prod.splits)

lemma fwd_mask_loop_safe:
  "\<forall>r \<in> set rs. tree_ok node_ok (Some r) \<Longrightarrow> fwd_mask_loop rs m \<noteq> None"
proof (induction rs arbitrary: m)
  case (Cons r rs)
  then have r: "tree_ok node_ok (Some r)" by simp
  then obtain s where "n_schema (r_node r) = Some s" using tree_ok_schema by blast
  moreover have "node_ok (r_node r)" using r by (rule tree_okD)
  moreover have "uint v < 31" if "v < 31" for v :: u8
    using that by (simp add: word_less_def)
  ultimately show ?case
    using Cons by (auto simp: shl1_def node_ok_def split: option.splits lyd_uval.splits)
qed simp

lemma bridge_mask_safe: "tree_ok node_ok cif \<Longrightarrow> netdag_get_bridge_fwd_mask cif \<noteq> None"
  using fwd_mask_loop_safe tree_ok_elem [of node_ok]
  by (simp add: netdag_get_bridge_fwd_mask_def Let_def) (meson tree_ok_child tree_ok_descendant)

section \<open>Operations in a configuration\<close>

text \<open>Siblings without metadata below a node with operation \<open>op\<close>.\<close>

definition uniform :: "lydx_op \<Rightarrow> lyd_ptr \<Rightarrow> bool" where
  "uniform op p = (\<forall>r \<in> set (LY_LIST_FOR p). op_of (r_up r) = op \<and> all_nodes plain (r_node r))"

lemma uniform_op: "uniform op (Some r) \<Longrightarrow> lydx_get_op (Some r) = op"
  using all_nodesD(1) [of plain "r_node r"]
  by (auto simp: uniform_def LY_LIST_FOR_def lydx_get_op_def op_of_Cons own_op_def
      lydx_get_mattr_def plain_def)

lemma uniform_None [simp]: "uniform op None"
  by (simp add: uniform_def)

lemma uniform_sibling: "uniform op p \<Longrightarrow> uniform op (lydx_get_sibling p name)"
  by (cases "lydx_get_sibling p name")
    (auto simp: uniform_def lydx_get_sibling_def dest!: find_SomeD dest: LY_LIST_FOR_suffix)

lemma uniform_child: "uniform op p \<Longrightarrow> uniform op (lyd_child p)"
proof (cases p)
  case (Some r)
  assume u: "uniform op p"
  with Some have "lydx_get_op (Some r) = op" "all_nodes plain (r_node r)"
    using uniform_op by (auto simp: uniform_def LY_LIST_FOR_def)
  with Some show ?thesis
    using siblings_from_up siblings_from_node all_nodesD(2)
    by (fastforce simp: uniform_def LY_LIST_FOR_child lydx_get_op_def)
qed simp

lemma uniform_descend: "uniform op node \<Longrightarrow> uniform op p \<Longrightarrow> uniform op (descend node p names)"
proof (induction names arbitrary: node p)
  case (Cons name names)
  show ?case
  proof (cases "lydx_get_sibling p name")
    case (Some r)
    with Cons.prems(2) have "uniform op (Some r)" by (metis uniform_sibling)
    with Some Cons.IH [of "Some r" "lyd_child (Some r)"] uniform_child show ?thesis by auto
  qed simp
qed simp

lemma uniform_descendant: "uniform op p \<Longrightarrow> uniform op (lydx_get_descendant p names)"
  by (simp add: lydx_get_descendant_def uniform_descend)

lemma uniform_get_child: "uniform op p \<Longrightarrow> uniform op (lydx_get_child p name)"
  by (simp add: lydx_get_child_def uniform_child uniform_sibling)

lemma uniform_created:
  assumes "uniform LYDX_OP_NONE (Some cif)"
  shows "uniform LYDX_OP_CREATE (lyd_child (Some (lyd_new_meta cif ''yang:operation'' ''create'')))"
proof -
  have n: "all_nodes plain (r_node cif)" using assms by (simp add: uniform_def LY_LIST_FOR_def)
  then have "lydx_get_op (Some (lyd_new_meta cif ''yang:operation'' ''create'')) = LYDX_OP_CREATE"
    using all_nodesD(1) [OF n]
    by (cases "r_node cif") (simp add: lyd_new_meta_def lydx_get_op_def op_of_def lydx_get_mattr_def plain_def)
  then show ?thesis
    using siblings_from_up siblings_from_node all_nodesD(2) [OF n]
    by (fastforce simp: uniform_def LY_LIST_FOR_child lydx_get_op_def)
qed

lemma safe_vlan_uniform:
  assumes "tree_ok node_ok cif" "uniform op (lyd_child cif)" "op \<noteq> LYDX_OP_DELETE"
  shows "safe (netdag_gen_vlan os net None cif ip)"
proof (rule safe_vlan [OF assms(1)])
  fix otag t
  assume o: "lydx_get_descendant (lyd_child cif) [''encapsulation'', ''dot1q-vlan'', ''outer-tag'']
      = Some otag"
    and t: "lydx_get_child (Some otag) ''tag-type'' = Some t"
  from o assms(2) have "uniform op (Some otag)" by (metis uniform_descendant)
  with t have "uniform op (Some t)" by (metis uniform_get_child)
  with assms(3) show "lydx_get_op (Some t) \<noteq> LYDX_OP_DELETE" by (simp add: uniform_op)
qed

section \<open>One interface\<close>

lemma safe_afspec_add:
  assumes "tree_ok node_ok cif" "lydx_get_cattr cif ''type'' \<noteq> None"
    and "uniform op (lyd_child cif)" "op \<noteq> LYDX_OP_DELETE"
  shows "safe (netdag_gen_afspec_add os net cif ip)"
proof -
  obtain t m where "lydx_get_cattr cif ''type'' = Some t" "netdag_get_bridge_fwd_mask cif = Some m"
    using assms(2) bridge_mask_safe [OF assms(1)] by blast
  then show ?thesis
    using safe_veth [of os net cif ip] safe_vlan_uniform [OF assms(1,3,4), of os net ip]
    by (simp add: safe_def netdag_gen_afspec_add_def Let_def del: not_None_eq)
qed

lemma safe_afspec_set:
  assumes "tree_ok node_ok cif" "netdag_must_del (Some dif) cif = Some False"
  shows "safe (netdag_gen_afspec_set os net (Some dif) cif ip)"
proof -
  obtain m where m: "netdag_get_bridge_fwd_mask cif = Some m"
    using bridge_mask_safe [OF assms(1)] by blast
  from assms(2) obtain t where t: "lydx_get_cattr cif ''type'' = Some t"
    by (cases "lydx_get_cattr cif ''type''") (simp_all add: netdag_must_del_def)
  have "safe (netdag_gen_vlan os net (Some dif) cif ip)" if "t = ''iana-if-type:l2vlan''"
    using assms(2) that t by (intro safe_vlan_set) (simp add: netdag_must_del_def)
  with t m show ?thesis
    by (simp add: safe_def netdag_gen_afspec_set_def netdag_set_bridge_def del: not_None_eq)
qed

lemma safe_if: "(c \<Longrightarrow> safe f) \<Longrightarrow> safe (\<lambda>w. if c then f w else Some (0, w))"
  by (auto simp: safe_def)

lemma safe_gen_iface_init:
  assumes "tree_ok node_ok cif" "tree_ok node_ok dif" "lydx_get_cattr dif ''name'' = Some n"
    and "op = LYDX_OP_CREATE \<Longrightarrow> safe (netdag_gen_afspec_add os net cif (action_file net (d_next net) ''init'' ifname 50 ''init.ip''))"
    and "op \<noteq> LYDX_OP_CREATE \<Longrightarrow> safe (netdag_gen_afspec_set os net dif cif (action_file net (d_next net) ''init'' ifname 50 ''init.ip''))"
  shows "safe (gen_iface_init os net fixed op dif cif ifname)"
proof -
  let ?ip = "action_file net (d_next net) ''init'' ifname 50 ''init.ip''"
  have "list_all safe (gen_iface_steps os net fixed op dif cif ifname ?ip)"
    unfolding gen_iface_steps_def list.pred_inject Let_def
    by (intro conjI TrueI safe_if safe_put_step safe_ipv4_autoconf safe_ipv6_autoconf
        safe_bridge_links safe_sysctl safe_gen_ip_addrs [OF assms(1,2,3)])
      (use assms(4,5) in \<open>auto simp: safe_def put_step_def\<close>)
  note steps = safe_run_steps [OF this]
  show ?thesis
    unfolding safe_def
  proof
    fix w
    obtain r w1 where f: "dagger_fopen_next os net ''init'' ifname 50 ''init.ip'' w = (r, w1)"
      by fastforce
    show "gen_iface_init os net fixed op dif cif ifname w \<noteq> None"
    proof (cases r)
      case None
      with f show ?thesis by (simp add: gen_iface_init_def)
    next
      case (Some fp)
      with f have "fp = ?ip"
        using dagger_fopen_Some [of os net "d_next net"] unfolding dagger_fopen_next_def by blast
      with f Some steps show ?thesis by (simp add: gen_iface_init_def safe_def)
    qed
  qed
qed

lemma tree_ok_created:
  assumes "tree_ok node_ok (Some cif)" "uniform LYDX_OP_NONE (Some cif)"
  shows "tree_ok node_ok (Some (lyd_new_meta cif ''yang:operation'' ''create''))"
proof -
  obtain s v d m u cs where n: "r_node cif = LydNode s v d m u cs" by (cases "r_node cif")
  have p: "all_nodes plain (LydNode s v d m u cs)" "op_of (r_up cif) = LYDX_OP_NONE"
    using assms(2) n by (simp_all add: uniform_def LY_LIST_FOR_def)
  let ?n = "LydNode s v d (m @ [(''yang:operation'', ''create'')]) u cs"
  have "all_nodes node_ok ?n"
    using tree_okD(2) [OF assms(1)] n by (simp add: node_ok_def)
  moreover have "diff_ok LYDX_OP_NONE ?n"
    using p(1) by (simp add: Let_def list_all_iff plain_diff_ok)
  ultimately show ?thesis
    using assms(1) n p(2) by (simp add: tree_ok_def LY_LIST_FOR_def lyd_new_meta_def)
qed

lemma cattr_created [simp]:
  "lydx_get_cattr (Some (lyd_new_meta cif a b)) name = lydx_get_cattr (Some cif) name"
  by (simp add: cattr_children)

lemma must_del_safe: "lydx_get_cattr cif ''type'' = Some t \<Longrightarrow> netdag_must_del dif cif \<noteq> None"
  by (simp add: netdag_must_del_def del: not_None_eq)

lemma safe_gen_iface:
  assumes dif: "tree_ok node_ok (Some dif)" "lydx_get_cattr (Some dif) ''name'' = Some n"
    and cif: "lydx_get_op (Some dif) \<noteq> LYDX_OP_DELETE \<Longrightarrow>
      \<exists>c. cif = Some c \<and> tree_ok node_ok (Some c) \<and> uniform LYDX_OP_NONE (Some c)
        \<and> lydx_get_cattr (Some c) ''name'' \<noteq> None \<and> lydx_get_cattr (Some c) ''type'' \<noteq> None"
  shows "safe (netdag_gen_iface os net dif cif)"
proof (cases "lydx_get_op (Some dif) = LYDX_OP_DELETE")
  case True
  with dif(2) show ?thesis
    by (simp add: safe_def netdag_gen_iface_def Let_def split: prod.splits)
next
  case False
  from cif [OF this] obtain c where c: "cif = Some c" "tree_ok node_ok (Some c)"
    "uniform LYDX_OP_NONE (Some c)" "lydx_get_cattr (Some c) ''name'' \<noteq> None"
    "lydx_get_cattr (Some c) ''type'' \<noteq> None" by blast
  let ?c = "lyd_new_meta c ''yang:operation'' ''create''"
  obtain cn where cn: "lydx_get_cattr (Some ?c) ''name'' = Some cn" using c(4) by auto
  obtain b where b: "netdag_must_del (Some dif) (Some c) = Some b"
    using c(5) must_del_safe by blast
  have created: "safe (gen_iface_init os net fixed LYDX_OP_CREATE (Some ?c) (Some ?c) ifname)" for fixed ifname
    using tree_ok_created [OF c(2,3)] uniform_created [OF c(3)] c(5) cn
    by (intro safe_gen_iface_init safe_afspec_add [where op = LYDX_OP_CREATE]) simp_all
  have kept: "safe (gen_iface_init os net fixed (lydx_get_op (Some dif)) (Some dif) (Some c) ifname)"
    if "lydx_get_op (Some dif) = LYDX_OP_CREATE \<or> \<not> b" for fixed ifname
    using c(2,5) dif uniform_child [OF c(3)] b that
    by (intro safe_gen_iface_init safe_afspec_add [where op = LYDX_OP_NONE] safe_afspec_set) simp_all
  show ?thesis
    unfolding safe_def
  proof
    fix w
    define fixed where "fixed = (iface_is_phys os (Some n) \<or> n = ''lo'')"
    have fx: "(if iface_is_phys os (Some n) then Some True else streq (Some n) ''lo'') = Some fixed"
      by (simp add: fixed_def)
    show "netdag_gen_iface os net dif cif w \<noteq> None"
    proof (cases "lydx_get_op (Some dif) = LYDX_OP_CREATE \<or> \<not> b")
      case True
      from kept [OF this] obtain err w' where
        "gen_iface_init os net fixed (lydx_get_op (Some dif)) (Some dif) (Some c) n w = Some (err, w')"
        using safeD by blast
      with True False c(1) b dif(2) fx show ?thesis by (auto simp: netdag_gen_iface_def Let_def)
    next
      case must: False
      obtain e w1 where del: "netdag_gen_iface_del os net (Some dif) fixed w = (e, w1)" by fastforce
      obtain err w' where
        "gen_iface_init os net fixed LYDX_OP_CREATE (Some ?c) (Some ?c) n w1 = Some (err, w')"
        using created safeD by blast
      with must False c(1) b dif(2) fx del show ?thesis by (simp add: netdag_gen_iface_def Let_def)
    qed
  qed
qed

section \<open>The change callback\<close>

lemma safe_add_nodes:
  "\<forall>r \<in> set rs. tree_ok node_ok (Some r) \<Longrightarrow> add_nodes os net rs w \<noteq> None"
proof (induction rs arbitrary: w)
  case (Cons r rs)
  then obtain s where "n_schema (r_node r) = Some s" using tree_ok_schema by fastforce
  with Cons show ?case by (auto simp: Let_def split: prod.splits)
qed simp

lemma find_cif_found:
  assumes "\<forall>r \<in> set rs. tree_ok node_ok (Some r) \<and> conf_iface_ok r"
    and "lydx_get_cattr (Some dif) ''name'' = Some n"
  shows "\<exists>q. find_cif dif rs = Some q
    \<and> (q = None \<longrightarrow> \<not> list_ex (\<lambda>c. named ''interface'' c \<and> lydx_get_cattr (Some c) ''name'' = Some n) rs)
    \<and> (\<forall>c. q = Some c \<longrightarrow> c \<in> set rs \<and> named ''interface'' c)"
  using assms(1)
proof (induction rs)
  case (Cons r rs)
  then have r: "tree_ok node_ok (Some r)" "conf_iface_ok r" by auto
  obtain s where s: "n_schema (r_node r) = Some s" using tree_ok_schema [OF r(1)] ..
  from Cons obtain q where q: "find_cif dif rs = Some q"
    "q = None \<longrightarrow> \<not> list_ex (\<lambda>c. named ''interface'' c \<and> lydx_get_cattr (Some c) ''name'' = Some n) rs"
    "\<forall>c. q = Some c \<longrightarrow> c \<in> set rs \<and> named ''interface'' c" by auto
  show ?case
  proof (cases "s = ''interface''")
    case True
    with r(2) s obtain rn where "lydx_get_cattr (Some r) ''name'' = Some rn"
      by (auto simp: conf_iface_ok_def named_def)
    with True s q assms(2) show ?thesis by (auto simp: named_def)
  next
    case False
    with s q show ?thesis by (auto simp: named_def)
  qed
qed simp

lemma conf_cif:
  assumes "conf_ok tree" "c \<in> set (LY_LIST_FOR (lydx_get_descendant tree [''interfaces'', ''interface'']))"
  shows "tree_ok node_ok (Some c)" "uniform LYDX_OP_NONE (Some c)" "conf_iface_ok c"
proof -
  have t: "tree_ok node_ok tree" "uniform LYDX_OP_NONE tree"
    using assms(1) plain_up_op by (auto simp: conf_ok_def uniform_def list_all_iff)
  show "tree_ok node_ok (Some c)"
    using tree_ok_elem [OF tree_ok_descendant [OF t(1)] assms(2)] .
  show "uniform LYDX_OP_NONE (Some c)"
    using uniform_descendant [OF t(2)] LY_LIST_FOR_suffix [OF assms(2)] by (auto simp: uniform_def)
  show "conf_iface_ok c" using assms by (auto simp: conf_ok_def list_all_iff)
qed

lemma safe_gen_ifaces:
  assumes conf: "conf_ok tree"
    and difs: "\<forall>r \<in> set rs. tree_ok node_ok (Some r)
      \<and> diff_iface_ok (lydx_get_descendant tree [''interfaces'', ''interface'']) r"
  shows "gen_ifaces os net (lydx_get_descendant tree [''interfaces'', ''interface'']) rs w \<noteq> None"
  using difs
proof (induction rs arbitrary: w)
  case (Cons r rs)
  let ?cifs = "lydx_get_descendant tree [''interfaces'', ''interface'']"
  from Cons.prems have r: "tree_ok node_ok (Some r)" "diff_iface_ok ?cifs r" by auto
  obtain s where s: "n_schema (r_node r) = Some s" using tree_ok_schema [OF r(1)] ..
  show ?case
  proof (cases "s = ''interface''")
    case True
    with r(2) s obtain n where n: "lydx_get_cattr (Some r) ''name'' = Some n"
      by (auto simp: diff_iface_ok_def named_def)
    obtain q where q: "find_cif r (LY_LIST_FOR ?cifs) = Some q"
      "q = None \<longrightarrow> \<not> list_ex (\<lambda>c. named ''interface'' c \<and> lydx_get_cattr (Some c) ''name'' = Some n)
         (LY_LIST_FOR ?cifs)"
      "\<forall>c. q = Some c \<longrightarrow> c \<in> set (LY_LIST_FOR ?cifs) \<and> named ''interface'' c"
      using find_cif_found [OF _ n, of "LY_LIST_FOR ?cifs"] conf_cif [OF conf] by auto
    have "safe (netdag_gen_iface os net r q)"
    proof (rule safe_gen_iface [OF r(1) n])
      assume "lydx_get_op (Some r) \<noteq> LYDX_OP_DELETE"
      with r(2) True s n q(2) obtain c where c: "q = Some c"
        by (cases q) (auto simp: diff_iface_ok_def named_def)
      with q(3) have m: "c \<in> set (LY_LIST_FOR ?cifs)" "named ''interface'' c" by auto
      from conf_cif [OF conf m(1)] m(2) c
      show "\<exists>c. q = Some c \<and> tree_ok node_ok (Some c) \<and> uniform LYDX_OP_NONE (Some c)
          \<and> lydx_get_cattr (Some c) ''name'' \<noteq> None \<and> lydx_get_cattr (Some c) ''type'' \<noteq> None"
        by (auto simp: conf_iface_ok_def)
    qed
    then obtain err w' where "netdag_gen_iface os net r q w = Some (err, w')" using safeD by blast
    with s True q(1) Cons show ?thesis by auto
  next
    case False
    with s Cons show ?thesis by auto
  qed
qed simp

lemma safe_ifchange_body: "valid_if_event ev \<Longrightarrow> safe (ifchange_body os net ev)"
proof -
  assume v: "valid_if_event ev"
  obtain rc cfg rc' diff where e: "ev_cfg ev = (rc, cfg)" "ev_iter (ev_diff ev) = (rc', Some diff)"
    using v by (auto simp: valid_if_event_def split: prod.splits option.splits)
  from e v have d: "tree_ok node_ok diff" by (auto simp: valid_if_event_def)
  show ?thesis
  proof (cases "rc = 0")
    case False
    with e show ?thesis by (simp add: safe_def ifchange_body_def)
  next
    case True
    let ?difs = "lydx_get_descendant diff [''interfaces'', ''interface'']"
    from True e v obtain tree where t: "cfg = Some tree" "conf_ok tree"
      "list_all (diff_iface_ok (lydx_get_descendant tree [''interfaces'', ''interface''])) (LY_LIST_FOR ?difs)"
      by (auto simp: valid_if_event_def split: option.splits)
    let ?cifs = "lydx_get_descendant tree [''interfaces'', ''interface'']"
    have ds: "\<forall>r \<in> set (LY_LIST_FOR ?difs). tree_ok node_ok (Some r)"
      using tree_ok_elem [OF tree_ok_descendant [OF d]] by blast
    have cs: "\<forall>r \<in> set (LY_LIST_FOR ?cifs). tree_ok node_ok (Some r)"
      using conf_cif [OF t(2)] by blast
    have "list_all safe [netdag_init os net ?cifs ?difs, gen_ifaces os net ?cifs (LY_LIST_FOR ?difs)]"
      unfolding list.pred_inject netdag_init_def
      using safe_add_nodes ds cs safe_gen_ifaces [OF t(2)] t(3)
      by (intro conjI TrueI safe_run_steps) (auto simp: safe_def list_all_iff simp del: not_None_eq)
    from safe_run_steps [OF this] e t(1) True show ?thesis
      by (auto simp: safe_def ifchange_body_def srx_get_diff_def Let_def SR_ERR_LY_def
          simp del: not_None_eq run_steps.simps)
  qed
qed

lemma abandon_live: "live_dag net \<Longrightarrow> dagger_abandon os net w \<noteq> None"
  by (auto simp: live_dag_def dagger_abandon_def split: stream.splits prod.splits)

lemma evolve_or_abandon_live: "live_dag net \<Longrightarrow> dagger_evolve_or_abandon os net w \<noteq> None"
  by (auto simp: live_dag_def dagger_evolve_or_abandon_def dagger_evolve_def Let_def
      split: stream.splits prod.splits)

lemma claim_live: "dagger_claim os path w = (0, net, w') \<Longrightarrow> live_dag net"
  using dagger_claim_ok by (auto simp: live_dag_def)

interpretation ifcb: change_callback "ifchange os" valid_if_event live_dag for os
proof
  fix ev net w
  assume v: "valid_if_event ev"
  show "ifchange os SR_EV_CHANGE ev net w \<noteq> None"
  proof -
    obtain rc net1 w1 where c: "dagger_claim os run_net w = (rc, net1, w1)" by (metis surj_pair)
    obtain err w2 where "ifchange_body os net1 ev w1 = Some (err, w2)"
      using safe_ifchange_body [OF v] safeD by blast
    with c abandon_live [of net1 os w2] claim_live [of os run_net w net1 w1] show ?thesis
      by (auto simp: ifchange_def)
  qed
next
  fix ev net w net' w'
  assume "valid_if_event ev" "ifchange os SR_EV_CHANGE ev net w = Some (0, net', w')"
  then show "live_dag net'"
    by (auto simp: ifchange_def Let_def dest: claim_live split: prod.splits if_splits bind_splits)
next
  fix net e ev w
  assume "live_dag net" "e \<in> {SR_EV_DONE, SR_EV_ABORT}"
  then show "ifchange os e ev net w \<noteq> None"
    using abandon_live [of net os w] evolve_or_abandon_live [of net os w] by (auto simp: ifchange_def)
next
  fix e ev net w
  assume "e \<in> {SR_EV_UPDATE, SR_EV_ENABLED, SR_EV_RPC}"
  then show "ifchange os e ev net w = Some (0, net, w)"
    by (auto simp: ifchange_def SR_ERR_OK_def)
qed

section \<open>Properties\<close>


lemma demo_event_valid: "valid_if_event demo_event"
  by code_simp


text \<open>C7. A change either leaves its transaction open or closes it: once the claim has succeeded, an
  accepted change returns with the claimed dagger as it is, ready for the final event; a refused
  change has closed the stream and run \<open>dagger abandon\<close> as its last command, whatever went wrong
  in between.\<close>

theorem ifchange_open_or_abandoned:
  assumes "dagger_claim os run_net w = (0, net1, w1)"
    and "ifchange os SR_EV_CHANGE ev net w = Some (rc, net', w')"
  shows "if rc = 0 then net' = net1 \<and> d_next_fp net' = SOpen ''/run/net/next''
    else d_next_fp net' = SClosed \<and> last (w_log w') = ''dagger -C /run/net abandon''"
proof -
  from dagger_claim_ok [OF assms(1)] have n: "d_next_fp net1 = SOpen ''/run/net/next''" "d_path net1 = ''/run/net''"
    by (simp_all add: run_net_def PATH_MAX_def)
  from assms obtain err w2 where b: "ifchange_body os net1 ev w1 = Some (err, w2)"
    by (auto simp: ifchange_def split: bind_splits)
  show ?thesis
  proof (cases "err = 0")
    case True
    with assms b n show ?thesis by (auto simp: ifchange_def)
  next
    case False
    with assms b obtain rc' where "dagger_abandon os net1 w2 = Some (rc', net', w')" "rc = err"
      by (auto simp: ifchange_def split: bind_splits)
    with n False show ?thesis
      by (auto simp: dagger_abandon_def dest!: systemf_log split: prod.splits)
  qed
qed

theorem ifchange_open_or_abandoned_witness:
  "\<exists>net' w'. ifchange demo_os SR_EV_CHANGE (demo_event\<lparr>ev_cfg := (7, None)\<rparr>) dagger_zero demo_world
       = Some (7, net', w')
     \<and> d_next_fp net' = SClosed \<and> last (w_log w') = ''dagger -C /run/net abandon''"
proof -
  let ?c = "dagger_claim demo_os run_net demo_world"
  let ?i = "ifchange demo_os SR_EV_CHANGE (demo_event\<lparr>ev_cfg := (7, None)\<rparr>) dagger_zero demo_world"
  have c: "?c = (0, fst (snd ?c), snd (snd ?c))" by (rule pair3) code_simp
  have i: "?i = Some (7, fst (snd (the ?i)), snd (snd (the ?i)))" by (rule some3) code_simp+
  from ifchange_open_or_abandoned [OF c i] i show ?thesis by (metis zero_neq_numeral)
qed

end
