(* ===== verification/NetdagScripts.thy ===== *)
theory NetdagScripts
  imports NetdagSafety "HOL-Library.Sublist"
begin

text \<open>
  What the scripts generated by \<open>ietf-interfaces.c\<close> do: the address commands of a diff carry
  the configured addresses from the old to the new set, the forwarding mask of a bridge has exactly
  the configured bits, a virtual Ethernet pair is created once, a VLAN is created again exactly
  when it was deleted, and what an interface's script begins and ends with.
\<close>

section \<open>Addresses as a set\<close>

text \<open>One change of the address list of an interface, and its node in the diff: a new or removed
  entry, or another prefix length for the entry with that address.\<close>

datatype addr_change =
    Addr_New (ac_ip: string) string
  | Addr_Gone (ac_ip: string) string
  | Addr_Prefix (ac_ip: string) string string

definition value_leaf :: "string \<Rightarrow> string \<Rightarrow> lyd_node" where
  "value_leaf name v = LydNode (Some name) (Some v) False [] None []"

definition addr_node :: "addr_change \<Rightarrow> lyd_node" where
  "addr_node ch =
     (case ch of
        Addr_New a p \<Rightarrow>
          LydNode (Some ''address'') None False [(''yang:operation'', ''create'')] None
            [value_leaf ''ip'' a, value_leaf ''prefix-length'' p]
      | Addr_Gone a p \<Rightarrow>
          LydNode (Some ''address'') None False [(''yang:operation'', ''delete'')] None
            [value_leaf ''ip'' a, value_leaf ''prefix-length'' p]
      | Addr_Prefix a p p' \<Rightarrow>
          LydNode (Some ''address'') None False [(''yang:operation'', ''none'')] None
            [value_leaf ''ip'' a, diff_leaf ''prefix-length'' (Leaf_Replaced p False p' False)])"

text \<open>The commands of an \<open>ip -batch\<close> script that act on addresses, how the source prints them,
  and their effect on the addresses of the device: a batch stops at the first command that fails,
  which are deleting an address that is not there and adding one that is.\<close>

datatype addr_cmd = Cmd_Delete string string | Cmd_Add string string | Cmd_Replace string string

definition addr_line :: "string \<Rightarrow> addr_cmd \<Rightarrow> string" where
  "addr_line dev c =
     (case c of
        Cmd_Delete a p \<Rightarrow> ''address delete '' @ a @ ''/'' @ p @ '' dev '' @ dev @ nl
      | Cmd_Add a p \<Rightarrow> ''address add '' @ a @ ''/'' @ p @ '' dev '' @ dev @ nl
      | Cmd_Replace a p \<Rightarrow> ''address replace '' @ a @ ''/'' @ p @ '' dev '' @ dev @ nl)"

definition exec_cmd :: "addr_cmd \<Rightarrow> (string \<times> string) set \<Rightarrow> (string \<times> string) set option" where
  "exec_cmd c S =
     (case c of
        Cmd_Delete a p \<Rightarrow> if (a, p) \<in> S then Some (S - {(a, p)}) else None
      | Cmd_Add a p \<Rightarrow> if (a, p) \<in> S then None else Some (insert (a, p) S)
      | Cmd_Replace a p \<Rightarrow> Some (insert (a, p) S))"

fun exec_cmds :: "addr_cmd list \<Rightarrow> (string \<times> string) set \<Rightarrow> (string \<times> string) set option" where
  "exec_cmds [] S = Some S"
| "exec_cmds (c # cs) S = do { S \<leftarrow> exec_cmd c S; exec_cmds cs S }"

definition addr_removed :: "addr_change \<Rightarrow> (string \<times> string) set" where
  "addr_removed ch =
     (case ch of Addr_New a p \<Rightarrow> {} | Addr_Gone a p \<Rightarrow> {(a, p)} | Addr_Prefix a p p' \<Rightarrow> {(a, p)})"

definition addr_added :: "addr_change \<Rightarrow> (string \<times> string) set" where
  "addr_added ch =
     (case ch of Addr_New a p \<Rightarrow> {(a, p)} | Addr_Gone a p \<Rightarrow> {} | Addr_Prefix a p p' \<Rightarrow> {(a, p')})"

text \<open>The change fits the addresses there are: what it removes is there, what it adds is not.\<close>

definition addr_fits :: "(string \<times> string) set \<Rightarrow> addr_change \<Rightarrow> bool" where
  "addr_fits S ch = (addr_removed ch \<subseteq> S \<and> addr_added ch \<inter> S = {} )"

definition addr_cmds :: "string \<Rightarrow> addr_change \<Rightarrow> addr_cmd list" where
  "addr_cmds dev ch =
     (case ch of
        Addr_New a p \<Rightarrow>
          [if is_std_lo_addr (Some dev) (Some a) (Some p) = Some True then Cmd_Replace a p
           else Cmd_Add a p]
      | Addr_Gone a p \<Rightarrow> [Cmd_Delete a p]
      | Addr_Prefix a p p' \<Rightarrow> [Cmd_Delete a p, Cmd_Add a p'])"

lemma gen_diff_addr_text:
  "netdag_gen_diff_addr ip (Some dev) (LydRef (addr_node ch) ns up) w
     = Some (0, fput ip (concat (map (addr_line dev) (addr_cmds dev ch))) w)"
proof (cases ch)
  case (Addr_New a p)
  obtain b where b: "is_std_lo_addr (Some dev) (Some a) (Some p) = Some b"
    using is_std_lo_addr_safe by blast
  show ?thesis
    using b
    by (simp add: Addr_New addr_node_def value_leaf_def netdag_gen_diff_addr_def lydx_get_op_def
        op_of_def lydx_get_mattr_def lydx_get_child_def lydx_get_sibling_def LY_LIST_FOR_child
        named_def lydx_get_diff_def nd_zero_def nd_set_modified_def addr_cmds_def addr_line_def Let_def)
next
  case (Addr_Gone a p)
  then show ?thesis
    by (simp add: addr_node_def value_leaf_def netdag_gen_diff_addr_def lydx_get_op_def
        op_of_def lydx_get_mattr_def lydx_get_child_def lydx_get_sibling_def LY_LIST_FOR_child
        named_def lydx_get_diff_def nd_zero_def nd_set_modified_def addr_cmds_def addr_line_def Let_def)
next
  case (Addr_Prefix a p p')
  then show ?thesis
    by (simp add: addr_node_def value_leaf_def diff_leaf_def netdag_gen_diff_addr_def lydx_get_op_def
        op_of_def lydx_get_mattr_def lydx_get_child_def lydx_get_sibling_def LY_LIST_FOR_child
        named_def lydx_get_diff_def nd_zero_def nd_set_modified_def addr_cmds_def addr_line_def Let_def)
qed

lemma addr_node_schema [simp]: "n_schema (addr_node ch) = Some ''address''"
  by (cases ch) (simp_all add: addr_node_def)

lemma fput_Nil [simp]: "fput fp [] w = w"
proof (cases "w_fs w fp")
  case (Some n)
  then show ?thesis
    by (cases n) (simp_all add: fput_def fun_upd_idem)
qed (simp add: fput_def)

lemma gen_diff_addrs_text:
  "gen_diff_addrs ip (Some dev) (siblings_from (map addr_node chs) up) w
     = Some (0, fput ip (concat (map (addr_line dev) (concat (map (addr_cmds dev) chs)))) w)"
  by (induction chs arbitrary: w) (simp_all add: gen_diff_addr_text)

lemma gen_diff_addrs_skip:
  "list_all (\<lambda>n. n_schema n \<noteq> None \<and> n_schema n \<noteq> Some ''address'') others \<Longrightarrow>
     gen_diff_addrs ip ifname (siblings_from (others @ ns) up) w
       = gen_diff_addrs ip ifname (siblings_from ns up) w"
  by (induction others) auto

lemma exec_cmds_append: "exec_cmds (xs @ ys) S = Option.bind (exec_cmds xs S) (exec_cmds ys)"
  by (induction xs arbitrary: S) (simp_all add: bind_assoc split: bind_splits)

lemma exec_addr_cmds:
  "addr_fits S ch \<Longrightarrow> exec_cmds (addr_cmds dev ch) S = Some ((S - addr_removed ch) \<union> addr_added ch)"
  by (cases ch) (auto simp: addr_fits_def addr_cmds_def exec_cmd_def addr_removed_def addr_added_def)

lemma addr_parts_ip:
  "(a, p) \<in> addr_removed ch \<Longrightarrow> a = ac_ip ch" "(a, p) \<in> addr_added ch \<Longrightarrow> a = ac_ip ch"
  by (cases ch; simp add: addr_removed_def addr_added_def)+

lemma exec_all_addr_cmds:
  assumes "distinct (map ac_ip chs)" "\<forall>ch \<in> set chs. addr_fits S ch"
  shows "exec_cmds (concat (map (addr_cmds dev) chs)) S
    = Some ((S - \<Union> (addr_removed ` set chs)) \<union> \<Union> (addr_added ` set chs))"
  using assms
proof (induction chs arbitrary: S)
  case (Cons ch chs)
  let ?S = "(S - addr_removed ch) \<union> addr_added ch"
  have ne: "(a, p) \<notin> addr_removed ch" "(a, p) \<notin> addr_added ch"
    if "c \<in> set chs" "a = ac_ip c" for c a p
    using that Cons.prems(1) addr_parts_ip [of a p ch] by (auto simp: image_iff)
  have "addr_fits ?S c" if "c \<in> set chs" for c
  proof -
    have "addr_fits S c" using Cons.prems(2) that by simp
    then show ?thesis
      using ne [OF that] addr_parts_ip [of _ _ c] unfolding addr_fits_def by fastforce
  qed
  then have "exec_cmds (concat (map (addr_cmds dev) chs)) ?S
      = Some ((?S - \<Union> (addr_removed ` set chs)) \<union> \<Union> (addr_added ` set chs))"
    using Cons by simp
  moreover have "addr_added ch \<inter> \<Union> (addr_removed ` set chs) = {}"
    using ne addr_parts_ip by fastforce
  ultimately show ?case
    using Cons.prems(2) by (auto simp: exec_cmds_append exec_addr_cmds)
qed simp

section \<open>The forwarding mask\<close>

text \<open>The group addresses configured below a bridge container.\<close>

definition fwd_values :: "lyd_node list \<Rightarrow> int list" where
  "fwd_values ns =
     concat (map (\<lambda>n. if n_schema n = Some ''ieee-group-forward'' then
        (case n_union n of None \<Rightarrow> [] | Some (LyUint8 v) \<Rightarrow> [uint v] | Some (LyEnum v) \<Rightarrow> [v]) else []) ns)"

lemma shl1_Some: "shl1 v = Some b \<Longrightarrow> 0 \<le> v \<and> v < 31 \<and> b = push_bit (nat v) 1"
  by (simp add: shl1_def split: if_splits)

lemma bit_shl1:
  assumes "shl1 v = Some b" "i < 32"
  shows "bit b i \<longleftrightarrow> v = int i"
  using shl1_Some [OF assms(1)] assms(2) by (auto simp: bit_simps)

lemma fwd_mask_loop_bits:
  assumes "fwd_mask_loop (siblings_from ns up) m = Some r" "i < 32"
  shows "bit r i \<longleftrightarrow> bit m i \<or> int i \<in> set (fwd_values ns)"
  using assms(1)
proof (induction ns arbitrary: m)
  case Nil
  then show ?case by (simp add: fwd_values_def)
next
  case (Cons n ns)
  show ?case
  proof (cases "n_schema n = Some ''ieee-group-forward'' \<and> n_union n \<noteq> None")
    case True
    then obtain u where u: "n_schema n = Some ''ieee-group-forward''" "n_union n = Some u" by auto
    define v where "v = (case u of LyUint8 v \<Rightarrow> uint v | LyEnum v \<Rightarrow> v)"
    from Cons.prems u obtain b where b: "shl1 v = Some b"
      and r: "fwd_mask_loop (siblings_from ns up) (m OR b) = Some r"
      by (auto simp: v_def split: bind_splits)
    have "bit (m OR b) i \<longleftrightarrow> bit m i \<or> v = int i"
      using bit_shl1 [OF b assms(2)] by (simp add: bit_simps)
    moreover have "set (fwd_values (n # ns)) = insert v (set (fwd_values ns))"
      using u by (cases u) (simp_all add: fwd_values_def v_def)
    ultimately show ?thesis using Cons.IH [OF r] by auto
  next
    case False
    then have "fwd_mask_loop (siblings_from ns up) m = Some r"
      using Cons.prems by (auto simp: streq_def split: bind_splits if_splits option.splits)
    moreover have "fwd_values (n # ns) = fwd_values ns"
      using False by (auto simp: fwd_values_def)
    ultimately show ?thesis using Cons.IH by simp
  qed
qed

lemma fwd_mask_loop_range:
  "fwd_mask_loop rs m = Some r \<Longrightarrow> \<not> bit m 31 \<Longrightarrow> \<not> bit r 31"
proof (induction rs arbitrary: m)
  case (Cons x rs)
  have "\<not> bit (m OR b) 31" if "shl1 v = Some b" for v b
    using bit_shl1 [OF that, of 31] shl1_Some [OF that] Cons.prems(2) by (simp add: bit_simps)
  with Cons show ?case by (auto split: bind_splits if_splits option.splits)
qed simp

lemma bit_sint_low: "i < 31 \<Longrightarrow> bit (sint (r :: 32 word)) i = bit r i"
  by (simp add: sint_uint bit_signed_take_bit_iff bit_uint_iff)

section \<open>Properties\<close>



text \<open>C24. The forwarding mask of a bridge has exactly the configured bits: bit \<open>i\<close> is set iff
  group address \<open>i\<close> is among the values of \<open>ieee-group-forward\<close>, given as number or by name, and
  the mask printed is never negative.\<close>

theorem bridge_mask_bits:
  assumes "netdag_get_bridge_fwd_mask cif = Some m"
    and "lydx_get_descendant (lyd_child cif) [''bridge''] = Some br"
  shows "0 \<le> m \<and> m < 2 ^ 31
    \<and> (\<forall>i < 31. bit m i \<longleftrightarrow> int i \<in> set (fwd_values (n_children (r_node br))))"
proof -
  from assms obtain r where
    r: "fwd_mask_loop (siblings_from (n_children (r_node br)) (r_node br # r_up br)) 0 = Some r"
    and m: "m = sint r"
    by (auto simp: netdag_get_bridge_fwd_mask_def LY_LIST_FOR_child)
  have "\<not> bit r 31" using fwd_mask_loop_range [OF r] by simp
  then have "0 \<le> sint r" using bit_last_iff [of r] by simp
  moreover have "sint r < 2 ^ 31" using sint_range_size [of r] by (simp add: word_size)
  moreover have "bit (sint r) i \<longleftrightarrow> int i \<in> set (fwd_values (n_children (r_node br)))" if "i < 31" for i
    using fwd_mask_loop_bits [OF r, of i] that by (simp add: bit_sint_low)
  ultimately show ?thesis using m by blast
qed

theorem bridge_mask_bits_witness:
  "\<exists>m. netdag_get_bridge_fwd_mask (Some (LydRef (demo_cont ''interface'' []
        [demo_cont ''bridge'' [] [LydNode (Some ''ieee-group-forward'') (Some ''lldp'') False [] (Some (LyEnum 14)) []]])
        [] [])) = Some m \<and> bit m 14 \<and> \<not> bit m 3"
proof -
  let ?br = "demo_cont ''bridge'' [] [LydNode (Some ''ieee-group-forward'') (Some ''lldp'') False [] (Some (LyEnum 14)) []]"
  let ?if = "demo_cont ''interface'' [] [?br]"
  have b: "lydx_get_descendant (lyd_child (Some (LydRef ?if [] []))) [''bridge''] = Some (LydRef ?br [] [?if])"
    by (simp add: demo_cont_def lydx_get_descendant_def lydx_get_sibling_def LY_LIST_FOR_child named_def)
  then obtain m where m: "netdag_get_bridge_fwd_mask (Some (LydRef ?if [] [])) = Some m"
    by (simp add: netdag_get_bridge_fwd_mask_def LY_LIST_FOR_child) (simp add: demo_cont_def shl1_def)
  from bridge_mask_bits [OF m b] have "bit m 14 \<longleftrightarrow> int 14 \<in> set (fwd_values (n_children ?br))"
    "bit m 3 \<longleftrightarrow> int 3 \<in> set (fwd_values (n_children ?br))" by (auto simp: less_imp_le)
  with m show ?thesis by (simp add: demo_cont_def fwd_values_def)
qed

text \<open>A virtual Ethernet pair is created exactly once: after one end has been generated, with
  its single \<open>link add\<close> line naming both ends, generating the other end prints nothing and only
  records that it depends on the first.\<close>

theorem veth_pair_once:
  assumes "lydx_get_cattr cifa ''name'' = Some a" "lydx_get_cattr cifb ''name'' = Some b"
    and "lydx_get_descendant (lyd_child cifa) [''veth''] = Some va"
    and "lydx_get_cattr (Some va) ''peer'' = Some b"
    and "lydx_get_descendant (lyd_child cifb) [''veth''] = Some vb"
    and "lydx_get_cattr (Some vb) ''peer'' = Some a"
    and "w_fs w (skip_file net a) = None"
    and "os_open os (skip_file net b) ''touch'' (w_fs w) = 0"
    and "ipa \<noteq> skip_file net b"
    and "w_fs w ipa = Some (FFile c x)"
  shows "\<exists>w1. netdag_gen_veth os net cifa ipa w = Some (0, w1)
    \<and> w_fs w1 ipa = Some (FFile (c @ ''link add dev '' @ a @ '' down type veth peer '' @ b @ nl) x)
    \<and> w_log w1 = w_log w
    \<and> netdag_gen_veth os net cifb ipb w1
        = Some (systemf os (''ln -s ../'' @ a @ '' '' @ d_path net @ ''/'' @ dec_int (d_next net)
            @ ''/dag/'' @ b) w1)"
proof -
  let ?line = "''link add dev '' @ a @ '' down type veth peer '' @ b @ nl"
  let ?w1 = "fput ipa ?line (dagger_skip_iface os net b w)"
  have g: "netdag_gen_veth os net cifa ipa w = Some (0, ?w1)"
    using assms by (simp add: netdag_gen_veth_def dagger_should_skip_def fexistf_def)
  have "w_fs (dagger_skip_iface os net b w) ipa = Some (FFile c x)"
    using assms(9,10) by (simp add: dagger_skip_iface_def touchf_other)
  then have f: "w_fs ?w1 ipa = Some (FFile (c @ ?line) x)" by (rule fput_same)
  have l: "w_log ?w1 = w_log w" by (simp add: dagger_skip_iface_def)
  have "w_fs ?w1 (skip_file net b) \<noteq> None"
    using assms(8,9) by (simp add: dagger_skip_iface_def touchf_def split: option.splits)
  then have "netdag_gen_veth os net cifb ipb ?w1
        = Some (systemf os (''ln -s ../'' @ a @ '' '' @ d_path net @ ''/'' @ dec_int (d_next net)
            @ ''/dag/'' @ b) ?w1)"
    using assms by (simp add: netdag_gen_veth_def dagger_should_skip_def fexistf_def dagger_add_dep_def)
  with g f l show ?thesis by blast
qed

definition demo_veth :: "string \<Rightarrow> string \<Rightarrow> lyd_ptr" where
  "demo_veth a b =
     Some (LydRef (demo_cont ''interface'' []
       [demo_leaf ''name'' a, demo_cont ''veth'' [] [demo_leaf ''peer'' b]]) [] [])"

theorem veth_pair_once_witness:
  "\<exists>w1. netdag_gen_veth demo_os dagger_zero (demo_veth ''v0'' ''v1'') ''/f''
       (demo_world\<lparr>w_fs := [''/f'' \<mapsto> FFile [] True]\<rparr>) = Some (0, w1)
     \<and> w_fs w1 ''/f'' = Some (FFile (''link add dev v0 down type veth peer v1'' @ nl) True)
     \<and> netdag_gen_veth demo_os dagger_zero (demo_veth ''v1'' ''v0'') ''/g'' w1
         = Some (systemf demo_os ''ln -s ../v0 /0/dag/v1'' w1)"
proof -
  let ?i = "\<lambda>a b. demo_cont ''interface'' [] [demo_leaf ''name'' a, demo_cont ''veth'' [] [demo_leaf ''peer'' b]]"
  let ?v = "\<lambda>a b. LydRef (demo_cont ''veth'' [] [demo_leaf ''peer'' b]) [] [?i a b]"
  have v: "lydx_get_descendant (lyd_child (demo_veth a b)) [''veth''] = Some (?v a b)"
    and p: "lydx_get_cattr (Some (?v a b)) ''peer'' = Some b"
    and n: "lydx_get_cattr (demo_veth a b) ''name'' = Some a" for a b
    by (simp_all add: demo_veth_def demo_cont_def demo_leaf_def lydx_get_descendant_def
        lydx_get_sibling_def LY_LIST_FOR_child named_def cattr_children)
  have f: "skip_file dagger_zero ''v0'' = ''/0/skip/v0''" "skip_file dagger_zero ''v1'' = ''/0/skip/v1''"
    "d_path dagger_zero = []" "dec_int (d_next dagger_zero) = ''0''" by code_simp+
  have o: "os_open demo_os q m fs = 0" for q m fs by (simp add: demo_os_def)
  show ?thesis
    using veth_pair_once [OF n n v p v p, of "demo_world\<lparr>w_fs := [''/f'' \<mapsto> FFile [] True]\<rparr>" dagger_zero
        "''v0''" demo_os "''v1''" "''/f''" "[]" True "''/g''"]
    by (auto simp: f o)
qed

text \<open>A VLAN interface that changes is either recreated or left alone: if the diff touches the
  parent interface or the outer tag, it must be deleted first; otherwise applying the diff prints
  nothing and only records the dependency on the parent, so that a \<open>link add\<close> never meets an
  interface that still exists.\<close>

theorem vlan_recreated_or_kept:
  assumes "lydx_get_cattr cif ''type'' = Some ''iana-if-type:l2vlan''"
    and "lydx_get_cattr cif ''name'' = Some n"
    and "lydx_get_cattr cif ''parent-interface'' = Some parent"
  shows "if lydx_get_cattr (Some dif) ''parent-interface'' \<noteq> None
        \<or> lydx_get_descendant (lyd_child (Some dif)) [''encapsulation'', ''dot1q-vlan'', ''outer-tag''] \<noteq> None
     then netdag_must_del (Some dif) cif = Some True
     else netdag_must_del (Some dif) cif = Some False
       \<and> netdag_gen_afspec_set os net (Some dif) cif ip w
           = Some (systemf os (''ln -s ../'' @ parent @ '' '' @ d_path net @ ''/'' @ dec_int (d_next net)
               @ ''/dag/'' @ n) w)"
  using assms
  by (simp add: netdag_must_del_def netdag_gen_afspec_set_def netdag_gen_vlan_def dagger_add_dep_def
      Let_def split: prod.splits)

theorem vlan_recreated_or_kept_witness:
  "netdag_must_del (Some (LydRef (demo_cont ''interface'' [] [demo_leaf ''parent-interface'' ''e1'']) [] []))
     (Some (LydRef (demo_cont ''interface'' []
       [demo_leaf ''name'' ''e0.10'', demo_leaf ''type'' ''iana-if-type:l2vlan'',
        demo_leaf ''parent-interface'' ''e1'']) [] [])) = Some True"
  using vlan_recreated_or_kept
    [of "Some (LydRef (demo_cont ''interface'' []
          [demo_leaf ''name'' ''e0.10'', demo_leaf ''type'' ''iana-if-type:l2vlan'',
           demo_leaf ''parent-interface'' ''e1'']) [] [])" "''e0.10''" "''e1''"
        "LydRef (demo_cont ''interface'' [] [demo_leaf ''parent-interface'' ''e1'']) [] []"]
  by (simp add: demo_cont_def demo_leaf_def cattr_children)

text \<open>Changing only the automatic configuration of IPv6 addresses has no effect: the new setting
  is looked up among the siblings of the \<open>autoconf\<close> container instead of inside it, so for every
  diff without a leaf \<open>create-global-addresses\<close> directly below \<open>ipv6\<close> (where the schema has none)
  nothing is printed, whatever the container says.\<close>

theorem ipv6_autoconf_change_ignored:
  assumes "lydx_get_child cif ''ipv6'' = Some conf" "lydx_is_enabled (Some conf) ''enabled''"
    and "lydx_get_child dif ''ipv6'' = Some diff"
    and "lydx_get_op (lydx_get_child (Some diff) ''enabled'') \<noteq> LYDX_OP_REPLACE"
    and "list_all (\<lambda>n. n_schema n \<noteq> Some ''create-global-addresses'') (n_children (r_node diff))"
  shows "netdag_gen_ipv6_autoconf ip cif dif w = Some (0, w)"
proof -
  have "lydx_get_descendant (lydx_get_child (Some diff) ''autoconf'') [''create-global-addresses''] = None"
  proof (cases "lydx_get_child (Some diff) ''autoconf''")
    case (Some ac)
    have "ac \<in> set (LY_LIST_FOR (lyd_child (Some diff)))"
      using Some unfolding lydx_get_child_def lydx_get_sibling_def by (blast dest: find_SomeD)
    from LY_LIST_FOR_suffix [OF this]
    have "\<forall>r \<in> set (LY_LIST_FOR (Some ac)). r_node r \<in> set (n_children (r_node diff))"
      unfolding LY_LIST_FOR_child using siblings_from_node by blast
    with assms(5) have "\<forall>r \<in> set (LY_LIST_FOR (Some ac)). \<not> named ''create-global-addresses'' r"
      by (auto simp: named_def list_all_iff)
    then show ?thesis
      by (simp add: Some descendant_one lydx_get_sibling_def find_None_iff)
  qed simp
  with assms show ?thesis by (simp add: netdag_gen_ipv6_autoconf_def Let_def)
qed

definition demo_autoconf :: "lyd_node list \<Rightarrow> lyd_ptr" where
  "demo_autoconf cs = Some (LydRef (demo_cont ''interface'' [] [demo_cont ''ipv6'' [] cs]) [] [])"

theorem ipv6_autoconf_change_ignored_witness:
  "netdag_gen_ipv6_autoconf ''/f'' (demo_autoconf [demo_leaf ''enabled'' ''true''])
     (demo_autoconf [demo_cont ''autoconf'' []
        [diff_leaf ''create-global-addresses'' (Leaf_Replaced ''true'' False ''false'' False)]]) demo_world
   = Some (0, demo_world)"
proof (rule ipv6_autoconf_change_ignored)
  let ?cs = "[demo_cont ''autoconf'' []
      [diff_leaf ''create-global-addresses'' (Leaf_Replaced ''true'' False ''false'' False)]]"
  let ?ref = "\<lambda>cs. LydRef (demo_cont ''ipv6'' [] cs) [] [demo_cont ''interface'' [] [demo_cont ''ipv6'' [] cs]]"
  show "lydx_get_child (demo_autoconf [demo_leaf ''enabled'' ''true'']) ''ipv6''
      = Some (?ref [demo_leaf ''enabled'' ''true''])"
    and "lydx_is_enabled (Some (?ref [demo_leaf ''enabled'' ''true''])) ''enabled''"
    and "lydx_get_child (demo_autoconf ?cs) ''ipv6'' = Some (?ref ?cs)"
    and "lydx_get_op (lydx_get_child (Some (?ref ?cs)) ''enabled'') \<noteq> LYDX_OP_REPLACE"
    and "list_all (\<lambda>n. n_schema n \<noteq> Some ''create-global-addresses'') (n_children (r_node (?ref ?cs)))"
    by code_simp+
qed

text \<open>Changing the peer of an existing virtual Ethernet interface has no effect: the schema has
  the peer inside the container \<open>veth\<close>, the test for it looks directly below the interface, so the
  interface is neither deleted nor given a command.\<close>

theorem veth_peer_change_ignored:
  assumes "lydx_get_cattr cif ''type'' = Some ''infix-if-type:veth''"
    and "list_all (\<lambda>n. n_schema n \<noteq> Some ''peer'') (n_children (r_node dif))"
  shows "netdag_must_del (Some dif) cif = Some False
    \<and> netdag_gen_afspec_set os net (Some dif) cif ip w = Some (0, w)"
proof -
  have "\<not> named ''peer'' r" if "r \<in> set (LY_LIST_FOR (lyd_child (Some dif)))" for r
    using that assms(2) siblings_from_node
    by (fastforce simp: LY_LIST_FOR_child named_def list_all_iff)
  then have "lydx_get_descendant (lyd_child (Some dif)) [''peer''] = None"
    by (simp add: descendant_one lydx_get_sibling_def find_None_iff)
  with assms(1) show ?thesis by (simp add: netdag_must_del_def netdag_gen_afspec_set_def)
qed

theorem veth_peer_change_ignored_witness:
  "netdag_must_del
     (Some (LydRef (demo_cont ''interface'' [] [demo_cont ''veth'' []
        [diff_leaf ''peer'' (Leaf_Replaced ''v1'' False ''v2'' False)]]) [] []))
     (Some (LydRef (demo_cont ''interface'' [] [demo_leaf ''type'' ''infix-if-type:veth'']) [] []))
   = Some False"
  using veth_peer_change_ignored
    [of "Some (LydRef (demo_cont ''interface'' [] [demo_leaf ''type'' ''infix-if-type:veth'']) [] [])"
        "LydRef (demo_cont ''interface'' [] [demo_cont ''veth'' []
           [diff_leaf ''peer'' (Leaf_Replaced ''v1'' False ''v2'' False)]]) [] []"]
  by (simp add: demo_cont_def demo_leaf_def cattr_children)

end
