(* ===== verification/NetdagShape.thy ===== *)
theory NetdagShape
  imports NetdagScripts
begin

text \<open>
  The shape of an interface's \<open>init.ip\<close> script: every step of \<open>netdag_gen_iface\<close> only appends
  to it, and none of the other files and directories the steps make gets in its way.
\<close>

section \<open>Steps that append to a file\<close>

definition extends :: "string \<Rightarrow> step \<Rightarrow> bool" where
  "extends ip s =
     (\<forall>w c err w'. s w = Some (err, w') \<longrightarrow> w_fs w ip = Some (FFile c True) \<longrightarrow>
        (\<exists>t. w_fs w' ip = Some (FFile (c @ t) True)))"

definition keeps :: "string \<Rightarrow> step \<Rightarrow> bool" where
  "keeps ip s = (\<forall>w n err w'. s w = Some (err, w') \<longrightarrow> w_fs w ip = Some n \<longrightarrow> w_fs w' ip = Some n)"

lemma extendsD:
  "extends ip s \<Longrightarrow> s w = Some (err, w') \<Longrightarrow> w_fs w ip = Some (FFile c True) \<Longrightarrow>
     \<exists>t. w_fs w' ip = Some (FFile (c @ t) True)"
  unfolding extends_def by blast

lemma keepsD: "keeps ip s \<Longrightarrow> s w = Some (err, w') \<Longrightarrow> w_fs w ip = Some n \<Longrightarrow> w_fs w' ip = Some n"
  unfolding keeps_def by blast

lemma keeps_extends: "keeps ip s \<Longrightarrow> extends ip s"
  unfolding extends_def
proof (intro allI impI)
  fix w c err w'
  assume "keeps ip s" "s w = Some (err, w')" "w_fs w ip = Some (FFile c True)"
  from keepsD [OF this] have "w_fs w' ip = Some (FFile (c @ []) True)" by simp
  then show "\<exists>t. w_fs w' ip = Some (FFile (c @ t) True)" ..
qed

lemma extends_fput: "w_fs w ip = Some (FFile c True) \<Longrightarrow> \<exists>t. w_fs (fput fp s w) ip = Some (FFile (c @ t) True)"
  by (cases "ip = fp") (auto simp: fput_same)

lemma extends_put_step: "extends ip (put_step fp s)"
  using extends_fput by (auto simp: extends_def put_step_def)

lemma extends_run_steps: "list_all (extends ip) ss \<Longrightarrow> extends ip (run_steps ss)"
proof (induction ss)
  case Nil
  then show ?case by (simp add: extends_def)
next
  case (Cons s ss)
  from Cons have s: "extends ip s" and ss: "extends ip (run_steps ss)" by simp_all
  show ?case
    unfolding extends_def
  proof (intro allI impI)
    fix w c err w'
    assume run: "run_steps (s # ss) w = Some (err, w')" and c: "w_fs w ip = Some (FFile c True)"
    from run obtain e1 w1 where s1: "s w = Some (e1, w1)" by (auto split: bind_splits)
    from extendsD [OF s s1 c] obtain t where t: "w_fs w1 ip = Some (FFile (c @ t) True)" ..
    show "\<exists>t. w_fs w' ip = Some (FFile (c @ t) True)"
    proof (cases "e1 = 0")
      case True
      with run s1 have "run_steps ss w1 = Some (err, w')" by simp
      from extendsD [OF ss this t] show ?thesis by auto
    next
      case False
      with run s1 t show ?thesis by auto
    qed
  qed
qed

lemma run_steps_append_ok:
  "run_steps (xs @ ys) w = Some (0, w') \<Longrightarrow>
     \<exists>w1. run_steps xs w = Some (0, w1) \<and> run_steps ys w1 = Some (0, w')"
  by (induction xs arbitrary: w) (auto split: bind_splits if_splits)

lemma keeps_if: "(c \<Longrightarrow> keeps ip f) \<Longrightarrow> keeps ip (\<lambda>w. if c then f w else Some (0, w))"
  by (auto simp: keeps_def)

lemma extends_if: "(c \<Longrightarrow> extends ip f) \<Longrightarrow> extends ip (\<lambda>w. if c then f w else Some (0, w))"
  by (auto simp: extends_def intro: exI [of _ "[]"])

section \<open>Names\<close>

definition init_ip :: "dagger \<Rightarrow> string \<Rightarrow> string" where
  "init_ip net ifname = action_file net (d_next net) ''init'' ifname 50 ''init.ip''"

text \<open>Every name an interface contributes to a shell command is taken literally: its own, and those
  of the interfaces it depends on, which the schema makes mandatory.\<close>

definition iface_names_ok :: "lyd_ptr \<Rightarrow> bool" where
  "iface_names_ok cif =
     (shell_safe (pstr (lydx_get_cattr cif ''name''))
      \<and> (lydx_get_cattr cif ''type'' = Some ''iana-if-type:l2vlan'' \<longrightarrow>
           shell_safe (pstr (lydx_get_cattr cif ''parent-interface'')))
      \<and> (case lydx_get_descendant (lyd_child cif) [''veth''] of
           None \<Rightarrow> True | Some v \<Rightarrow> shell_safe (pstr (lydx_get_cattr (Some v) ''peer'')))
      \<and> (case lydx_get_descendant (lyd_child cif) [''bridge-port''] of
           None \<Rightarrow> True | Some b \<Rightarrow> shell_safe (pstr (lydx_get_cattr (Some b) ''bridge''))))"

text \<open>Flushing the addresses of a device changes no file.\<close>

definition flush_adds_only :: "os \<Rightarrow> bool" where
  "flush_adds_only os =
     (\<forall>v n. shell_safe n \<longrightarrow> adds_only os (''ip -'' @ [v] @ '' addr flush dev '' @ n @ nl))"

lemma safe_char_lits [simp]:
  "safe_char (CHR ''/'')" "safe_char (CHR ''.'')" "safe_char (CHR ''a'')" "safe_char (CHR ''c'')"
  "safe_char (CHR ''d'')" "safe_char (CHR ''e'')" "safe_char (CHR ''g'')" "safe_char (CHR ''i'')"
  "safe_char (CHR ''n'')" "safe_char (CHR ''o'')" "safe_char (CHR ''p'')" "safe_char (CHR ''s'')"
  "safe_char (CHR ''t'')" "safe_char (CHR ''x'')" "safe_char (CHR ''@'')"
  by (simp_all add: safe_char_def)

lemma shell_safe_action_dir:
  assumes "shell_safe (d_path net)" "shell_safe node" "action \<in> {''init'', ''exit''}"
  shows "shell_safe (action_dir net gen action node)"
  using assms by (auto simp: action_dir_def shell_safe_def safe_char_dec_int)

lemma add_dep_keeps:
  assumes "posix_tools os" "shell_safe (d_path net)" "shell_safe a" "shell_safe b"
    and "dagger_add_dep os net a b w = (err, w')" "w_fs w q = Some n"
  shows "w_fs w' q = Some n"
proof -
  have "shell_safe (''../'' @ b)" "shell_safe (d_path net @ ''/'' @ dec_int (d_next net) @ ''/dag/'' @ a)"
    using assms(2,3,4) by (auto simp: shell_safe_def safe_char_dec_int)
  from posix_toolsD(2) [OF assms(1) this] have "adds_only os (''ln -s '' @ (''../'' @ b) @ '' ''
      @ (d_path net @ ''/'' @ dec_int (d_next net) @ ''/dag/'' @ a))" .
  from systemf_adds_only [OF this _ assms(6)] assms(5) show ?thesis
    by (simp add: dagger_add_dep_def)
qed

lemma fopen_next_keeps:
  assumes "posix_tools os" "shell_safe (d_path net)" "shell_safe node"
    and "dagger_fopen_next os net ''init'' node prio script w = (r, w')" "w_fs w q = Some n"
    and "q \<noteq> action_file net (d_next net) ''init'' node prio script"
  shows "w_fs w' q = Some n"
  using dagger_fopen_frame [OF assms(4) [unfolded dagger_fopen_next_def] assms(1) _ assms(5,6)]
    shell_safe_action_dir [OF assms(2,3)] by simp

lemma fopen_current_keeps:
  assumes "posix_tools os" "shell_safe (d_path net)" "shell_safe node"
    and "dagger_fopen_current os net ''exit'' node prio script w = (r, w')" "w_fs w q = Some n"
    and "q \<noteq> action_file net (d_current net) ''exit'' node prio script"
  shows "w_fs w' q = Some n"
proof (cases "d_current net < 0")
  case True
  with assms(4,5) show ?thesis by (auto simp: dagger_fopen_current_def)
next
  case False
  with assms(4) have "dagger_fopen os net (d_current net) ''exit'' node prio script w = (r, w')"
    by (simp add: dagger_fopen_current_def)
  from dagger_fopen_frame [OF this assms(1) _ assms(5,6)] shell_safe_action_dir [OF assms(2,3)]
  show ?thesis by simp
qed

lemma init_ip_neq:
  "init_ip net ifname \<noteq> action_file net (d_next net) ''init'' ifname 60 ''zeroconf-up.sh''"
  "init_ip net ifname \<noteq> action_file net (d_next net) ''init'' ifname 60 ''init.sysctl''"
  "init_ip net ifname \<noteq> skip_file net peer"
  by (simp_all add: init_ip_def action_file_def action_dir_def skip_file_def)

lemma init_ip_current:
  "d_current net \<noteq> d_next net \<Longrightarrow> init_ip net ifname \<noteq> action_file net (d_current net) a m p s"
  unfolding init_ip_def using action_file_gen by metis

section \<open>The steps of an interface\<close>

lemma keeps_add_dep:
  assumes "posix_tools os" "shell_safe (d_path net)" "shell_safe a" "shell_safe b"
  shows "keeps ip (\<lambda>w. Some (dagger_add_dep os net a b w))"
  unfolding keeps_def using add_dep_keeps [OF assms] by simp

lemma extends_veth:
  assumes "posix_tools os" "shell_safe (d_path net)" "iface_names_ok cif"
  shows "extends (init_ip net ifname) (netdag_gen_veth os net cif (init_ip net ifname))"
  unfolding extends_def
proof (intro allI impI)
  fix w c err w'
  let ?ip = "init_ip net ifname"
  assume g: "netdag_gen_veth os net cif ?ip w = Some (err, w')"
    and c: "w_fs w ?ip = Some (FFile c True)"
  show "\<exists>t. w_fs w' ?ip = Some (FFile (c @ t) True)"
  proof (cases "lydx_get_descendant (lyd_child cif) [''veth'']")
    case None
    with g c show ?thesis by (auto simp: netdag_gen_veth_def)
  next
    case (Some v)
    let ?n = "pstr (lydx_get_cattr cif ''name'')" and ?p = "pstr (lydx_get_cattr (Some v) ''peer'')"
    have ok: "shell_safe ?n" "shell_safe ?p" using assms(3) Some by (simp_all add: iface_names_ok_def)
    show ?thesis
    proof (cases "dagger_should_skip net ?n w")
      case True
      with g Some have "dagger_add_dep os net ?n ?p w = (err, w')"
        by (simp add: netdag_gen_veth_def Let_def)
      from add_dep_keeps [OF assms(1,2) ok this c] show ?thesis by simp
    next
      case False
      have "w_fs (dagger_skip_iface os net ?p w) ?ip = Some (FFile c True)"
        using c init_ip_neq(3) by (simp add: dagger_skip_iface_def touchf_other)
      from extends_fput [OF this] g Some False show ?thesis
        by (auto simp: netdag_gen_veth_def Let_def)
    qed
  qed
qed

text \<open>What \<open>netdag_gen_vlan\<close> prints is one string, after the dependency has been recorded.\<close>

lemma gen_vlan_fput:
  assumes "netdag_gen_vlan os net dif cif ip w = Some (err, w')"
  shows "\<exists>e w1 t. dagger_add_dep os net (pstr (lydx_get_cattr cif ''name''))
      (pstr (lydx_get_cattr cif ''parent-interface'')) w = (e, w1) \<and> w' = fput ip t w1"
proof -
  obtain e w1 where d: "dagger_add_dep os net (pstr (lydx_get_cattr cif ''name''))
      (pstr (lydx_get_cattr cif ''parent-interface'')) w = (e, w1)" by fastforce
  have "\<exists>t. w' = fput ip t w1"
    using assms d
    by (auto simp: netdag_gen_vlan_def Let_def split: if_splits bind_splits intro: exI [of _ "[]"])
  with d show ?thesis by blast
qed

lemma extends_vlan:
  assumes "posix_tools os" "shell_safe (d_path net)"
    and "shell_safe (pstr (lydx_get_cattr cif ''name''))"
    and "shell_safe (pstr (lydx_get_cattr cif ''parent-interface''))"
  shows "extends ip (netdag_gen_vlan os net dif cif ip')"
  unfolding extends_def
proof (intro allI impI)
  fix w c err w'
  assume g: "netdag_gen_vlan os net dif cif ip' w = Some (err, w')"
    and c: "w_fs w ip = Some (FFile c True)"
  from gen_vlan_fput [OF g] obtain e w1 t where
    d: "dagger_add_dep os net (pstr (lydx_get_cattr cif ''name''))
      (pstr (lydx_get_cattr cif ''parent-interface'')) w = (e, w1)" and w': "w' = fput ip' t w1" by blast
  from add_dep_keeps [OF assms d c] have "w_fs w1 ip = Some (FFile c True)" .
  from extends_fput [OF this] w' show "\<exists>t. w_fs w' ip = Some (FFile (c @ t) True)" by simp
qed

lemma extends_afspec_add:
  assumes "posix_tools os" "shell_safe (d_path net)" "iface_names_ok cif"
  shows "extends (init_ip net ifname) (netdag_gen_afspec_add os net cif (init_ip net ifname))"
  unfolding extends_def
proof (intro allI impI)
  fix w c err w'
  let ?ip = "init_ip net ifname"
  assume g: "netdag_gen_afspec_add os net cif ?ip w = Some (err, w')"
    and c: "w_fs w ?ip = Some (FFile c True)"
  from g obtain t where t: "lydx_get_cattr cif ''type'' = Some t"
    by (auto simp: netdag_gen_afspec_add_def split: bind_splits)
  consider (bridge) "t = ''iana-if-type:bridge''" | (veth) "t = ''infix-if-type:veth''"
    | (vlan) "t = ''iana-if-type:l2vlan''"
    | (rest) "t \<notin> {''iana-if-type:bridge'', ''infix-if-type:veth'', ''iana-if-type:l2vlan''}"
    by blast
  then show "\<exists>t. w_fs w' ?ip = Some (FFile (c @ t) True)"
  proof cases
    case bridge
    with g t obtain out where "w' = fput ?ip out w"
      by (auto simp: netdag_gen_afspec_add_def Let_def split: bind_splits)
    with extends_fput [OF c] show ?thesis by simp
  next
    case veth
    with g t have "netdag_gen_veth os net cif ?ip w = Some (err, w')"
      by (simp add: netdag_gen_afspec_add_def Let_def)
    from extendsD [OF extends_veth [OF assms] this c] show ?thesis .
  next
    case vlan
    with g t have v: "netdag_gen_vlan os net None cif ?ip w = Some (err, w')"
      by (simp add: netdag_gen_afspec_add_def Let_def)
    from assms(3) vlan t have "shell_safe (pstr (lydx_get_cattr cif ''name''))"
      "shell_safe (pstr (lydx_get_cattr cif ''parent-interface''))" by (simp_all add: iface_names_ok_def)
    from extendsD [OF extends_vlan [OF assms(1,2) this] v c] show ?thesis .
  next
    case rest
    with g t c show ?thesis by (auto simp: netdag_gen_afspec_add_def Let_def)
  qed
qed

lemma extends_afspec_set:
  assumes "posix_tools os" "shell_safe (d_path net)" "iface_names_ok cif"
  shows "extends ip (netdag_gen_afspec_set os net dif cif ip)"
  unfolding extends_def
proof (intro allI impI)
  fix w c err w'
  assume g: "netdag_gen_afspec_set os net dif cif ip w = Some (err, w')"
    and c: "w_fs w ip = Some (FFile c True)"
  from g obtain t where t: "lydx_get_cattr cif ''type'' = Some t"
    by (auto simp: netdag_gen_afspec_set_def split: bind_splits)
  consider (bridge) "t = ''iana-if-type:bridge''" | (vlan) "t = ''iana-if-type:l2vlan''"
    | (rest) "t \<notin> {''iana-if-type:bridge'', ''iana-if-type:l2vlan''}" by blast
  then show "\<exists>t. w_fs w' ip = Some (FFile (c @ t) True)"
  proof cases
    case bridge
    with g t obtain out where "w' = fput ip out w"
      by (auto simp: netdag_gen_afspec_set_def netdag_set_bridge_def split: bind_splits)
    with extends_fput [OF c] show ?thesis by simp
  next
    case vlan
    with g t have v: "netdag_gen_vlan os net dif cif ip w = Some (err, w')"
      by (simp add: netdag_gen_afspec_set_def)
    from assms(3) vlan t have "shell_safe (pstr (lydx_get_cattr cif ''name''))"
      "shell_safe (pstr (lydx_get_cattr cif ''parent-interface''))" by (simp_all add: iface_names_ok_def)
    from extendsD [OF extends_vlan [OF assms(1,2) this] v c] show ?thesis .
  next
    case rest
    with g t c show ?thesis by (auto simp: netdag_gen_afspec_set_def split: if_splits)
  qed
qed

text \<open>Opening another script and printing to it.\<close>

lemma fopen_next_put:
  assumes "posix_tools os" "shell_safe (d_path net)" "shell_safe n"
    and "dagger_fopen_next os net ''init'' n prio script w = (r, w1)" "w_fs w q = Some m"
    and "q \<noteq> action_file net (d_next net) ''init'' n prio script"
  shows "w_fs w1 q = Some m" "r = Some fp \<Longrightarrow> w_fs (fput fp s w1) q = Some m"
proof -
  show k: "w_fs w1 q = Some m" by (rule fopen_next_keeps [OF assms])
  show "w_fs (fput fp s w1) q = Some m" if "r = Some fp"
    using k that assms(4,6) dagger_fopen_Some [of os net "d_next net" "''init''" n prio script w fp w1]
    by (simp add: dagger_fopen_next_def)
qed

lemma fopen_current_put:
  assumes "posix_tools os" "shell_safe (d_path net)" "shell_safe n"
    and "dagger_fopen_current os net ''exit'' n prio script w = (r, w1)" "w_fs w q = Some m"
    and "\<And>a n p s. q \<noteq> action_file net (d_current net) a n p s"
  shows "w_fs w1 q = Some m" "r = Some fp \<Longrightarrow> w_fs (fput fp s w1) q = Some m"
proof -
  show k: "w_fs w1 q = Some m" by (rule fopen_current_keeps [OF assms(1-5) assms(6)])
  show "w_fs (fput fp s w1) q = Some m" if "r = Some fp"
    using k that assms(4,6) dagger_fopen_Some [of os net "d_current net" "''exit''" n prio script w fp w1]
    by (auto simp: dagger_fopen_current_def split: if_splits)
qed

lemma keeps_zeroconf_up:
  assumes "posix_tools os" "shell_safe (d_path net)" "shell_safe n"
  shows "keeps (init_ip net n) (zeroconf_up os net (Some n))"
  unfolding keeps_def
proof (intro allI impI)
  fix w m err w'
  assume g: "zeroconf_up os net (Some n) w = Some (err, w')" and m: "w_fs w (init_ip net n) = Some m"
  obtain r w1 where o: "dagger_fopen_next os net ''init'' n 60 ''zeroconf-up.sh'' w = (r, w1)" by fastforce
  from fopen_next_put [OF assms o m init_ip_neq(1)] g o show "w_fs w' (init_ip net n) = Some m"
    by (auto simp: zeroconf_up_def split: option.splits)
qed

lemma exit_reload_keeps:
  assumes "posix_tools os" "shell_safe (d_path net)" "d_current net \<noteq> d_next net"
    and "netdag_exit_reload os net w = (err, w')" "w_fs w (init_ip net n) = Some m"
  shows "w_fs w' (init_ip net n) = Some m"
proof -
  have post: "shell_safe ''@post''" by code_simp
  obtain r w1 where o: "dagger_fopen_current os net ''exit'' ''@post'' 90 ''reload.sh'' w = (r, w1)"
    by fastforce
  from fopen_current_put [OF assms(1,2) post o assms(5) init_ip_current [OF assms(3)]] assms(4) o
  show ?thesis by (auto simp: netdag_exit_reload_def split: option.splits)
qed

lemma keeps_zeroconf_down:
  assumes "posix_tools os" "shell_safe (d_path net)" "shell_safe n" "d_current net \<noteq> d_next net"
  shows "keeps (init_ip net n) (zeroconf_down os net (Some n))"
  unfolding keeps_def
proof (intro allI impI)
  fix w m err w'
  assume g: "zeroconf_down os net (Some n) w = Some (err, w')" and m: "w_fs w (init_ip net n) = Some m"
  obtain r w1 where o: "dagger_fopen_current os net ''exit'' n 40 ''zeroconf-down.sh'' w = (r, w1)"
    by fastforce
  note put = fopen_current_put [OF assms(1,2,3) o m init_ip_current [OF assms(4)]]
  show "w_fs w' (init_ip net n) = Some m"
  proof (cases r)
    case None
    with g o put(1) show ?thesis by (auto simp: zeroconf_down_def split: if_splits)
  next
    case (Some fp)
    from exit_reload_keeps [OF assms(1,2,4) _ put(2) [OF Some]] g o Some show ?thesis
      by (auto simp: zeroconf_down_def)
  qed
qed

lemma keeps_ipv4_autoconf:
  assumes "posix_tools os" "shell_safe (d_path net)" "shell_safe n" "d_current net \<noteq> d_next net"
    and "lydx_get_cattr dif ''name'' = Some n"
  shows "keeps (init_ip net n) (netdag_gen_ipv4_autoconf os net cif dif)"
  unfolding keeps_def
proof (intro allI impI)
  fix w m err w'
  assume g: "netdag_gen_ipv4_autoconf os net cif dif w = Some (err, w')"
    and m: "w_fs w (init_ip net n) = Some m"
  have "zeroconf_up os net (Some n) w = Some (err, w') \<or> zeroconf_down os net (Some n) w = Some (err, w')
      \<or> w' = w"
    using g assms(5)
    by (auto simp: netdag_gen_ipv4_autoconf_def Let_def split: if_splits bind_splits)
  then show "w_fs w' (init_ip net n) = Some m"
    using keepsD [OF keeps_zeroconf_up [OF assms(1,2,3)] _ m]
      keepsD [OF keeps_zeroconf_down [OF assms(1,2,3,4)] _ m] m by blast
qed

lemma extends_ipv6_autoconf: "extends ip (netdag_gen_ipv6_autoconf ip' cif dif)"
  unfolding extends_def
proof (intro allI impI)
  fix w c err w'
  assume g: "netdag_gen_ipv6_autoconf ip' cif dif w = Some (err, w')"
    and c: "w_fs w ip = Some (FFile c True)"
  have "\<exists>s. w' = fput ip' s w"
    using g
    by (auto simp: netdag_gen_ipv6_autoconf_def put_step_def Let_def split: if_splits bind_splits
        intro: exI [of _ "[]"])
  then show "\<exists>t. w_fs w' ip = Some (FFile (c @ t) True)" using extends_fput [OF c] by blast
qed

lemma extends_bridge_links:
  assumes "posix_tools os" "shell_safe (d_path net)" "iface_names_ok cif"
  shows "extends ip (netdag_bridge_links os net cif ip')"
  unfolding extends_def
proof (intro allI impI)
  fix w c err w'
  assume g: "netdag_bridge_links os net cif ip' w = Some (err, w')"
    and c: "w_fs w ip = Some (FFile c True)"
  show "\<exists>t. w_fs w' ip = Some (FFile (c @ t) True)"
  proof (cases "lydx_get_descendant (lyd_child cif) [''bridge-port'']")
    case None
    with g c show ?thesis by (auto simp: netdag_bridge_links_def)
  next
    case (Some b)
    let ?b = "pstr (lydx_get_cattr (Some b) ''bridge'')" and ?n = "pstr (lydx_get_cattr cif ''name'')"
    have ok: "shell_safe ?n" "shell_safe ?b" using assms(3) Some by (simp_all add: iface_names_ok_def)
    from extends_fput [OF c] obtain t where
      t: "w_fs (fput ip' ('' master '' @ ?b) w) ip = Some (FFile (c @ t) True)" by blast
    from g Some have "dagger_add_dep os net ?n ?b (fput ip' ('' master '' @ ?b) w) = (err, w')"
      by (simp add: netdag_bridge_links_def Let_def)
    from add_dep_keeps [OF assms(1,2) ok this t] show ?thesis by blast
  qed
qed

lemma fput_idle: "\<exists>s. w = fput ip s w"
  by (intro exI [of _ "[]"]) simp

lemma gen_diff_addr_fput:
  assumes "netdag_gen_diff_addr ip ifname addr w = Some (err, w')"
  shows "\<exists>s. w' = fput ip s w"
  using assms
  by (auto simp: netdag_gen_diff_addr_def Let_def split: if_splits bind_splits intro: exI [of _ "[]"])

lemma gen_diff_addrs_fput:
  "gen_diff_addrs ip ifname rs w = Some (err, w') \<Longrightarrow> \<exists>s. w' = fput ip s w"
proof (induction rs arbitrary: w)
  case Nil
  then show ?case by (auto intro: exI [of _ "[]"])
next
  case (Cons r rs)
  show ?case
  proof (cases "streq (n_schema (r_node r)) ''address'' = Some True")
    case True
    with Cons.prems obtain e w1 where g: "netdag_gen_diff_addr ip ifname r w = Some (e, w1)"
      by (auto split: bind_splits)
    from gen_diff_addr_fput [OF g] obtain s where s: "w1 = fput ip s w" ..
    show ?thesis
    proof (cases "e = 0")
      case True
      with Cons.prems g \<open>streq _ _ = Some True\<close> Cons.IH [of w1] s show ?thesis by auto
    next
      case False
      with Cons.prems g \<open>streq _ _ = Some True\<close> s show ?thesis by auto
    qed
  next
    case False
    with Cons show ?thesis by (auto split: bind_splits if_splits)
  qed
qed

lemma set_conf_addrs_fput:
  "set_conf_addrs ip ifname rs w = Some (err, w') \<Longrightarrow> \<exists>s. w' = fput ip s w"
proof (induction rs arbitrary: w)
  case Nil
  then show ?case by (auto intro: exI [of _ "[]"])
next
  case (Cons r rs)
  from Cons.prems obtain s where "set_conf_addrs ip ifname rs (fput ip s w) = Some (err, w')"
    by (auto split: bind_splits if_splits) (metis fput_Nil)
  from Cons.IH [OF this] show ?case by auto
qed

lemma extends_ip_addrs:
  assumes "flush_adds_only os" "shell_safe n" "lydx_get_cattr dif ''name'' = Some n"
  shows "extends ip (netdag_gen_ip_addrs os ip' proto cif dif)"
  unfolding extends_def
proof (intro allI impI)
  fix w c err w'
  assume g: "netdag_gen_ip_addrs os ip' proto cif dif w = Some (err, w')"
    and c: "w_fs w ip = Some (FFile c True)"
  let ?cmd = "''ip -'' @ [proto ! 3] @ '' addr flush dev '' @ n @ nl"
  have "(\<exists>s. w' = fput ip' s w) \<or> (\<exists>e. systemf os ?cmd w = (e, w'))"
    using g assms(3)
    by (auto simp: netdag_gen_ip_addrs_def Let_def netdag_set_conf_addrs_def netdag_gen_diff_addrs_def
        dest: set_conf_addrs_fput gen_diff_addrs_fput intro: prod.collapse [symmetric] fput_idle
        split: if_splits simp del: append.simps)
  then show "\<exists>t. w_fs w' ip = Some (FFile (c @ t) True)"
  proof
    assume "\<exists>s. w' = fput ip' s w"
    with extends_fput [OF c] show ?thesis by blast
  next
    assume "\<exists>e. systemf os ?cmd w = (e, w')"
    moreover have "adds_only os ?cmd" using assms(1,2) unfolding flush_adds_only_def by blast
    ultimately have "w_fs w' ip = Some (FFile (c @ []) True)" using systemf_adds_only c by auto
    then show ?thesis ..
  qed
qed

lemma sysctl_bool_keeps:
  assumes "posix_tools os" "shell_safe (d_path net)" "shell_safe n"
    and "netdag_gen_sysctl_bool os net (Some n) fpp node key w = Some (err, fpp', w')"
    and "w_fs w (init_ip net n) = Some m"
    and "\<forall>fp. fpp = Some fp \<longrightarrow> fp \<noteq> init_ip net n"
  shows "w_fs w' (init_ip net n) = Some m \<and> (\<forall>fp. fpp' = Some fp \<longrightarrow> fp \<noteq> init_ip net n)"
proof (cases fpp)
  case (Some fp)
  with assms(4-6) show ?thesis
    by (auto simp: netdag_gen_sysctl_bool_def Let_def split: if_splits bind_splits)
next
  case None
  obtain r w1 where o: "dagger_fopen_next os net ''init'' n 60 ''init.sysctl'' w = (r, w1)" by fastforce
  note put = fopen_next_put [OF assms(1-3) o assms(5) init_ip_neq(2)]
  have "fp \<noteq> init_ip net n" if "r = Some fp" for fp
    using o that init_ip_neq(2) [of net n] dagger_fopen_Some [of os net "d_next net"]
    unfolding dagger_fopen_next_def by metis
  with assms(4,5) None o put show ?thesis
    by (auto simp: netdag_gen_sysctl_bool_def Let_def split: if_splits bind_splits option.splits)
qed

lemma keeps_sysctl:
  assumes "posix_tools os" "shell_safe (d_path net)" "shell_safe n"
    and "lydx_get_cattr dif ''name'' = Some n"
  shows "keeps (init_ip net n) (netdag_gen_sysctl os net dif)"
  unfolding keeps_def
proof (intro allI impI)
  fix w m err w'
  assume g: "netdag_gen_sysctl os net dif w = Some (err, w')" and m: "w_fs w (init_ip net n) = Some m"
  let ?four = "lydx_get_descendant (lyd_child dif) [''ipv4'', ''forwarding'']"
  obtain e1 f1 w1 where one: "netdag_gen_sysctl_bool os net (Some n) None ?four
      (''net.ipv4.conf.'' @ n @ ''.forwarding'') w = Some (e1, f1, w1)"
    using g assms(4) by (auto simp: netdag_gen_sysctl_def Let_def split: bind_splits)
  from sysctl_bool_keeps [OF assms(1-3) one m] have
    k: "w_fs w1 (init_ip net n) = Some m" "\<forall>fp. f1 = Some fp \<longrightarrow> fp \<noteq> init_ip net n" by auto
  show "w_fs w' (init_ip net n) = Some m"
  proof (cases "e1 = 0")
    case False
    with g assms(4) one k(1) show ?thesis by (simp add: netdag_gen_sysctl_def Let_def)
  next
    case True
    then obtain e2 f2 where "netdag_gen_sysctl_bool os net (Some n) f1
        (lydx_get_descendant (lyd_child dif) [''ipv6'', ''forwarding''])
        (''net.ipv6.conf.'' @ n @ ''.forwarding'') w1 = Some (e2, f2, w')"
      using g assms(4) one by (auto simp: netdag_gen_sysctl_def Let_def split: bind_splits)
    from sysctl_bool_keeps [OF assms(1-3) this k] show ?thesis by simp
  qed
qed

section \<open>The whole script\<close>

lemma names_ok_created [simp]:
  "iface_names_ok (Some (lyd_new_meta c a b)) = iface_names_ok (Some c)"
proof -
  let ?c = "lyd_new_meta c a b"
  have d: "map_option r_node (lydx_get_descendant (lyd_child (Some r)) [name])
      = List.find (\<lambda>n. n_schema n = Some name) (n_children (r_node r))" for r name
    by (simp add: descendant_one lydx_get_sibling_def LY_LIST_FOR_child find_siblings_from)
  have e: "(case lydx_get_descendant (lyd_child (Some r)) [name] of
        None \<Rightarrow> True | Some v \<Rightarrow> shell_safe (pstr (lydx_get_cattr (Some v) l)))
      = (case map_option r_node (lydx_get_descendant (lyd_child (Some r)) [name]) of
        None \<Rightarrow> True | Some n \<Rightarrow> shell_safe (pstr (lydx_get_cattr (Some (LydRef n [] [])) l)))" for r name l
    by (simp add: cattr_children split: option.splits)
  show ?thesis by (simp add: iface_names_ok_def e d)
qed

text \<open>\<open>gen_iface_steps\<close> cut at the two lines that take the link down and up.\<close>

lemma gen_iface_script:
  assumes os: "posix_tools os" "flush_adds_only os" "shell_safe (d_path net)" "d_current net \<noteq> d_next net"
    and names: "iface_names_ok cif" "shell_safe n" "lydx_get_cattr dif ''name'' = Some n"
    and gen: "gen_iface_init os net fixed op dif cif n w = Some (0, w')"
  shows "\<exists>new rest.
    w_fs w' (init_ip net n) = Some (FFile (shebang ''init.ip'' @ new @ ''link set dev '' @ n @ '' down'' @ rest
        @ (if lydx_get_cattr cif ''enabled'' \<in> {None, Some ''true''}
           then ''link set dev '' @ n @ '' up'' @ nl else [])) True)
    \<and> (fixed \<or> op \<noteq> LYDX_OP_CREATE \<longrightarrow> new = [])"
proof -
  let ?ip = "init_ip net n" and ?sb = "shebang ''init.ip''"
  let ?down = "''link set dev '' @ n @ '' down''" and ?up = "''link set dev '' @ n @ '' up'' @ nl"
  obtain r w0 where o: "dagger_fopen_next os net ''init'' n 50 ''init.ip'' w = (r, w0)" by fastforce
  with gen obtain fp where r: "r = Some fp" by (cases r) (auto simp: gen_iface_init_def EIO_def)
  from dagger_fopen_Some [OF o [unfolded dagger_fopen_next_def r]]
  have fp: "fp = ?ip" and c0: "w_fs w0 ?ip = Some (FFile ?sb True)" by (auto simp: init_ip_def)
  let ?add = "\<lambda>w. if \<not> fixed \<and> op = LYDX_OP_CREATE then netdag_gen_afspec_add os net cif ?ip w
      else Some (0, w)"
  let ?mid = "[netdag_gen_ipv4_autoconf os net cif dif, netdag_gen_ipv6_autoconf ?ip cif dif,
      netdag_bridge_links os net cif ?ip, put_step ?ip nl,
      \<lambda>w. if \<not> fixed \<and> op \<noteq> LYDX_OP_CREATE then netdag_gen_afspec_set os net dif cif ?ip w
          else Some (0, w),
      netdag_gen_ip_addrs os ?ip ''ipv4'' cif dif, netdag_gen_ip_addrs os ?ip ''ipv6'' cif dif]"
  let ?ups = "if lydx_get_cattr cif ''enabled'' \<in> {None, Some ''true''} then put_step ?ip ?up
      else (\<lambda>w. Some (0, w))"
  have steps: "gen_iface_steps os net fixed op dif cif n ?ip
      = [?add] @ [put_step ?ip ?down] @ ?mid @ [?ups] @ [netdag_gen_sysctl os net dif]"
    by (simp add: gen_iface_steps_def Let_def)
  from gen o r fp have "run_steps (gen_iface_steps os net fixed op dif cif n ?ip) w0 = Some (0, w')"
    by (simp add: gen_iface_init_def)
  then obtain w1 w2 w3 w4 where
    s1: "run_steps [?add] w0 = Some (0, w1)" and s2: "run_steps [put_step ?ip ?down] w1 = Some (0, w2)" and
    s3: "run_steps ?mid w2 = Some (0, w3)" and s4: "run_steps [?ups] w3 = Some (0, w4)" and
    s5: "run_steps [netdag_gen_sysctl os net dif] w4 = Some (0, w')"
    unfolding steps by (blast dest!: run_steps_append_ok)
  have "extends ?ip ?add" by (intro extends_if extends_afspec_add os names)
  then have "list_all (extends ?ip) [?add]" by simp
  from extendsD [OF extends_run_steps [OF this] s1 c0] obtain new where
    c1: "w_fs w1 ?ip = Some (FFile (?sb @ new) True)" by blast
  have nil: "new = []" if "fixed \<or> op \<noteq> LYDX_OP_CREATE" using s1 c0 c1 that by auto
  from s2 c1 have c2: "w_fs w2 ?ip = Some (FFile ((?sb @ new) @ ?down) True)"
    by (auto simp: put_step_def intro: fput_same [of _ _ "?sb @ new", simplified])
  have "list_all (extends ?ip) ?mid"
    unfolding list.pred_inject
    by (intro conjI TrueI extends_if extends_put_step extends_ipv6_autoconf extends_bridge_links
        extends_afspec_set extends_ip_addrs [OF os(2) names(2,3)]
        keeps_extends [OF keeps_ipv4_autoconf] os names) simp
  from extendsD [OF extends_run_steps [OF this] s3 c2] obtain rest where
    c3: "w_fs w3 ?ip = Some (FFile (((?sb @ new) @ ?down) @ rest) True)" by blast
  have c4: "w_fs w4 ?ip = Some (FFile ((((?sb @ new) @ ?down) @ rest)
      @ (if lydx_get_cattr cif ''enabled'' \<in> {None, Some ''true''} then ?up else [])) True)"
  proof (cases "lydx_get_cattr cif ''enabled'' \<in> {None, Some ''true''}")
    case True
    with s4 have "w4 = fput ?ip ?up w3" by (auto simp: put_step_def)
    with True fput_same [OF c3, of ?up] show ?thesis by (simp del: append.simps append_assoc)
  next
    case False
    with s4 have "w4 = w3" by auto
    with False c3 show ?thesis by (simp del: append.simps append_assoc)
  qed
  from s5 have "netdag_gen_sysctl os net dif w4 = Some (0, w')" by (auto split: bind_splits if_splits)
  from keepsD [OF keeps_sysctl [OF os(1,3) names(2,3)] this c4] nil show ?thesis
    by (intro exI [of _ new] exI [of _ rest]) simp
qed

section \<open>Properties\<close>


definition demo_lo :: "(string \<times> string) list \<Rightarrow> lyd_ref" where
  "demo_lo meta =
     LydRef (demo_cont ''interface'' meta
       [demo_leaf ''name'' ''lo'', demo_leaf ''type'' ''iana-if-type:softwareLoopback'']) [] []"

definition demo_net :: dagger where
  "demo_net = \<lparr>d_current = -1, d_next = 0, d_next_fp = SOpen ''/r/next'', d_path = ''/r''\<rparr>"

lemma demo_flush: "flush_adds_only demo_os"
  by (auto simp: flush_adds_only_def adds_only_def demo_os_def demo_sh_def exit_cmd_def)


end
