(* ===== verification/AppAr.thy ===== *)
theory AppAr
  imports Prelude
begin

text \<open>
  The table of application relations (ARs) of the Profinet application, from
  \<open>src/src/profeth/src/app_utils.c\<close> and its header: adding an AR, the event flags of an AR, and
  the iterator with its deferred compaction.  An AR pointer is an index into the table, whose
  length is \<open>PNET_MAX_AR\<close>; a free entry has the reserved number \<open>UINT32_MAX\<close>.  A failed
  \<open>CC_ASSERT\<close> is \<^const>\<open>None\<close>.

  The lemmas show that compaction moves the used entries to the front in their order, and that
  the table is always such a used prefix followed by free entries outside an iteration.
\<close>

definition UINT32_MAX :: u32 where
  "UINT32_MAX = 0xFFFFFFFF"

record app_ar =
  ar_arep :: u32
  ar_events :: u32

type_synonym ar_table = "app_ar list"

definition ar_used :: "app_ar \<Rightarrow> bool" where
  "ar_used a = (ar_arep a \<noteq> UINT32_MAX)"

fun app_ar_add_arep :: "ar_table \<Rightarrow> u32 \<Rightarrow> (ar_table \<times> nat) option" where
  "app_ar_add_arep [] arep = None"
| "app_ar_add_arep (a # ars) arep =
     (if ar_arep a = UINT32_MAX then Some (a\<lparr>ar_arep := arep, ar_events := 0\<rparr> # ars, 0)
      else (case app_ar_add_arep ars arep of
              None \<Rightarrow> None
            | Some (ars', i) \<Rightarrow> Some (a # ars', Suc i)))"

definition app_ar_arep :: "ar_table \<Rightarrow> nat \<Rightarrow> u32" where
  "app_ar_arep ars i = ar_arep (ars ! i)"

definition app_ar_event_set :: "ar_table \<Rightarrow> nat \<Rightarrow> u32 \<Rightarrow> ar_table" where
  "app_ar_event_set ars i event = ars[i := (ars ! i)\<lparr>ar_events := ar_events (ars ! i) OR event\<rparr>]"

definition app_ar_event_clr :: "ar_table \<Rightarrow> nat \<Rightarrow> u32 \<Rightarrow> bool \<times> ar_table" where
  "app_ar_event_clr ars i event =
     (if ar_events (ars ! i) AND event \<noteq> 0
      then (True, ars[i := (ars ! i)\<lparr>ar_events := ar_events (ars ! i) AND NOT event\<rparr>])
      else (False, ars))"

section \<open>The iterator\<close>

text \<open>The table itself is not part of the iterator here: \<open>iterator->ar\<close> always points to the one
  table of the application, which every operation takes and returns.\<close>

record app_ar_iterator =
  it_index :: int
  it_modified :: bool

definition app_ar_iterator_init :: app_ar_iterator where
  "app_ar_iterator_init = \<lparr>it_index = -1, it_modified = False\<rparr>"

text \<open>The inner loop: the first used entry from \<open>j\<close> on, or the end of the table.\<close>

function ar_find_used :: "ar_table \<Rightarrow> nat \<Rightarrow> nat" where
  "ar_find_used ars j =
     (if j < length ars then
        if ar_arep (ars ! j) \<noteq> UINT32_MAX then j else ar_find_used ars (Suc j)
      else j)"
  by pat_completeness auto
termination by (relation "measure (\<lambda>(ars, j). length ars - j)") auto

declare ar_find_used.simps [simp del]

text \<open>The outer loop, from entry \<open>i\<close> on.\<close>

function ar_compact :: "ar_table \<Rightarrow> nat \<Rightarrow> ar_table" where
  "ar_compact ars i =
     (if i < length ars then
        if ar_arep (ars ! i) = UINT32_MAX then
          (let j = ar_find_used ars (Suc i);
               ars' = (if j < length ars
                       then ars[i := ars ! j, j := (ars ! j)\<lparr>ar_arep := UINT32_MAX\<rparr>]
                       else ars)
           in if length ars - 1 \<le> j then ars' else ar_compact ars' (Suc i))
        else ar_compact ars (Suc i)
      else ars)"
  by pat_completeness auto
termination by (relation "measure (\<lambda>(ars, i). length ars - i)") auto

declare ar_compact.simps [simp del]

definition app_ar_iterator_next ::
  "app_ar_iterator \<Rightarrow> ar_table \<Rightarrow> nat option \<times> app_ar_iterator \<times> ar_table" where
  "app_ar_iterator_next it ars =
     (let it = it\<lparr>it_index := it_index it + 1\<rparr>
      in if it_index it < int (length ars) \<and> ar_arep (ars ! nat (it_index it)) \<noteq> UINT32_MAX
         then (Some (nat (it_index it)), it, ars)
         else if 1 < length ars \<and> it_modified it then (None, it, ar_compact ars 0)
         else (None, it, ars))"

definition app_ar_iterator_done :: "app_ar_iterator \<Rightarrow> ar_table \<Rightarrow> bool" where
  "app_ar_iterator_done it ars =
     (\<not> (it_index it < 0
          \<or> (it_index it < int (length ars) \<and> ar_arep (ars ! nat (it_index it)) \<noteq> UINT32_MAX)))"

definition app_ar_iterator_delete_current ::
  "app_ar_iterator \<Rightarrow> ar_table \<Rightarrow> (app_ar_iterator \<times> ar_table) option" where
  "app_ar_iterator_delete_current it ars =
     (if it_index it < 0 then None
      else if it_index it < int (length ars) then
        (let i = nat (it_index it)
         in Some (it\<lparr>it_modified := True\<rparr>, ars[i := (ars ! i)\<lparr>ar_arep := UINT32_MAX\<rparr>]))
      else Some (it, ars))"

section \<open>The terminated-table invariant\<close>

definition ar_terminated :: "ar_table \<Rightarrow> bool" where
  "ar_terminated ars = list_all (\<lambda>a. \<not> ar_used a) (dropWhile ar_used ars)"

definition ar_live :: "ar_table \<Rightarrow> app_ar list" where
  "ar_live ars = filter ar_used ars"

lemma ar_used_simps [simp]:
  "\<not> ar_used (a\<lparr>ar_arep := UINT32_MAX\<rparr>)"
  "ar_used (a\<lparr>ar_events := e\<rparr>) = ar_used a"
  "ar_used (a\<lparr>ar_arep := r, ar_events := e\<rparr>) = (r \<noteq> UINT32_MAX)"
  by (simp_all add: ar_used_def)

lemma ar_terminated_iff:
  "ar_terminated ars \<longleftrightarrow>
     (\<exists>us fs. ars = us @ fs \<and> list_all ar_used us \<and> list_all (\<lambda>a. \<not> ar_used a) fs)"
  (is "?l = ?r")
proof
  assume ?l
  then show ?r
    by (intro exI [of _ "takeWhile ar_used ars"] exI [of _ "dropWhile ar_used ars"])
      (auto simp: ar_terminated_def list_all_iff dest: set_takeWhileD)
next
  assume ?r
  then obtain us fs where *: "ars = us @ fs" "list_all ar_used us" "list_all (\<lambda>a. \<not> ar_used a) fs"
    by blast
  then have "dropWhile ar_used ars = dropWhile ar_used fs"
    by (simp add: list_all_iff dropWhile_append2)
  moreover have "set (dropWhile ar_used fs) \<subseteq> set fs" by (auto dest: set_dropWhileD)
  ultimately show ?l using *(3) by (auto simp: ar_terminated_def list_all_iff)
qed

lemma ar_terminatedI:
  "\<lbrakk>ars = us @ fs; list_all ar_used us; list_all (\<lambda>a. \<not> ar_used a) fs\<rbrakk> \<Longrightarrow> ar_terminated ars"
  unfolding ar_terminated_iff by blast

lemma ar_live_append [simp]: "ar_live (xs @ ys) = ar_live xs @ ar_live ys"
  by (simp add: ar_live_def)

lemma ar_live_all [simp]: "list_all ar_used us \<Longrightarrow> ar_live us = us"
  by (simp add: ar_live_def list_all_iff)

lemma ar_live_none [simp]: "list_all (\<lambda>a. \<not> ar_used a) fs \<Longrightarrow> ar_live fs = []"
  by (simp add: ar_live_def list_all_iff)

lemma ar_live_Cons: "ar_live (a # ars) = (if ar_used a then a # ar_live ars else ar_live ars)"
  by (simp add: ar_live_def)

lemma ar_terminated_live:
  "ar_terminated ars \<Longrightarrow> \<exists>fs. ars = ar_live ars @ fs \<and> list_all (\<lambda>a. \<not> ar_used a) fs"
  unfolding ar_terminated_iff by fastforce

section \<open>Compaction\<close>

lemma ar_find_used_spec:
  "i \<le> length ars \<Longrightarrow>
     i \<le> ar_find_used ars i \<and> ar_find_used ars i \<le> length ars
     \<and> (\<forall>k. i \<le> k \<and> k < ar_find_used ars i \<longrightarrow> \<not> ar_used (ars ! k))
     \<and> (ar_find_used ars i < length ars \<longrightarrow> ar_used (ars ! ar_find_used ars i))"
proof (induction ars i rule: ar_find_used.induct)
  case (1 ars j)
  show ?case
  proof (cases "j < length ars \<and> \<not> ar_used (ars ! j)")
    case True
    then have eq: "ar_find_used ars j = ar_find_used ars (Suc j)"
      by (subst ar_find_used.simps) (simp add: ar_used_def)
    have IH: "Suc j \<le> ar_find_used ars (Suc j) \<and> ar_find_used ars (Suc j) \<le> length ars
        \<and> (\<forall>k. Suc j \<le> k \<and> k < ar_find_used ars (Suc j) \<longrightarrow> \<not> ar_used (ars ! k))
        \<and> (ar_find_used ars (Suc j) < length ars \<longrightarrow> ar_used (ars ! ar_find_used ars (Suc j)))"
      using "1.IH" True by (simp add: ar_used_def)
    show ?thesis unfolding eq using IH True by (metis Suc_leD le_neq_implies_less Suc_leI)
  next
    case False
    then have "ar_find_used ars j = j"
      by (subst ar_find_used.simps) (auto simp: ar_used_def)
    then show ?thesis using False "1.prems" by auto
  qed
qed

lemma split_at_two:
  assumes "i < j" "j < length xs"
  shows "xs = take i xs @ xs ! i # take (j - Suc i) (drop (Suc i) xs) @ xs ! j # drop (Suc j) xs"
proof -
  have "xs = take i xs @ xs ! i # drop (Suc i) xs"
    using assms by (simp add: id_take_nth_drop)
  moreover have "drop (Suc i) xs =
      take (j - Suc i) (drop (Suc i) xs) @ xs ! j # drop (Suc j) xs"
    using assms id_take_nth_drop [of "j - Suc i" "drop (Suc i) xs"] by simp
  ultimately show ?thesis by metis
qed

lemma update_two:
  assumes "i < j" "j < length xs"
  shows "xs[i := a, j := b] = take i xs @ a # take (j - Suc i) (drop (Suc i) xs) @ b # drop (Suc j) xs"
proof -
  let ?p = "take i xs" and ?m = "take (j - Suc i) (drop (Suc i) xs)" and ?t = "drop (Suc j) xs"
  obtain k where k: "j = Suc (i + k)" using assms(1) less_imp_Suc_add by blast
  have l: "length ?p = i" "length ?m = k" using assms k by auto
  have "(?p @ xs ! i # ?m @ xs ! j # ?t)[i := a, j := b] = ?p @ a # ?m @ b # ?t"
    using l by (simp add: list_update_append k)
  then show ?thesis using split_at_two [OF assms] by metis
qed

text \<open>What moving the next used entry \<open>j\<close> into the free entry \<open>i\<close> does.\<close>

lemma ar_move:
  fixes ars :: ar_table
  defines "m i j \<equiv> take (j - Suc i) (drop (Suc i) ars)"
  assumes ij: "i < j" "j < length ars" and free: "\<not> ar_used (ars ! i)" and used: "ar_used (ars ! j)"
    and pre: "list_all ar_used (take i ars)" and mid: "list_all (\<lambda>a. \<not> ar_used a) (m i j)"
    and r: "r = ars[i := ars ! j, j := (ars ! j)\<lparr>ar_arep := UINT32_MAX\<rparr>]"
  shows "length r = length ars" "ar_live r = ar_live ars" "list_all ar_used (take (Suc i) r)"
    "length ars - 1 \<le> j \<Longrightarrow> ar_terminated r"
proof -
  let ?f = "(ars ! j)\<lparr>ar_arep := UINT32_MAX\<rparr>"
  have ars_eq: "ars = take i ars @ ars ! i # m i j @ ars ! j # drop (Suc j) ars"
    unfolding m_def by (rule split_at_two [OF ij])
  have r_eq: "r = take i ars @ ars ! j # m i j @ ?f # drop (Suc j) ars"
    unfolding r m_def by (rule update_two [OF ij])
  show "length r = length ars" by (simp add: r)
  have "ar_live ars = take i ars @ ars ! j # ar_live (drop (Suc j) ars)"
    using arg_cong [OF ars_eq, of ar_live] pre mid free used by (simp add: ar_live_Cons)
  then show "ar_live r = ar_live ars"
    unfolding r_eq using pre mid used by (simp add: ar_live_Cons)
  show "list_all ar_used (take (Suc i) r)"
    unfolding r_eq using pre used ij by (simp add: list_all_append)
  show "ar_terminated r" if "length ars - 1 \<le> j"
  proof (rule ar_terminatedI)
    show "r = (take i ars @ [ars ! j]) @ m i j @ [?f]"
      using that ij unfolding r_eq by simp
    show "list_all ar_used (take i ars @ [ars ! j])" using pre used by simp
    show "list_all (\<lambda>a. \<not> ar_used a) (m i j @ [?f])" using mid by simp
  qed
qed

lemma ar_find_used_gap:
  assumes "i < length ars" "j = ar_find_used ars (Suc i)"
  shows "i < j" "j \<le> length ars" "j < length ars \<Longrightarrow> ar_used (ars ! j)"
    "list_all (\<lambda>a. \<not> ar_used a) (take (j - Suc i) (drop (Suc i) ars))"
  using ar_find_used_spec [of "Suc i" ars] assms by (auto simp: list_all_iff in_set_conv_nth)

lemma ar_compact_loop:
  assumes "list_all ar_used (take i ars)"
  shows "length (ar_compact ars i) = length ars
    \<and> ar_live (ar_compact ars i) = ar_live ars
    \<and> ar_terminated (ar_compact ars i)"
  using assms
proof (induction ars i rule: ar_compact.induct)
  case (1 ars i)
  consider "length ars \<le> i" | "i < length ars" "ar_arep (ars ! i) \<noteq> UINT32_MAX"
    | "i < length ars" "ar_arep (ars ! i) = UINT32_MAX" by linarith
  then show ?case
  proof cases
    case 1
    then have "ar_compact ars i = ars" by (subst ar_compact.simps) simp
    with 1 "1.prems" show ?thesis by (auto intro: ar_terminatedI [of _ ars "[]"])
  next
    case 2
    then have eq: "ar_compact ars i = ar_compact ars (Suc i)" by (subst ar_compact.simps) simp
    have "list_all ar_used (take (Suc i) ars)"
      using "1.prems" 2 by (simp add: take_Suc_conv_app_nth ar_used_def [of "ars ! i"])
    from "1.IH"(2) [OF 2 this] show ?thesis unfolding eq .
  next
    case 3
    define j where "j = ar_find_used ars (Suc i)"
    note J = ar_find_used_gap [OF 3(1) j_def]
    have free: "\<not> ar_used (ars ! i)" using 3 by (simp add: ar_used_def)
    define r where "r = (if j < length ars
        then ars[i := ars ! j, j := (ars ! j)\<lparr>ar_arep := UINT32_MAX\<rparr>] else ars)"
    have eq: "ar_compact ars i = (if length ars - 1 \<le> j then r else ar_compact r (Suc i))"
      by (subst ar_compact.simps) (simp only: 3 simp_thms if_True Let_def j_def r_def)
    show ?thesis
    proof (cases "j < length ars")
      case False
      with J(2) have "ars = take i ars @ ars ! i # take (j - Suc i) (drop (Suc i) ars)"
        using 3(1) by (simp add: id_take_nth_drop)
      then have "ar_terminated ars"
        by (rule ar_terminatedI) (use "1.prems" free J(4) in simp_all)
      moreover from False have "length ars - 1 \<le> j" by simp
      ultimately show ?thesis using False by (simp add: eq r_def)
    next
      case True
      then have r: "r = ars[i := ars ! j, j := (ars ! j)\<lparr>ar_arep := UINT32_MAX\<rparr>]"
        by (simp add: r_def)
      note M = ar_move [OF J(1) True free J(3) [OF True] "1.prems" J(4) r]
      show ?thesis
      proof (cases "length ars - 1 \<le> j")
        case True
        with M show ?thesis by (simp add: eq)
      next
        case False
        from "1.IH"(1) [OF 3 j_def r_def False M(3)] M False show ?thesis by (simp add: eq)
      qed
    qed
  qed
qed

lemma ar_compact_live:
  "length (ar_compact ars 0) = length ars"
  "ar_live (ar_compact ars 0) = ar_live ars"
  "ar_terminated (ar_compact ars 0)"
  using ar_compact_loop [of 0 ars] by simp_all

lemma ar_terminated_eqI:
  assumes "ar_terminated xs" "ar_live xs = us" "length xs = n"
  shows "take (length us) xs = us \<and> list_all (\<lambda>a. \<not> ar_used a) (drop (length us) xs)"
  using ar_terminated_live [OF assms(1)] assms(2) by (metis append_eq_conv_conj)

section \<open>Adding an AR and setting events\<close>

lemma app_ar_add_arep_full:
  "app_ar_add_arep ars arep = None \<longleftrightarrow> list_all ar_used ars"
  by (induction ars) (auto simp: ar_used_def split: option.splits)

lemma app_ar_add_arep_spec:
  assumes "ar_terminated ars" "app_ar_add_arep ars arep = Some (ars', i)"
  shows "i = length (ar_live ars) \<and> i < length ars \<and> length ars' = length ars
    \<and> ars' = ars[i := \<lparr>ar_arep = arep, ar_events = 0\<rparr>]"
proof -
  obtain us fs where *: "ars = us @ fs" "list_all ar_used us" "list_all (\<lambda>a. \<not> ar_used a) fs"
    using assms(1) unfolding ar_terminated_iff by blast
  have "app_ar_add_arep (us @ fs) arep = Some (ars', i) \<Longrightarrow>
      \<exists>f fs'. fs = f # fs' \<and> i = length us
        \<and> ars' = us @ \<lparr>ar_arep = arep, ar_events = 0\<rparr> # fs'" for ars' i
    using *(2,3)
  proof (induction us arbitrary: ars' i)
    case Nil
    then show ?case by (cases fs) (auto simp: ar_used_def)
  next
    case (Cons u us)
    then show ?case by (auto simp: ar_used_def split: option.splits)
  qed
  with assms(2) *(1) obtain f fs'
    where "fs = f # fs'" "i = length us" "ars' = us @ \<lparr>ar_arep = arep, ar_events = 0\<rparr> # fs'"
    by blast
  then show ?thesis using * by simp
qed

end
