(* ===== verification/AppSlots.thy ===== *)
theory AppSlots
  imports AppAr
begin

text \<open>
  Slots and subslots of the Profinet application, from \<open>src/src/profeth/src/app_utils.c\<close> and
  \<open>app_utils.h\<close>: plugging and pulling modules and submodules and the look-up of a subslot.  The
  constants of the p-net stack, whose sources are not part of the repository, are the fields of
  \<open>pnet_consts\<close>; a subslot pointer is the pair of its slot index and its index in that slot.
  A subslot has a cyclic callback or none: the only callback of the application is
  \<open>app_cyclic_data_callback\<close>, so the pointer is a boolean.
\<close>

record pnet_consts =
  PNET_MAX_AR :: nat
  PNET_MAX_SLOTS :: nat
  PNET_MAX_SUBSLOTS :: nat
  PNET_MAX_PHYSICAL_PORTS :: nat
  PNET_INTERFACE_NAME_MAX_SIZE :: nat
  PNET_IOXS_BAD :: u8
  PNET_IOXS_GOOD :: u8
  PNET_MOD_DAP_IDENT :: u32
  PNET_SUBMOD_DAP_IDENT :: u32
  PNET_SUBMOD_DAP_INTERFACE_1_IDENT :: u32
  PNET_SUBMOD_DAP_INTERFACE_1_PORT_1_IDENT :: u32
  PNET_SUBMOD_DAP_INTERFACE_1_PORT_2_IDENT :: u32
  PNET_SUBMOD_DAP_INTERFACE_1_PORT_3_IDENT :: u32
  PNET_SUBMOD_DAP_INTERFACE_1_PORT_4_IDENT :: u32
  PNET_SLOT_DAP_IDENT :: u16
  PNET_SUBSLOT_DAP_IDENT :: u16
  PNET_SUBSLOT_DAP_INTERFACE_1_IDENT :: u16

datatype pnet_submodule_dir =
  PNET_DIR_NO_IO | PNET_DIR_INPUT | PNET_DIR_OUTPUT | PNET_DIR_IO | PNET_DIR_OTHER int

record pnet_data_cfg =
  data_dir :: pnet_submodule_dir
  insize :: u16
  outsize :: u16

record app_subslot =
  used :: bool
  plugged :: bool
  slot_nbr :: u16
  subslot_nbr :: u16
  submodule_id :: u32
  submodule_name :: cstr
  data_cfg :: pnet_data_cfg
  indata_iocs :: u8
  outdata_iops :: u8
  cyclic_callback :: bool
  tag :: bool

record app_slot =
  slot_plugged :: bool
  module_id :: u32
  slot_name :: cstr
  subslots :: "app_subslot list"

record app_api =
  api_id :: u32
  api_ar :: ar_table
  slots :: "app_slot list"

text \<open>\<open>memset (p_subslot, 0, ...)\<close>; \<open>PNET_DIR_NO_IO\<close> is the enumerator with value zero.\<close>

definition subslot_zero :: app_subslot where
  "subslot_zero = \<lparr>used = False, plugged = False, slot_nbr = 0, subslot_nbr = 0,
     submodule_id = 0, submodule_name = None,
     data_cfg = \<lparr>data_dir = PNET_DIR_NO_IO, insize = 0, outsize = 0\<rparr>,
     indata_iocs = 0, outdata_iops = 0, cyclic_callback = False, tag = False\<rparr>"

type_synonym subslot_ptr = "nat \<times> nat"

definition get_slot :: "app_api \<Rightarrow> nat \<Rightarrow> app_slot" where
  "get_slot api s = slots api ! s"

definition set_slot :: "app_api \<Rightarrow> nat \<Rightarrow> app_slot \<Rightarrow> app_api" where
  "set_slot api s sl = api\<lparr>slots := (slots api)[s := sl]\<rparr>"

definition deref :: "app_api \<Rightarrow> subslot_ptr \<Rightarrow> app_subslot" where
  "deref api p = subslots (get_slot api (fst p)) ! snd p"

definition assign :: "app_api \<Rightarrow> subslot_ptr \<Rightarrow> app_subslot \<Rightarrow> app_api" where
  "assign api p ss =
     set_slot api (fst p)
       ((get_slot api (fst p))\<lparr>subslots := (subslots (get_slot api (fst p)))[snd p := ss]\<rparr>)"

text \<open>The arrays have the sizes of their declarations.\<close>

definition api_sized :: "pnet_consts \<Rightarrow> app_api \<Rightarrow> bool" where
  "api_sized k api =
     (length (slots api) = PNET_MAX_SLOTS k
      \<and> list_all (\<lambda>sl. length (subslots sl) = PNET_MAX_SUBSLOTS k) (slots api))"

definition app_utils_plug_module ::
  "pnet_consts \<Rightarrow> app_api \<Rightarrow> u16 \<Rightarrow> u32 \<Rightarrow> cstr \<Rightarrow> int \<times> app_api" where
  "app_utils_plug_module k api slot ident name =
     (if PNET_MAX_SLOTS k \<le> unat slot then (-1, api)
      else (0, set_slot api (unat slot)
                 ((get_slot api (unat slot))\<lparr>module_id := ident, slot_plugged := True,
                    slot_name := name\<rparr>)))"

definition app_utils_pull_module :: "pnet_consts \<Rightarrow> app_api \<Rightarrow> u16 \<Rightarrow> int \<times> app_api" where
  "app_utils_pull_module k api slot =
     (if PNET_MAX_SLOTS k \<le> unat slot then (-1, api)
      else (0, set_slot api (unat slot) ((get_slot api (unat slot))\<lparr>slot_plugged := False\<rparr>)))"

text \<open>The search loops over the subslots of one slot: the first index with a property.\<close>

fun find_subslot :: "(app_subslot \<Rightarrow> bool) \<Rightarrow> app_subslot list \<Rightarrow> nat option" where
  "find_subslot P [] = None"
| "find_subslot P (ss # rest) = (if P ss then Some 0 else map_option Suc (find_subslot P rest))"

definition app_utils_plug_submodule ::
  "pnet_consts \<Rightarrow> app_api \<Rightarrow> u16 \<Rightarrow> u16 \<Rightarrow> u32 \<Rightarrow> pnet_data_cfg option \<Rightarrow> cstr \<Rightarrow> bool \<Rightarrow> bool
     \<Rightarrow> subslot_ptr option \<times> app_api" where
  "app_utils_plug_submodule k api slot subslot ident p_data_cfg name callback tg =
     (if PNET_MAX_SLOTS k \<le> unat slot then (None, api)
      else case p_data_cfg of
        None \<Rightarrow> (None, api)
      | Some cfg \<Rightarrow>
          (case find_subslot (\<lambda>ss. \<not> used ss) (subslots (get_slot api (unat slot))) of
             None \<Rightarrow> (None, api)
           | Some ix \<Rightarrow>
               (Some (unat slot, ix),
                assign api (unat slot, ix)
                  \<lparr>used = True, plugged = True, slot_nbr = slot, subslot_nbr = subslot,
                   submodule_id = ident, submodule_name = name, data_cfg = cfg,
                   indata_iocs = PNET_IOXS_BAD k, outdata_iops = PNET_IOXS_BAD k,
                   cyclic_callback = callback, tag = tg\<rparr>)))"

definition app_utils_subslot_get :: "pnet_consts \<Rightarrow> app_api \<Rightarrow> u16 \<Rightarrow> u16 \<Rightarrow> subslot_ptr option" where
  "app_utils_subslot_get k api slot subslot =
     (if PNET_MAX_SLOTS k \<le> unat slot then None
      else map_option (Pair (unat slot))
             (find_subslot (\<lambda>ss. subslot_nbr ss = subslot) (subslots (get_slot api (unat slot)))))"

definition app_utils_pull_submodule :: "pnet_consts \<Rightarrow> app_api \<Rightarrow> u16 \<Rightarrow> u16 \<Rightarrow> int \<times> app_api" where
  "app_utils_pull_submodule k api slot subslot =
     (if PNET_MAX_SUBSLOTS k \<le> unat slot then (-1, api)
      else case app_utils_subslot_get k api slot subslot of
             None \<Rightarrow> (-1, api)
           | Some p \<Rightarrow> (0, assign api p subslot_zero))"

definition app_utils_subslot_is_input :: "app_subslot option \<Rightarrow> bool" where
  "app_utils_subslot_is_input p =
     (case p of
        None \<Rightarrow> False
      | Some ss \<Rightarrow>
          if \<not> used ss then False
          else data_dir (data_cfg ss) = PNET_DIR_INPUT \<or> data_dir (data_cfg ss) = PNET_DIR_IO)"

definition app_utils_subslot_is_no_io :: "app_subslot option \<Rightarrow> bool" where
  "app_utils_subslot_is_no_io p =
     (case p of
        None \<Rightarrow> False
      | Some ss \<Rightarrow> if \<not> used ss then False else data_dir (data_cfg ss) = PNET_DIR_NO_IO)"

definition app_utils_subslot_is_output :: "app_subslot option \<Rightarrow> bool" where
  "app_utils_subslot_is_output p =
     (case p of
        None \<Rightarrow> False
      | Some ss \<Rightarrow>
          if \<not> used ss then False
          else data_dir (data_cfg ss) = PNET_DIR_OUTPUT \<or> data_dir (data_cfg ss) = PNET_DIR_IO)"

section \<open>Subslot pointers\<close>

definition ptr_ok :: "pnet_consts \<Rightarrow> subslot_ptr \<Rightarrow> bool" where
  "ptr_ok k p = (fst p < PNET_MAX_SLOTS k \<and> snd p < PNET_MAX_SUBSLOTS k)"

lemma api_sizedD:
  "api_sized k api \<Longrightarrow> length (slots api) = PNET_MAX_SLOTS k"
  "\<lbrakk>api_sized k api; s < PNET_MAX_SLOTS k\<rbrakk> \<Longrightarrow> length (subslots (get_slot api s)) = PNET_MAX_SUBSLOTS k"
  by (auto simp: api_sized_def list_all_length get_slot_def)

lemma api_sized_set_slot:
  "\<lbrakk>api_sized k api; length (subslots sl) = PNET_MAX_SUBSLOTS k\<rbrakk> \<Longrightarrow> api_sized k (set_slot api s sl)"
  by (auto simp: api_sized_def set_slot_def list_all_iff dest!: set_update_subset_insert [THEN subsetD])

lemma get_set_slot [simp]:
  "s < length (slots api) \<Longrightarrow> get_slot (set_slot api s sl) s' = (if s' = s then sl else get_slot api s')"
  by (simp add: get_slot_def set_slot_def nth_list_update)

lemma api_ar_set_slot [simp]: "api_ar (set_slot api s sl) = api_ar api"
  by (simp add: set_slot_def)

lemma api_ar_assign [simp]: "api_ar (assign api p ss) = api_ar api"
  by (simp add: assign_def)

lemma api_sized_assign:
  "\<lbrakk>api_sized k api; ptr_ok k p\<rbrakk> \<Longrightarrow> api_sized k (assign api p ss)"
  by (simp add: assign_def api_sized_set_slot api_sizedD ptr_ok_def)

lemma deref_assign:
  "\<lbrakk>api_sized k api; ptr_ok k p; ptr_ok k q\<rbrakk> \<Longrightarrow>
     deref (assign api p ss) q = (if q = p then ss else deref api q)"
  by (cases p; cases q) (auto simp: deref_def assign_def api_sizedD ptr_ok_def nth_list_update)

lemma deref_set_slot:
  "\<lbrakk>api_sized k api; s < PNET_MAX_SLOTS k; subslots sl = subslots (get_slot api s)\<rbrakk> \<Longrightarrow>
     deref (set_slot api s sl) q = deref api q"
  by (auto simp: deref_def api_sizedD)

lemma find_subslot_Some:
  "find_subslot P xs = Some i \<longleftrightarrow> i < length xs \<and> P (xs ! i) \<and> (\<forall>j < i. \<not> P (xs ! j))"
proof (induction xs arbitrary: i)
  case Nil
  then show ?case by simp
next
  case (Cons x xs)
  show ?case
    by (cases i) (auto simp: Cons.IH less_Suc_eq_0_disj)
qed

lemma find_subslot_None: "find_subslot P xs = None \<longleftrightarrow> (\<forall>i < length xs. \<not> P (xs ! i))"
  by (induction xs) (auto simp: less_Suc_eq_0_disj)

lemma app_utils_subslot_get_Some:
  assumes "api_sized k api"
  shows "app_utils_subslot_get k api s n = Some p \<longleftrightarrow>
    ptr_ok k p \<and> fst p = unat s \<and> subslot_nbr (deref api p) = n
      \<and> (\<forall>j < snd p. subslot_nbr (deref api (unat s, j)) \<noteq> n)"
  using assms api_sizedD(2) [OF assms, of "unat s"]
  by (cases p) (auto simp: app_utils_subslot_get_def find_subslot_Some ptr_ok_def deref_def)

lemma app_utils_plug_submodule_Some:
  assumes "api_sized k api" "app_utils_plug_submodule k api s n ident cfg name cb tg = (Some p, api')"
  shows "ptr_ok k p" "fst p = unat s" "\<not> used (deref api p)"
    "\<exists>c. cfg = Some c \<and> api' = assign api p
       \<lparr>used = True, plugged = True, slot_nbr = s, subslot_nbr = n, submodule_id = ident,
        submodule_name = name, data_cfg = c, indata_iocs = PNET_IOXS_BAD k,
        outdata_iops = PNET_IOXS_BAD k, cyclic_callback = cb, tag = tg\<rparr>"
  using assms(2) api_sizedD(2) [OF assms(1), of "unat s"]
  by (auto simp: app_utils_plug_submodule_def ptr_ok_def deref_def find_subslot_Some
      split: if_splits option.splits)

lemma app_utils_plug_submodule_None:
  assumes "app_utils_plug_submodule k api s n ident cfg name cb tg = (None, api')"
  shows "api' = api"
  using assms by (auto simp: app_utils_plug_submodule_def split: if_splits option.splits)

lemma app_utils_pull_submodule_cases:
  assumes "api_sized k api" "app_utils_pull_submodule k api s n = (rc, api')"
  shows "(rc = -1 \<and> api' = api)
    \<or> (\<exists>p. rc = 0 \<and> ptr_ok k p \<and> fst p = unat s \<and> subslot_nbr (deref api p) = n
          \<and> api' = assign api p subslot_zero)"
  using assms(2)
  by (auto simp: app_utils_pull_submodule_def app_utils_subslot_get_Some [OF assms(1)]
      split: if_splits option.splits)

end
