(* ===== verification/AppGsdml.thy ===== *)
theory AppGsdml
  imports AppSlots
begin

text \<open>
  The device description of the Profinet application, from \<open>src/src/profeth/src/app_gsdml.c\<close> and
  \<open>app_gsdml.h\<close>: the tables of supported modules, submodules and parameters and the three look-ups
  in them.  The identifiers of the device access point come from the p-net stack.  The locale
  \<open>keyed_table\<close> is the contract of such a table: with distinct keys, the first match is the only
  one.  The header asks for it (\<open>Design requires unique submodule IDs and unique parameter
  indexes\<close>).
\<close>

definition APP_GSDML_API :: u32 where "APP_GSDML_API = 0"
definition APP_GSDML_PARAMETER_1_IDX :: u32 where "APP_GSDML_PARAMETER_1_IDX = 123"
definition APP_GSDML_PARAMETER_2_IDX :: u32 where "APP_GSDML_PARAMETER_2_IDX = 124"
definition APP_GSDML_PARAMETER_ECHO_IDX :: u32 where "APP_GSDML_PARAMETER_ECHO_IDX = 125"
definition APP_GSDML_PARAMETER_LENGTH :: u16 where "APP_GSDML_PARAMETER_LENGTH = 4"
definition APP_GSDML_MOD_ID_8_0_DIGITAL_IN :: u32 where "APP_GSDML_MOD_ID_8_0_DIGITAL_IN = 0x30"
definition APP_GSDML_MOD_ID_0_8_DIGITAL_OUT :: u32 where "APP_GSDML_MOD_ID_0_8_DIGITAL_OUT = 0x31"
definition APP_GSDML_MOD_ID_8_8_DIGITAL_IN_OUT :: u32 where "APP_GSDML_MOD_ID_8_8_DIGITAL_IN_OUT = 0x32"
definition APP_GSDML_MOD_ID_ECHO :: u32 where "APP_GSDML_MOD_ID_ECHO = 0x40"
definition APP_GSDML_SUBMOD_ID_DIGITAL_IN :: u32 where "APP_GSDML_SUBMOD_ID_DIGITAL_IN = 0x130"
definition APP_GSDML_SUBMOD_ID_DIGITAL_OUT :: u32 where "APP_GSDML_SUBMOD_ID_DIGITAL_OUT = 0x131"
definition APP_GSDML_SUBMOD_ID_DIGITAL_IN_OUT :: u32 where "APP_GSDML_SUBMOD_ID_DIGITAL_IN_OUT = 0x132"
definition APP_GSDML_SUBMOD_ID_ECHO :: u32 where "APP_GSDML_SUBMOD_ID_ECHO = 0x140"
definition APP_GSDML_INPUT_DATA_DIGITAL_SIZE :: u16 where "APP_GSDML_INPUT_DATA_DIGITAL_SIZE = 1"
definition APP_GSDML_OUTPUT_DATA_DIGITAL_SIZE :: u16 where "APP_GSDML_OUTPUT_DATA_DIGITAL_SIZE = 1"
definition APP_GSDML_INPUT_DATA_ECHO_SIZE :: u16 where "APP_GSDML_INPUT_DATA_ECHO_SIZE = 8"
definition APP_GSDML_OUTPUT_DATA_ECHO_SIZE :: u16 where "APP_GSDML_OUTPUT_DATA_ECHO_SIZE = 8"
definition APP_GSDML_ALARM_PAYLOAD_SIZE :: u16 where "APP_GSDML_ALARM_PAYLOAD_SIZE = 1"

lemmas gsdml_consts =
  APP_GSDML_API_def APP_GSDML_PARAMETER_1_IDX_def APP_GSDML_PARAMETER_2_IDX_def
  APP_GSDML_PARAMETER_ECHO_IDX_def APP_GSDML_PARAMETER_LENGTH_def
  APP_GSDML_MOD_ID_8_0_DIGITAL_IN_def APP_GSDML_MOD_ID_0_8_DIGITAL_OUT_def
  APP_GSDML_MOD_ID_8_8_DIGITAL_IN_OUT_def APP_GSDML_MOD_ID_ECHO_def
  APP_GSDML_SUBMOD_ID_DIGITAL_IN_def APP_GSDML_SUBMOD_ID_DIGITAL_OUT_def
  APP_GSDML_SUBMOD_ID_DIGITAL_IN_OUT_def APP_GSDML_SUBMOD_ID_ECHO_def
  APP_GSDML_INPUT_DATA_DIGITAL_SIZE_def APP_GSDML_OUTPUT_DATA_DIGITAL_SIZE_def
  APP_GSDML_INPUT_DATA_ECHO_SIZE_def APP_GSDML_OUTPUT_DATA_ECHO_SIZE_def
  APP_GSDML_ALARM_PAYLOAD_SIZE_def

section \<open>Tables\<close>

text \<open>The variable-length arrays end with a zero, which is part of the list here.\<close>

record app_gsdml_module =
  gm_id :: u32
  gm_name :: string
  gm_submodules :: "u32 list"

record app_gsdml_submodule =
  gs_id :: u32
  gs_name :: string
  gs_api :: u32
  gs_data_dir :: pnet_submodule_dir
  gs_insize :: u16
  gs_outsize :: u16
  gs_parameters :: "u16 list"

record app_gsdml_param =
  gp_index :: u32
  gp_name :: string
  gp_length :: u16

definition dap_1 :: "pnet_consts \<Rightarrow> app_gsdml_module" where
  "dap_1 k = \<lparr>gm_id = PNET_MOD_DAP_IDENT k, gm_name = ''DAP 1'',
     gm_submodules = [PNET_SUBMOD_DAP_IDENT k, PNET_SUBMOD_DAP_INTERFACE_1_PORT_1_IDENT k,
       PNET_SUBMOD_DAP_INTERFACE_1_PORT_2_IDENT k, PNET_SUBMOD_DAP_INTERFACE_1_PORT_3_IDENT k,
       PNET_SUBMOD_DAP_INTERFACE_1_PORT_4_IDENT k, 0]\<rparr>"

definition module_digital_in :: app_gsdml_module where
  "module_digital_in = \<lparr>gm_id = APP_GSDML_MOD_ID_8_0_DIGITAL_IN, gm_name = ''DI 8xLogicLevel'',
     gm_submodules = [APP_GSDML_SUBMOD_ID_DIGITAL_IN, 0]\<rparr>"

definition module_digital_out :: app_gsdml_module where
  "module_digital_out = \<lparr>gm_id = APP_GSDML_MOD_ID_0_8_DIGITAL_OUT, gm_name = ''DO 8xLogicLevel'',
     gm_submodules = [APP_GSDML_SUBMOD_ID_DIGITAL_OUT, 0]\<rparr>"

definition module_digital_in_out :: app_gsdml_module where
  "module_digital_in_out = \<lparr>gm_id = APP_GSDML_MOD_ID_8_8_DIGITAL_IN_OUT,
     gm_name = ''DIO 8xLogicLevel'', gm_submodules = [APP_GSDML_SUBMOD_ID_DIGITAL_IN_OUT, 0]\<rparr>"

definition module_echo :: app_gsdml_module where
  "module_echo = \<lparr>gm_id = APP_GSDML_MOD_ID_ECHO, gm_name = ''Echo module'',
     gm_submodules = [APP_GSDML_SUBMOD_ID_ECHO, 0]\<rparr>"

text \<open>The six submodules of the device access point share their shape: no data, no parameters.\<close>

definition dap_submodule :: "string \<Rightarrow> u32 \<Rightarrow> app_gsdml_submodule" where
  "dap_submodule name ident = \<lparr>gs_id = ident, gs_name = name, gs_api = APP_GSDML_API,
     gs_data_dir = PNET_DIR_NO_IO, gs_insize = 0, gs_outsize = 0, gs_parameters = [0]\<rparr>"

definition submod_digital_in :: app_gsdml_submodule where
  "submod_digital_in = \<lparr>gs_id = APP_GSDML_SUBMOD_ID_DIGITAL_IN, gs_name = ''Digital Input'',
     gs_api = APP_GSDML_API, gs_data_dir = PNET_DIR_INPUT,
     gs_insize = APP_GSDML_INPUT_DATA_DIGITAL_SIZE, gs_outsize = 0, gs_parameters = [0]\<rparr>"

definition submod_digital_out :: app_gsdml_submodule where
  "submod_digital_out = \<lparr>gs_id = APP_GSDML_SUBMOD_ID_DIGITAL_OUT, gs_name = ''Digital Output'',
     gs_api = APP_GSDML_API, gs_data_dir = PNET_DIR_OUTPUT, gs_insize = 0,
     gs_outsize = APP_GSDML_OUTPUT_DATA_DIGITAL_SIZE, gs_parameters = [0]\<rparr>"

definition submod_digital_inout :: app_gsdml_submodule where
  "submod_digital_inout = \<lparr>gs_id = APP_GSDML_SUBMOD_ID_DIGITAL_IN_OUT,
     gs_name = ''Digital Input/Output'', gs_api = APP_GSDML_API, gs_data_dir = PNET_DIR_IO,
     gs_insize = APP_GSDML_INPUT_DATA_DIGITAL_SIZE, gs_outsize = APP_GSDML_OUTPUT_DATA_DIGITAL_SIZE,
     gs_parameters = [ucast APP_GSDML_PARAMETER_1_IDX, ucast APP_GSDML_PARAMETER_2_IDX, 0]\<rparr>"

definition submod_echo :: app_gsdml_submodule where
  "submod_echo = \<lparr>gs_id = APP_GSDML_SUBMOD_ID_ECHO, gs_name = ''Echo submodule'',
     gs_api = APP_GSDML_API, gs_data_dir = PNET_DIR_IO,
     gs_insize = APP_GSDML_INPUT_DATA_ECHO_SIZE, gs_outsize = APP_GSDML_OUTPUT_DATA_ECHO_SIZE,
     gs_parameters = [ucast APP_GSDML_PARAMETER_ECHO_IDX, 0]\<rparr>"

definition app_gsdml_modules :: "pnet_consts \<Rightarrow> app_gsdml_module list" where
  "app_gsdml_modules k =
     [dap_1 k, module_digital_in, module_digital_out, module_digital_in_out, module_echo]"

definition app_gsdml_submodules :: "pnet_consts \<Rightarrow> app_gsdml_submodule list" where
  "app_gsdml_submodules k =
     [dap_submodule ''DAP Identity 1'' (PNET_SUBMOD_DAP_IDENT k),
      dap_submodule ''DAP Interface 1'' (PNET_SUBMOD_DAP_INTERFACE_1_IDENT k),
      dap_submodule ''DAP Port 1'' (PNET_SUBMOD_DAP_INTERFACE_1_PORT_1_IDENT k),
      dap_submodule ''DAP Port 2'' (PNET_SUBMOD_DAP_INTERFACE_1_PORT_2_IDENT k),
      dap_submodule ''DAP Port 3'' (PNET_SUBMOD_DAP_INTERFACE_1_PORT_3_IDENT k),
      dap_submodule ''DAP Port 4'' (PNET_SUBMOD_DAP_INTERFACE_1_PORT_4_IDENT k),
      submod_digital_in, submod_digital_out, submod_digital_inout, submod_echo]"

definition app_gsdml_parameters :: "app_gsdml_param list" where
  "app_gsdml_parameters =
     [\<lparr>gp_index = APP_GSDML_PARAMETER_1_IDX, gp_name = ''Demo 1'', gp_length = APP_GSDML_PARAMETER_LENGTH\<rparr>,
      \<lparr>gp_index = APP_GSDML_PARAMETER_2_IDX, gp_name = ''Demo 2'', gp_length = APP_GSDML_PARAMETER_LENGTH\<rparr>,
      \<lparr>gp_index = APP_GSDML_PARAMETER_ECHO_IDX, gp_name = ''Echo gain setting'',
       gp_length = APP_GSDML_PARAMETER_LENGTH\<rparr>]"

section \<open>Look-ups\<close>

fun find_key :: "('a \<Rightarrow> 'k) \<Rightarrow> 'k \<Rightarrow> 'a list \<Rightarrow> 'a option" where
  "find_key f key [] = None"
| "find_key f key (x # xs) = (if f x = key then Some x else find_key f key xs)"

definition app_gsdml_get_module_cfg :: "pnet_consts \<Rightarrow> u32 \<Rightarrow> app_gsdml_module option" where
  "app_gsdml_get_module_cfg k ident = find_key gm_id ident (app_gsdml_modules k)"

definition app_gsdml_get_submodule_cfg :: "pnet_consts \<Rightarrow> u32 \<Rightarrow> app_gsdml_submodule option" where
  "app_gsdml_get_submodule_cfg k ident = find_key gs_id ident (app_gsdml_submodules k)"

text \<open>The loop over the parameter indexes of a submodule, up to the terminating zero; the inner
  loop may fall through, and then the outer one goes on.\<close>

fun search_parameters :: "u32 \<Rightarrow> u16 list \<Rightarrow> app_gsdml_param option" where
  "search_parameters index [] = None"
| "search_parameters index (p # ps) =
     (if p = 0 then None
      else if ucast p = index then
        (case find_key gp_index index app_gsdml_parameters of
           Some par \<Rightarrow> Some par
         | None \<Rightarrow> search_parameters index ps)
      else search_parameters index ps)"

definition app_gsdml_get_parameter_cfg :: "pnet_consts \<Rightarrow> u32 \<Rightarrow> u32 \<Rightarrow> app_gsdml_param option" where
  "app_gsdml_get_parameter_cfg k ident index =
     (case app_gsdml_get_submodule_cfg k ident of
        None \<Rightarrow> None
      | Some cfg \<Rightarrow> search_parameters index (gs_parameters cfg))"

section \<open>The contract of a keyed table\<close>

locale keyed_table =
  fixes key :: "'a \<Rightarrow> 'k" and table :: "'a list"
  assumes distinct_keys: "distinct (map key table)"
begin

lemma find_key_member: "x \<in> set table \<Longrightarrow> find_key key (key x) table = Some x"
  using distinct_keys
proof (induction table)
  case Nil
  then show ?case by simp
next
  case (Cons y ys)
  then show ?case by (auto simp: image_iff)
qed

lemma find_key_iff: "find_key key c table = Some x \<longleftrightarrow> x \<in> set table \<and> key x = c"
proof
  assume "find_key key c table = Some x"
  then show "x \<in> set table \<and> key x = c"
    by (induction table) (auto split: if_splits)
next
  assume "x \<in> set table \<and> key x = c"
  then show "find_key key c table = Some x" using find_key_member by auto
qed

lemma find_key_none: "find_key key c table = None \<longleftrightarrow> c \<notin> key ` set table"
  using find_key_iff by (metis image_iff not_None_eq)

end

interpretation pars: keyed_table gp_index app_gsdml_parameters
  by unfold_locales (simp add: app_gsdml_parameters_def gsdml_consts)

text \<open>What p-net documents of its identifiers, and what the table relies on.\<close>

definition ids_distinct :: "pnet_consts \<Rightarrow> bool" where
  "ids_distinct k =
     (distinct (map gm_id (app_gsdml_modules k)) \<and> distinct (map gs_id (app_gsdml_submodules k)))"

lemma submodule_table: "ids_distinct k \<Longrightarrow> keyed_table gs_id (app_gsdml_submodules k)"
  by unfold_locales (simp add: ids_distinct_def)

lemma find_key_SomeD: "find_key f c xs = Some x \<Longrightarrow> x \<in> set xs \<and> f x = c"
  by (induction xs) (auto split: if_splits)

text \<open>Every submodule fits the buffer of the cyclic callback.\<close>

lemma submodule_sizes:
  "app_gsdml_get_submodule_cfg k ident = Some cfg \<Longrightarrow>
     unat (gs_insize cfg) \<le> 8 \<and> unat (gs_outsize cfg) \<le> 8"
  unfolding app_gsdml_get_submodule_cfg_def
  by (drule find_key_SomeD)
    (auto simp: app_gsdml_submodules_def dap_submodule_def submod_digital_in_def
      submod_digital_out_def submod_digital_inout_def submod_echo_def gsdml_consts)

lemma submodule_parameters:
  assumes "app_gsdml_get_submodule_cfg k ident = Some cfg" "p \<in> set (gs_parameters cfg)" "p \<noteq> 0"
  shows "ucast p \<in> gp_index ` set app_gsdml_parameters"
proof -
  have "cfg \<in> set (app_gsdml_submodules k)"
    using assms(1) find_key_SomeD unfolding app_gsdml_get_submodule_cfg_def by metis
  with assms(2,3) show ?thesis
    by (auto simp: app_gsdml_submodules_def dap_submodule_def submod_digital_in_def
        submod_digital_out_def submod_digital_inout_def submod_echo_def app_gsdml_parameters_def
        gsdml_consts)
qed

lemma search_parameters_Some:
  "search_parameters index ps = Some par \<Longrightarrow>
     par \<in> set app_gsdml_parameters \<and> gp_index par = index \<and> index \<in> ucast ` (set ps - {0})"
proof (induction ps)
  case Nil
  then show ?case by simp
next
  case (Cons p ps)
  then show ?case by (auto simp: pars.find_key_iff split: if_splits option.splits)
qed

lemma app_gsdml_get_parameter_cfg_length:
  "app_gsdml_get_parameter_cfg k ident index = Some par \<Longrightarrow>
     gp_length par = 4 \<and> index \<in> {123, 124, 125}"
  by (auto simp: app_gsdml_get_parameter_cfg_def app_gsdml_parameters_def gsdml_consts
      split: option.splits dest!: search_parameters_Some)

end
