(* ===== verification/AppData.thy ===== *)
theory AppData
  imports AppGsdml
begin

text \<open>
  Process data and parameters of the Profinet application, from
  \<open>src/src/profeth/src/app_data.c\<close>.  The static variables are the fields of \<open>app_mem\<close>; the
  values kept in network byte order are lists of bytes.  The product of a \<open>float\<close> with the gain is
  binary32 arithmetic with rounding to nearest even; which NaN an operation gives depends on the
  processor and is the parameter \<open>nan\<close>.  Calls of \<open>app_set_led\<close> are recorded in \<open>led_calls\<close>.
\<close>

section \<open>Bytes in network order\<close>

definition be32 :: "u8 list \<Rightarrow> u32" where
  "be32 bs = foldl (\<lambda>a b. push_bit 8 a OR ucast b) 0 (take 4 bs)"

definition to_be32 :: "u32 \<Rightarrow> u8 list" where
  "to_be32 w = [ucast (drop_bit 24 w), ucast (drop_bit 16 w), ucast (drop_bit 8 w), ucast w]"

definition memcpy :: "u8 list \<Rightarrow> u8 list \<Rightarrow> nat \<Rightarrow> u8 list" where
  "memcpy dst src n = take n src @ drop n dst"

section \<open>Binary32 multiplication\<close>

fun bit_length :: "nat \<Rightarrow> nat" where
  "bit_length n = (if n = 0 then 0 else Suc (bit_length (n div 2)))"

declare bit_length.simps [simp del]

text \<open>\<open>n / 2^s\<close>, rounded to nearest, ties to even.\<close>

definition round_shift :: "nat \<Rightarrow> nat \<Rightarrow> nat" where
  "round_shift n s =
     (let q = n div 2 ^ s; r = n mod 2 ^ s
      in if 2 ^ s < 2 * r \<or> (2 ^ s = 2 * r \<and> odd q) then Suc q else q)"

text \<open>The float nearest to \<open>m * 2^e\<close>; the exponent of the last place is at least \<open>-149\<close>.\<close>

definition float_bits :: "bool \<Rightarrow> nat \<Rightarrow> int \<Rightarrow> u32" where
  "float_bits neg m e =
     (let q = max (e + int (bit_length m) - 24) (-149);
          mant = (if q \<le> e then m * 2 ^ nat (e - q) else round_shift m (nat (q - e)));
          bits = mant + nat (q + 149) * 2 ^ 23;
          magnitude = (if m = 0 then 0 else min bits (255 * 2 ^ 23))
      in of_nat (magnitude + (if neg then 2 ^ 31 else 0)))"

definition float_exp :: "u32 \<Rightarrow> nat" where
  "float_exp x = unat x div 2 ^ 23 mod 2 ^ 8"

definition float_frac :: "u32 \<Rightarrow> nat" where
  "float_frac x = unat x mod 2 ^ 23"

definition float_neg :: "u32 \<Rightarrow> bool" where
  "float_neg x = (2 ^ 31 \<le> unat x)"

definition float_mant :: "u32 \<Rightarrow> nat \<times> int" where
  "float_mant x =
     (if float_exp x = 0 then (float_frac x, -149)
      else (2 ^ 23 + float_frac x, int (float_exp x) - 150))"

text \<open>\<open>x * (float) g\<close> for the unsigned integer \<open>g\<close>, which is first rounded to a float itself.\<close>

definition float_times_u32 :: "(u32 \<Rightarrow> u32 \<Rightarrow> u32) \<Rightarrow> u32 \<Rightarrow> u32 \<Rightarrow> u32" where
  "float_times_u32 nan x g =
     (let y = float_bits False (unat g) 0
      in if float_exp x = 255 then
           if float_frac x \<noteq> 0 \<or> unat g = 0 then nan x y else x
         else case (float_mant x, float_mant y) of
                ((mx, ex), (my, ey)) \<Rightarrow> float_bits (float_neg x) (mx * my) (ex + ey))"

section \<open>State and operations\<close>

record app_mem =
  app_param_1 :: "u8 list"
  app_param_2 :: "u8 list"
  app_param_echo_gain :: "u8 list"
  inputdata :: "u8 list"
  outputdata :: "u8 list"
  counter :: u8
  echo_inputdata :: "u8 list"
  echo_outputdata :: "u8 list"
  previous_led_state :: bool
  led_calls :: "(u16 \<times> bool) list"

text \<open>The initial values.  The gain is the integer \<open>1\<close> as the processor stores it, in the order
  \<open>le\<close>, although it is read as a number in network order.\<close>

definition host_bytes :: "bool \<Rightarrow> u32 \<Rightarrow> u8 list" where
  "host_bytes le w = (if le then rev (to_be32 w) else to_be32 w)"

definition app_mem_init :: "bool \<Rightarrow> app_mem" where
  "app_mem_init le = \<lparr>app_param_1 = host_bytes le 0, app_param_2 = host_bytes le 0,
     app_param_echo_gain = host_bytes le 1, inputdata = [0], outputdata = [0], counter = 0,
     echo_inputdata = replicate 8 0, echo_outputdata = replicate 8 0,
     previous_led_state = False, led_calls = []\<rparr>"

definition APP_DATA_LED_ID :: u16 where "APP_DATA_LED_ID = 1"

definition app_handle_data_led_state :: "app_mem \<Rightarrow> bool \<Rightarrow> app_mem" where
  "app_handle_data_led_state m led_state =
     (let m = (if led_state \<noteq> previous_led_state m
               then m\<lparr>led_calls := led_calls m @ [(APP_DATA_LED_ID, led_state)]\<rparr> else m)
      in m\<lparr>previous_led_state := led_state\<rparr>)"

text \<open>The result is the data, its size and its provider status, or nothing for an unsupported
  submodule (\<open>size\<close> and \<open>iops\<close> are never null at the calls).\<close>

definition app_data_get_input_data ::
  "pnet_consts \<Rightarrow> (u32 \<Rightarrow> u32 \<Rightarrow> u32) \<Rightarrow> app_mem \<Rightarrow> u32 \<Rightarrow> bool
     \<Rightarrow> (u8 list \<times> u16 \<times> u8) option \<times> app_mem" where
  "app_data_get_input_data k nan m ident button_pressed =
     (if ident = APP_GSDML_SUBMOD_ID_DIGITAL_IN \<or> ident = APP_GSDML_SUBMOD_ID_DIGITAL_IN_OUT then
        (let d = counter m;
             d = (if button_pressed then d OR 0x80 else d AND 0x7F);
             m = m\<lparr>counter := counter m + 1, inputdata := [d]\<rparr>
         in (Some (inputdata m, APP_GSDML_INPUT_DATA_DIGITAL_SIZE, PNET_IOXS_GOOD k), m))
      else if ident = APP_GSDML_SUBMOD_ID_ECHO then
        (let out = echo_outputdata m;
             gain = be32 (app_param_echo_gain m);
             echo_int = to_be32 (be32 (drop 4 out) * gain);
             echo_float = to_be32 (float_times_u32 nan (be32 (take 4 out)) gain);
             m = m\<lparr>echo_inputdata := echo_float @ echo_int\<rparr>
         in (Some (echo_inputdata m, APP_GSDML_INPUT_DATA_ECHO_SIZE, PNET_IOXS_GOOD k), m))
      else (None, m))"

definition app_data_set_output_data :: "app_mem \<Rightarrow> u32 \<Rightarrow> u8 list option \<Rightarrow> u16 \<Rightarrow> int \<times> app_mem" where
  "app_data_set_output_data m ident data sz =
     (case data of
        None \<Rightarrow> (-1, m)
      | Some d \<Rightarrow>
          if ident = APP_GSDML_SUBMOD_ID_DIGITAL_OUT \<or> ident = APP_GSDML_SUBMOD_ID_DIGITAL_IN_OUT then
            if sz = APP_GSDML_OUTPUT_DATA_DIGITAL_SIZE then
              (let m = m\<lparr>outputdata := memcpy (outputdata m) d (unat sz)\<rparr>
               in (0, app_handle_data_led_state m (outputdata m ! 0 AND 0x80 > 0)))
            else (-1, m)
          else if ident = APP_GSDML_SUBMOD_ID_ECHO then
            if sz = APP_GSDML_OUTPUT_DATA_ECHO_SIZE
            then (0, m\<lparr>echo_outputdata := memcpy (echo_outputdata m) d (unat sz)\<rparr>)
            else (-1, m)
          else (-1, m))"

definition app_data_set_default_outputs :: "app_mem \<Rightarrow> app_mem" where
  "app_data_set_default_outputs m =
     app_handle_data_led_state (m\<lparr>outputdata := (outputdata m)[0 := 0]\<rparr>) False"

definition app_data_write_parameter ::
  "pnet_consts \<Rightarrow> app_mem \<Rightarrow> u32 \<Rightarrow> u32 \<Rightarrow> u8 list \<Rightarrow> u16 \<Rightarrow> int \<times> app_mem" where
  "app_data_write_parameter k m ident index data len =
     (case app_gsdml_get_parameter_cfg k ident index of
        None \<Rightarrow> (-1, m)
      | Some par \<Rightarrow>
          if len \<noteq> gp_length par then (-1, m)
          else if index = APP_GSDML_PARAMETER_1_IDX
          then (0, m\<lparr>app_param_1 := memcpy (app_param_1 m) data (unat len)\<rparr>)
          else if index = APP_GSDML_PARAMETER_2_IDX
          then (0, m\<lparr>app_param_2 := memcpy (app_param_2 m) data (unat len)\<rparr>)
          else if index = APP_GSDML_PARAMETER_ECHO_IDX
          then (0, m\<lparr>app_param_echo_gain := memcpy (app_param_echo_gain m) data (unat len)\<rparr>)
          else (0, m))"

text \<open>Reading returns the data and its length; the caller's buffer length only limits it.  An
  index none of the three branches knows leaves the caller's pointer alone.\<close>

definition app_data_read_parameter ::
  "pnet_consts \<Rightarrow> app_mem \<Rightarrow> u32 \<Rightarrow> u32 \<Rightarrow> u8 list option \<times> u16 \<Rightarrow> int \<times> u8 list option \<times> u16" where
  "app_data_read_parameter k m ident index buf =
     (case app_gsdml_get_parameter_cfg k ident index of
        None \<Rightarrow> (-1, buf)
      | Some par \<Rightarrow>
          if snd buf < gp_length par then (-1, buf)
          else if index = APP_GSDML_PARAMETER_1_IDX then (0, Some (app_param_1 m), 4)
          else if index = APP_GSDML_PARAMETER_2_IDX then (0, Some (app_param_2 m), 4)
          else if index = APP_GSDML_PARAMETER_ECHO_IDX then (0, Some (app_param_echo_gain m), 4)
          else (0, buf))"

section \<open>Sizes of the variables and state of the LED\<close>

text \<open>The states \<open>app_set_led\<close> was called with for the data LED.\<close>

definition data_led :: "app_mem \<Rightarrow> bool list" where
  "data_led m = map snd (filter (\<lambda>c. fst c = APP_DATA_LED_ID) (led_calls m))"

definition led_ok :: "app_mem \<Rightarrow> bool" where
  "led_ok m =
     (successively (\<noteq>) (data_led m) \<and> (data_led m \<noteq> [] \<longrightarrow> last (data_led m) = previous_led_state m))"

definition mem_ok :: "app_mem \<Rightarrow> bool" where
  "mem_ok m =
     (length (app_param_1 m) = 4 \<and> length (app_param_2 m) = 4 \<and> length (app_param_echo_gain m) = 4
      \<and> length (inputdata m) = 1 \<and> length (outputdata m) = 1
      \<and> length (echo_inputdata m) = 8 \<and> length (echo_outputdata m) = 8 \<and> led_ok m)"

lemma led_ok_simps [simp]:
  "led_ok (m\<lparr>app_param_1 := a\<rparr>) = led_ok m" "led_ok (m\<lparr>app_param_2 := a\<rparr>) = led_ok m"
  "led_ok (m\<lparr>app_param_echo_gain := a\<rparr>) = led_ok m" "led_ok (m\<lparr>inputdata := a\<rparr>) = led_ok m"
  "led_ok (m\<lparr>outputdata := a\<rparr>) = led_ok m" "led_ok (m\<lparr>counter := c\<rparr>) = led_ok m"
  "led_ok (m\<lparr>echo_inputdata := a\<rparr>) = led_ok m" "led_ok (m\<lparr>echo_outputdata := a\<rparr>) = led_ok m"
  by (simp_all add: led_ok_def data_led_def)

lemma led_ok_led:
  "led_ok m \<Longrightarrow> led_ok (app_handle_data_led_state m b)"
  by (cases "data_led m = []")
    (auto simp: led_ok_def app_handle_data_led_state_def Let_def data_led_def successively_append_iff)

lemma mem_ok_init: "mem_ok (app_mem_init le)"
  by (simp add: mem_ok_def led_ok_def data_led_def app_mem_init_def host_bytes_def to_be32_def)

lemma length_to_be32 [simp]: "length (to_be32 w) = 4"
  by (simp add: to_be32_def)

lemma length_memcpy: "\<lbrakk>n \<le> length src; n \<le> length dst\<rbrakk> \<Longrightarrow> length (memcpy dst src n) = length dst"
  by (simp add: memcpy_def)

lemma mem_ok_led: "mem_ok m \<Longrightarrow> mem_ok (app_handle_data_led_state m b)"
  using led_ok_led [of m b] by (simp add: app_handle_data_led_state_def mem_ok_def Let_def)

lemma mem_ok_get_input:
  "\<lbrakk>mem_ok m; app_data_get_input_data k nan m ident b = (r, m')\<rbrakk> \<Longrightarrow> mem_ok m'"
  by (auto simp: app_data_get_input_data_def mem_ok_def Let_def split: if_splits)

lemma mem_ok_defaults: "mem_ok m \<Longrightarrow> mem_ok (app_data_set_default_outputs m)"
  unfolding app_data_set_default_outputs_def by (rule mem_ok_led) (simp add: mem_ok_def)

lemma mem_ok_set_output:
  assumes "mem_ok m" "app_data_set_output_data m ident (Some d) sz = (rc, m')" "unat sz \<le> length d"
  shows "mem_ok m'"
proof -
  have "mem_ok (m\<lparr>outputdata := memcpy (outputdata m) d 1\<rparr>)" if "unat sz = 1"
    using assms(1,3) that by (simp add: mem_ok_def length_memcpy)
  moreover have "mem_ok (m\<lparr>echo_outputdata := memcpy (echo_outputdata m) d 8\<rparr>)" if "unat sz = 8"
    using assms(1,3) that by (simp add: mem_ok_def length_memcpy)
  ultimately show ?thesis
    using assms(1,2) mem_ok_led
    by (auto simp: app_data_set_output_data_def gsdml_consts Let_def split: if_splits)
qed

lemma mem_ok_write:
  assumes "mem_ok m" "app_data_write_parameter k m ident index d len = (rc, m')" "unat len \<le> length d"
  shows "mem_ok m'"
  using assms
  by (auto simp: app_data_write_parameter_def mem_ok_def length_memcpy
      dest!: app_gsdml_get_parameter_cfg_length split: if_splits option.splits)

section \<open>Byte order\<close>

lemma be32_to_be32 [simp]: "be32 (to_be32 w) = w"
proof -
  have "be32 (to_be32 w) =
      push_bit 8 (push_bit 8 (push_bit 8 (ucast (ucast (drop_bit 24 w) :: u8)) OR
        ucast (ucast (drop_bit 16 w) :: u8)) OR ucast (ucast (drop_bit 8 w) :: u8))
      OR ucast (ucast w :: u8)"
    by (simp add: be32_def to_be32_def)
  also have "\<dots> = w"
  proof (rule bit_word_eqI)
    fix n assume "n < LENGTH(32)"
    then consider "n < 8" | "8 \<le> n" "n < 16" | "16 \<le> n" "n < 24" | "24 \<le> n" "n < 32"
      by (simp, linarith)
    then show "bit (push_bit 8 (push_bit 8 (push_bit 8 (ucast (ucast (drop_bit 24 w) :: u8)) OR
        ucast (ucast (drop_bit 16 w) :: u8)) OR ucast (ucast (drop_bit 8 w) :: u8))
        OR ucast (ucast w :: u8) :: u32) n = bit w n"
      by cases (auto simp: bit_or_iff bit_push_bit_iff bit_ucast_iff bit_drop_bit_eq)
  qed
  finally show ?thesis .
qed

section \<open>Multiplication by one\<close>

lemma bit_length_le: "bit_length n \<le> k \<longleftrightarrow> n < 2 ^ k"
proof (induction n arbitrary: k rule: bit_length.induct)
  case (1 n)
  show ?case
  proof (cases "n = 0")
    case True
    then show ?thesis by (simp add: bit_length.simps)
  next
    case False
    then show ?thesis
      using "1.IH" by (cases k) (auto simp: bit_length.simps [of n] less_mult_imp_div_less div_less_iff_less_mult mult.commute)
  qed
qed

lemma bit_length_eq: "\<lbrakk>2 ^ k \<le> n; n < 2 ^ Suc k\<rbrakk> \<Longrightarrow> bit_length n = Suc k"
  using bit_length_le [of n k] bit_length_le [of n "Suc k"] by linarith

lemma round_shift_exact: "round_shift (m * 2 ^ s) s = m"
  by (simp add: round_shift_def)

lemma bit_length_shift: "0 < m \<Longrightarrow> bit_length (m * 2 ^ s) = bit_length m + s"
proof (induction s)
  case (Suc s)
  then have "bit_length (m * 2 ^ Suc s) = Suc (bit_length (m * 2 ^ s))"
    by (subst bit_length.simps) simp
  with Suc show ?case by simp
qed simp

lemma float_one: "float_bits False 1 0 = 0x3F800000"
proof -
  have "bit_length 1 = 1" using bit_length_eq [of 0 1] by simp
  then show ?thesis by (simp add: float_bits_def Let_def)
qed

text \<open>A number that is given with more places than fit, all of them zero, is not rounded.\<close>

lemma float_bits_exact:
  assumes "m < 2 ^ 24" "0 < m" "-149 \<le> e" "2 ^ 23 \<le> m \<or> e = -149" "e < 105"
  shows "float_bits neg (m * 2 ^ 23) (e - 23) =
    of_nat (m + nat (e + 149) * 2 ^ 23 + (if neg then 2 ^ 31 else 0))"
proof -
  have L: "bit_length m \<le> 24" using assms(1) bit_length_le by blast
  have "bit_length m = 24" if "2 ^ 23 \<le> m"
    using bit_length_eq [of 23 m] that assms(1) by simp
  with L assms(3,4) have q: "max (e - 23 + int (bit_length (m * 2 ^ 23)) - 24) (-149) = e"
    using bit_length_shift [OF assms(2), of 23] by (auto simp: max_def)
  have mant: "(if e \<le> e - 23 then m * 2 ^ 23 * 2 ^ nat (e - 23 - e)
      else round_shift (m * 2 ^ 23) (nat (e - (e - 23)))) = m"
    using round_shift_exact [of m 23] by simp
  have "nat (e + 149) \<le> 253" using assms(5) by simp
  then have "m + nat (e + 149) * 2 ^ 23 < 255 * 2 ^ 23" using assms(1) by simp
  then have *: "min (m + nat (e + 149) * 2 ^ 23) (255 * 2 ^ 23) = m + nat (e + 149) * 2 ^ 23"
    by simp
  show ?thesis
    unfolding float_bits_def Let_def q mant * using assms(2) by simp
qed

lemma float_fields:
  "unat x = float_frac x + float_exp x * 2 ^ 23 + (if float_neg x then 2 ^ 31 else 0)"
  "float_frac x < 2 ^ 23" "float_exp x < 256"
proof -
  have lt: "unat x < 2 ^ 32" using unsigned_less [of x] by simp
  have "unat x = unat x mod 2 ^ 23 + 2 ^ 23 * (unat x div 2 ^ 23)" by simp
  also have "unat x div 2 ^ 23 = unat x div 2 ^ 23 mod 2 ^ 8 + 2 ^ 8 * (unat x div 2 ^ 23 div 2 ^ 8)"
    by simp
  also have "unat x div 2 ^ 23 div 2 ^ 8 = (if float_neg x then 1 else 0)"
  proof -
    have "unat x div 2 ^ 23 div 2 ^ 8 = unat x div 2 ^ 31" by (simp add: div_mult2_eq [symmetric])
    then show ?thesis using lt by (auto simp: float_neg_def div_nat_eqI)
  qed
  finally show "unat x = float_frac x + float_exp x * 2 ^ 23 + (if float_neg x then 2 ^ 31 else 0)"
    unfolding float_frac_def float_exp_def by (cases "float_neg x") simp_all
qed (simp_all add: float_frac_def float_exp_def)

lemma float_times_one:
  assumes "float_exp x < 255 \<or> float_frac x = 0"
  shows "float_times_u32 nan x 1 = x"
proof (cases "float_exp x = 255")
  case True
  with assms show ?thesis by (simp add: float_times_u32_def Let_def)
next
  case False
  note F = float_fields [of x]
  have ex: "float_exp x < 255" using False F(3) by simp
  have one: "float_mant 0x3F800000 = (2 ^ 23, -23)"
    by (simp add: float_mant_def float_exp_def float_frac_def)
  obtain m e where me: "float_mant x = (m, e)" by fastforce
  have m: "m < 2 ^ 24" "-149 \<le> e" "2 ^ 23 \<le> m \<or> e = -149" "e < 105"
      "m + nat (e + 149) * 2 ^ 23 = float_frac x + float_exp x * 2 ^ 23"
    using me F(2) ex
    by (auto simp: float_mant_def nat_diff_distrib algebra_simps split: if_splits)
  have "float_bits (float_neg x) (m * 2 ^ 23) (e - 23) = of_nat (unat x)"
  proof (cases "m = 0")
    case True
    with m(5) F(1) m(3) show ?thesis by (simp add: float_bits_def Let_def)
  next
    case False
    then have "float_bits (float_neg x) (m * 2 ^ 23) (e - 23) =
        of_nat (m + nat (e + 149) * 2 ^ 23 + (if float_neg x then 2 ^ 31 else 0))"
      using m by (intro float_bits_exact) simp_all
    also have "m + nat (e + 149) * 2 ^ 23 + (if float_neg x then 2 ^ 31 else 0) = unat x"
      using F(1) m(5) by presburger
    finally show ?thesis .
  qed
  then show ?thesis using False by (simp add: float_times_u32_def float_one [simplified] one me Let_def)
qed

end
