(* ===== verification/SampleApp.thy ===== *)
theory SampleApp
  imports AppData
begin

text \<open>
  The Profinet application itself, from \<open>src/src/profeth/src/sampleapp_common.c\<close>: its state, the
  callbacks the stack makes, the handlers of the main loop and one round of the loop.

  The p-net stack is the parameter \<open>pn\<close>: its constants, and for every call the application makes
  the return value and the next state of the stack, of an arbitrary type.  The field \<open>trace\<close> of
  the application state records these calls.  Callbacks the stack makes on its own are operations
  of their own here, and a failed \<open>CC_ASSERT\<close> is \<^const>\<open>None\<close>.  Log messages are left out.
\<close>

section \<open>The stack\<close>

record pnet_errs =
  PNET_ERROR_CODE_WRITE :: u8
  PNET_ERROR_CODE_READ :: u8
  PNET_ERROR_DECODE_PNIORW :: u8
  PNET_ERROR_CODE_1_APP_WRITE_ERROR :: u8
  PNET_ERROR_CODE_1_APP_READ_ERROR :: u8
  PNET_ERROR_CODE_1_FSPM :: u8
  PNET_DATA_STATUS_BIT_PROVIDER_STATE :: nat
  PNET_DATA_STATUS_BIT_DATA_VALID :: nat

record pnet_pnio_status =
  error_code :: u8
  error_decode :: u8
  error_code_1 :: u8
  error_code_2 :: u8

record pnet_alarm_argument =
  alarm_api_id :: u32
  alarm_slot_nbr :: u16
  alarm_subslot_nbr :: u16
  alarm_type :: u16
  sequence_number :: u16

datatype pnet_diag_enum =
  PNET_DIAG_CH_INDIVIDUAL_CHANNEL | PNET_DIAG_CH_PROP_DIR_INPUT | PNET_DIAG_CH_PROP_TYPE_1_BIT
| PNET_DIAG_CH_PROP_MAINT_FAULT

record pnet_diag_source =
  diag_api :: u32
  diag_slot :: u16
  diag_subslot :: u16
  diag_ch :: u16
  diag_ch_grouping :: pnet_diag_enum
  diag_ch_direction :: pnet_diag_enum

datatype pnet_event_values =
  PNET_EVENT_ABORT | PNET_EVENT_STARTUP | PNET_EVENT_PRMEND | PNET_EVENT_APPLRDY | PNET_EVENT_DATA

datatype pnet_call =
  Pnet_pull_module u32 u16
| Pnet_plug_module u32 u16 u32
| Pnet_pull_submodule u32 u16 u16
| Pnet_plug_submodule u32 u16 u16 u32 u32 pnet_submodule_dir u16 u16
| Pnet_get_ar_error_codes u32
| Pnet_set_provider_state bool
| Pnet_application_ready u32
| Pnet_alarm_send_ack u32 pnet_alarm_argument pnet_pnio_status
| Pnet_sm_released_cnf u32
| Pnet_input_set_data_and_iops u32 u16 u16 "u8 list option" u16 u8
| Pnet_output_set_iocs u32 u16 u16 u8
| Pnet_alarm_send_process_alarm u32 u32 u16 u16 u16 u16 "u8 list"
| Pnet_set_primary_state bool
| Pnet_set_redundancy_state bool
| Pnet_diag_std_add pnet_diag_source pnet_diag_enum pnet_diag_enum u16 u16 u32 u32
| Pnet_diag_std_update pnet_diag_source u16 u16 u32
| Pnet_diag_std_remove pnet_diag_source u16 u16
| Pnet_diag_usi_add u32 u16 u16 u16 u16 string
| Pnet_diag_usi_update u32 u16 u16 u16 u16 string
| Pnet_diag_usi_remove u32 u16 u16 u16
| Pnet_create_log_book_entry u32 pnet_pnio_status u32
| Pnet_ar_abort u32
| Pnet_handle_periodic

text \<open>Besides the calls with only a status: the initial state of a successful \<open>pnet_init\<close>; the
  buffer, length and status after \<open>pnet_output_get_data_and_iops\<close>; the status after
  \<open>pnet_input_get_iocs\<close> given the one before.\<close>

record 'n pnet =
  pn_consts :: pnet_consts
  pn_errs :: pnet_errs
  pn_nan :: "u32 \<Rightarrow> u32 \<Rightarrow> u32"
  pn_init :: "'n option"
  pn_call :: "pnet_call \<Rightarrow> 'n \<Rightarrow> int \<times> 'n"
  pn_output_get :: "u32 \<Rightarrow> u16 \<Rightarrow> u16 \<Rightarrow> u16 \<Rightarrow> 'n \<Rightarrow> (u8 list \<times> u16 \<times> u8) \<times> 'n"
  pn_input_get_iocs :: "u32 \<Rightarrow> u16 \<Rightarrow> u16 \<Rightarrow> u8 \<Rightarrow> 'n \<Rightarrow> u8 \<times> 'n"

section \<open>State\<close>

definition APP_EVENT_READY_FOR_DATA :: u32 where "APP_EVENT_READY_FOR_DATA = 0x0001"
definition APP_EVENT_TIMER :: u32 where "APP_EVENT_TIMER = 0x0002"
definition APP_EVENT_ALARM :: u32 where "APP_EVENT_ALARM = 0x0004"
definition APP_EVENT_SM_RELEASED :: u32 where "APP_EVENT_SM_RELEASED = 0x0008"
definition APP_EVENT_ABORT :: u32 where "APP_EVENT_ABORT = 0x8000"

lemmas app_events =
  APP_EVENT_READY_FOR_DATA_def APP_EVENT_TIMER_def APP_EVENT_ALARM_def APP_EVENT_SM_RELEASED_def
  APP_EVENT_ABORT_def

definition APP_PROFINET_SIGNAL_LED_ID :: u16 where "APP_PROFINET_SIGNAL_LED_ID = 2"
definition APP_TICKS_READ_BUTTONS :: u32 where "APP_TICKS_READ_BUTTONS = 10"
definition APP_TICKS_UPDATE_DATA :: u32 where "APP_TICKS_UPDATE_DATA = 100"

datatype app_demo_state =
  APP_DEMO_STATE_ALARM_SEND | APP_DEMO_STATE_LOGBOOK_ENTRY | APP_DEMO_STATE_ABORT_AR
| APP_DEMO_STATE_CYCLIC_REDUNDANT | APP_DEMO_STATE_CYCLIC_NORMAL | APP_DEMO_STATE_DIAG_STD_ADD
| APP_DEMO_STATE_DIAG_STD_UPDATE | APP_DEMO_STATE_DIAG_STD_REMOVE | APP_DEMO_STATE_DIAG_USI_ADD
| APP_DEMO_STATE_DIAG_USI_UPDATE | APP_DEMO_STATE_DIAG_USI_REMOVE

record 'n app_data =
  net :: 'n
  num_physical_ports :: u16
  main_api :: app_api
  main_timer :: bool
  main_events :: u32
  alarm_allowed :: bool
  alarm_arg :: pnet_alarm_argument
  alarm_demo_state :: app_demo_state
  alarm_payload :: "u8 list"
  button1_pressed :: bool
  button2_pressed :: bool
  button2_pressed_previous :: bool
  buttons_tick_counter :: u32
  process_data_tick_counter :: u32
  mem :: app_mem
  trace :: "pnet_call list"

definition pcall :: "'n pnet \<Rightarrow> pnet_call \<Rightarrow> 'n app_data \<Rightarrow> int \<times> 'n app_data" where
  "pcall pn c app =
     (case pn_call pn c (net app) of (rc, n) \<Rightarrow> (rc, app\<lparr>net := n, trace := trace app @ [c]\<rparr>))"

definition set_ars :: "'n app_data \<Rightarrow> ar_table \<Rightarrow> 'n app_data" where
  "set_ars app ars = app\<lparr>main_api := (main_api app)\<lparr>api_ar := ars\<rparr>\<rparr>"

definition ars_of :: "'n app_data \<Rightarrow> ar_table" where
  "ars_of app = api_ar (main_api app)"

definition app_is_connected_to_controller :: "'n app_data \<Rightarrow> bool" where
  "app_is_connected_to_controller app = (ar_arep (ars_of app ! 0) \<noteq> UINT32_MAX)"

text \<open>The static \<open>app_state\<close>, all zero at the start of the program, and \<open>app_init\<close> on it.\<close>

definition slot_zero :: "pnet_consts \<Rightarrow> app_slot" where
  "slot_zero k = \<lparr>slot_plugged = False, module_id = 0, slot_name = None,
     subslots = replicate (PNET_MAX_SUBSLOTS k) subslot_zero\<rparr>"

definition app_init :: "bool \<Rightarrow> 'n pnet \<Rightarrow> u16 \<Rightarrow> 'n app_data option" where
  "app_init le pn ports =
     (case pn_init pn of
        None \<Rightarrow> None
      | Some n \<Rightarrow> Some
          \<lparr>net = n, num_physical_ports = ports,
           main_api = \<lparr>api_id = 0,
             api_ar = replicate (PNET_MAX_AR (pn_consts pn)) \<lparr>ar_arep = UINT32_MAX, ar_events = 0\<rparr>,
             slots = replicate (PNET_MAX_SLOTS (pn_consts pn)) (slot_zero (pn_consts pn))\<rparr>,
           main_timer = False, main_events = 0, alarm_allowed = True,
           alarm_arg = \<lparr>alarm_api_id = 0, alarm_slot_nbr = 0, alarm_subslot_nbr = 0,
             alarm_type = 0, sequence_number = 0\<rparr>,
           alarm_demo_state = APP_DEMO_STATE_ALARM_SEND,
           alarm_payload = replicate (unat APP_GSDML_ALARM_PAYLOAD_SIZE) 0,
           button1_pressed = False, button2_pressed = False, button2_pressed_previous = False,
           buttons_tick_counter = 0, process_data_tick_counter = 0,
           mem = app_mem_init le, trace = []\<rparr>)"

text \<open>\<open>app_start\<close>, given whether the event group and the timer can be created.  Creating the main
  thread has no effect on this state: it runs the main loop below.\<close>

definition app_start :: "bool \<Rightarrow> bool \<Rightarrow> 'n app_data option \<Rightarrow> int \<times> 'n app_data option" where
  "app_start event_ok timer_ok app =
     (case app of
        None \<Rightarrow> (-1, None)
      | Some a \<Rightarrow>
          if \<not> event_ok then (-1, Some a)
          else if \<not> timer_ok then (-1, Some (a\<lparr>main_events := 0\<rparr>))
          else (0, Some (a\<lparr>main_events := 0, main_timer := True\<rparr>)))"

definition main_timer_tick :: "'n app_data \<Rightarrow> 'n app_data" where
  "main_timer_tick app = app\<lparr>main_events := main_events app OR APP_EVENT_TIMER\<rparr>"

definition app_set_outputs_default_value :: "'n app_data \<Rightarrow> 'n app_data" where
  "app_set_outputs_default_value app = app\<lparr>mem := app_data_set_default_outputs (mem app)\<rparr>"

definition app_set_led :: "u16 \<Rightarrow> bool \<Rightarrow> 'n app_data \<Rightarrow> 'n app_data" where
  "app_set_led ident led_state app =
     app\<lparr>mem := (mem app)\<lparr>led_calls := led_calls (mem app) @ [(ident, led_state)]\<rparr>\<rparr>"

section \<open>Events of an AR\<close>

lemma app_ar_iterator_next_Some:
  "(Some i, it', ars') = app_ar_iterator_next it ars \<Longrightarrow>
     ars' = ars \<and> it' = it\<lparr>it_index := it_index it + 1\<rparr> \<and> i = nat (it_index it + 1)
     \<and> it_index it + 1 < int (length ars) \<and> ar_used (ars ! i)"
  by (auto simp: app_ar_iterator_next_def Let_def ar_used_def split: if_splits)

text \<open>The loop of \<open>app_event_set\<close>: the AR with the number, where the iterator stopped.\<close>

function ar_search ::
  "app_ar_iterator \<Rightarrow> ar_table \<Rightarrow> u32 \<Rightarrow> nat option \<times> app_ar_iterator \<times> ar_table" where
  "ar_search it ars arep =
     (case app_ar_iterator_next it ars of
        (None, it', ars') \<Rightarrow> (None, it', ars')
      | (Some i, it', ars') \<Rightarrow>
          if app_ar_arep ars' i = arep then (Some i, it', ars') else ar_search it' ars' arep)"
  by pat_completeness auto
termination
  by (relation "measure (\<lambda>(it, ars, arep). nat (int (length ars) - it_index it))")
    (auto dest!: app_ar_iterator_next_Some)

declare ar_search.simps [simp del]

definition app_event_set :: "'n app_data \<Rightarrow> u32 \<Rightarrow> u32 \<Rightarrow> bool \<Rightarrow> 'n app_data" where
  "app_event_set app arep event add_arep =
     (case ar_search app_ar_iterator_init (ars_of app) arep of
        (found, it, ars) \<Rightarrow>
          let ars = (case found of Some i \<Rightarrow> app_ar_event_set ars i event | None \<Rightarrow> ars);
              ars = (if add_arep \<and> app_ar_iterator_done it ars then
                       (case app_ar_add_arep ars arep of
                          None \<Rightarrow> ars
                        | Some (ars', i) \<Rightarrow> app_ar_event_set ars' i event)
                     else ars)
          in (set_ars app ars)\<lparr>main_events := main_events app OR event\<rparr>)"

text \<open>One round of the loop of \<open>app_handle_event_ar\<close>: \<^const>\<open>None\<close> as the first component of the
  result ends the loop.\<close>

definition ar_event_step ::
  "('n app_data \<Rightarrow> u32 \<Rightarrow> bool \<times> 'n app_data) \<Rightarrow> u32 \<Rightarrow> app_ar_iterator \<Rightarrow> 'n app_data
     \<Rightarrow> (app_ar_iterator option \<times> 'n app_data) option" where
  "ar_event_step handler event it app =
     (case app_ar_iterator_next it (ars_of app) of
        (None, it, ars) \<Rightarrow> Some (None, set_ars app ars)
      | (Some i, it, ars) \<Rightarrow>
          (case app_ar_event_clr ars i event of
             (False, ars) \<Rightarrow> Some (Some it, set_ars app ars)
           | (True, ars) \<Rightarrow>
               (case handler (set_ars app ars) (app_ar_arep ars i) of
                  (False, app) \<Rightarrow> Some (Some it, app)
                | (True, app) \<Rightarrow>
                    do { (it, ars) \<leftarrow> app_ar_iterator_delete_current it (ars_of app);
                         Some (Some it, set_ars app ars) })))"

partial_function (option) ar_event_loop ::
  "('n app_data \<Rightarrow> u32 \<Rightarrow> bool \<times> 'n app_data) \<Rightarrow> u32 \<Rightarrow> app_ar_iterator \<Rightarrow> 'n app_data
     \<Rightarrow> 'n app_data option" where
  "ar_event_loop handler event it app =
     do { (go_on, app) \<leftarrow> ar_event_step handler event it app;
          case go_on of None \<Rightarrow> Some app | Some it \<Rightarrow> ar_event_loop handler event it app }"

definition app_handle_event_ar ::
  "'n app_data \<Rightarrow> u32 \<Rightarrow> ('n app_data \<Rightarrow> u32 \<Rightarrow> bool \<times> 'n app_data) \<Rightarrow> 'n app_data option" where
  "app_handle_event_ar app event handler =
     ar_event_loop handler event app_ar_iterator_init
       (app\<lparr>main_events := main_events app AND NOT event\<rparr>)"

end
