(* ===== verification/SampleCalls.thy ===== *)
theory SampleCalls
  imports SampleApp
begin

text \<open>
  The callbacks of the Profinet application (\<open>src/src/profeth/src/sampleapp_common.c\<close>), in the
  order of the source, and the routines on process data they share with the main loop.  A
  callback that only logs leaves the state alone.
\<close>

section \<open>Process data\<close>

text \<open>All subslot positions, in the order of the two nested loops.\<close>

definition all_ptrs :: "pnet_consts \<Rightarrow> subslot_ptr list" where
  "all_ptrs k = List.product [0..<PNET_MAX_SLOTS k] [0..<PNET_MAX_SUBSLOTS k]"

text \<open>The data, size and status \<open>app_set_initial_data_and_ioxs\<close> sends for a subslot.\<close>

definition initial_data ::
  "'n pnet \<Rightarrow> app_subslot \<Rightarrow> 'n app_data \<Rightarrow> (u8 list option \<times> u16 \<times> u8) \<times> 'n app_data" where
  "initial_data pn ss app =
     (if slot_nbr ss \<noteq> PNET_SLOT_DAP_IDENT (pn_consts pn) \<and> 0 < insize (data_cfg ss) then
        (case app_data_get_input_data (pn_consts pn) (pn_nan pn) (mem app) (submodule_id ss)
                (button1_pressed app) of
           (None, m) \<Rightarrow> ((None, 0, PNET_IOXS_BAD (pn_consts pn)), app\<lparr>mem := m\<rparr>)
         | (Some (d, sz, iops), m) \<Rightarrow> ((Some d, sz, iops), app\<lparr>mem := m\<rparr>))
      else if slot_nbr ss = PNET_SLOT_DAP_IDENT (pn_consts pn)
      then ((None, 0, PNET_IOXS_GOOD (pn_consts pn)), app)
      else ((None, 0, PNET_IOXS_BAD (pn_consts pn)), app))"

text \<open>The body of the loops for one plugged subslot.\<close>

definition set_initial_subslot :: "'n pnet \<Rightarrow> subslot_ptr \<Rightarrow> 'n app_data \<Rightarrow> 'n app_data" where
  "set_initial_subslot pn p app =
     (let ss = deref (main_api app) p
      in if \<not> plugged ss then app
         else
           let app = (if 0 < insize (data_cfg ss) \<or> data_dir (data_cfg ss) = PNET_DIR_NO_IO then
                        (case initial_data pn ss app of
                           ((d, sz, iops), app) \<Rightarrow>
                             snd (pcall pn (Pnet_input_set_data_and_iops (api_id (main_api app))
                                    (slot_nbr ss) (subslot_nbr ss) d sz iops) app))
                      else app)
           in if 0 < outsize (data_cfg ss) then
                snd (pcall pn (Pnet_output_set_iocs (api_id (main_api app)) (slot_nbr ss)
                       (subslot_nbr ss) (PNET_IOXS_GOOD (pn_consts pn))) app)
              else app)"

definition app_set_initial_data_and_ioxs :: "'n pnet \<Rightarrow> 'n app_data \<Rightarrow> 'n app_data" where
  "app_set_initial_data_and_ioxs pn app = fold (set_initial_subslot pn) (all_ptrs (pn_consts pn)) app"

section \<open>Callbacks\<close>

definition app_connect_ind :: "u32 \<Rightarrow> 'n app_data \<Rightarrow> int \<times> 'n app_data" where
  "app_connect_ind arep app = (0, app)"

definition app_release_ind :: "u32 \<Rightarrow> 'n app_data \<Rightarrow> int \<times> 'n app_data" where
  "app_release_ind arep app = (0, app_set_outputs_default_value app)"

definition app_dcontrol_ind :: "u32 \<Rightarrow> 'n app_data \<Rightarrow> int \<times> 'n app_data" where
  "app_dcontrol_ind arep app = (0, app)"

definition app_sm_released_ind :: "u32 \<Rightarrow> 'n app_data \<Rightarrow> int \<times> 'n app_data" where
  "app_sm_released_ind arep app = (0, app_event_set app arep APP_EVENT_SM_RELEASED False)"

definition app_ccontrol_cnf :: "u32 \<Rightarrow> 'n app_data \<Rightarrow> int \<times> 'n app_data" where
  "app_ccontrol_cnf arep app = (0, app)"

definition write_error :: "pnet_errs \<Rightarrow> pnet_pnio_status" where
  "write_error e = \<lparr>error_code = PNET_ERROR_CODE_WRITE e, error_decode = PNET_ERROR_DECODE_PNIORW e,
     error_code_1 = PNET_ERROR_CODE_1_APP_WRITE_ERROR e, error_code_2 = 0\<rparr>"

definition read_error :: "pnet_errs \<Rightarrow> pnet_pnio_status" where
  "read_error e = \<lparr>error_code = PNET_ERROR_CODE_READ e, error_decode = PNET_ERROR_DECODE_PNIORW e,
     error_code_1 = PNET_ERROR_CODE_1_APP_READ_ERROR e, error_code_2 = 0\<rparr>"

text \<open>The status is the caller's \<open>p_result->pnio_status\<close>, changed only on an error.\<close>

definition app_write_ind ::
  "'n pnet \<Rightarrow> u16 \<Rightarrow> u16 \<Rightarrow> u16 \<Rightarrow> u16 \<Rightarrow> u8 list \<Rightarrow> pnet_pnio_status \<Rightarrow> 'n app_data
     \<Rightarrow> (int \<times> pnet_pnio_status) \<times> 'n app_data" where
  "app_write_ind pn slot subslot idx write_length data status app =
     (case app_utils_subslot_get (pn_consts pn) (main_api app) slot subslot of
        None \<Rightarrow> ((-1, write_error (pn_errs pn)), app)
      | Some p \<Rightarrow>
          (case app_data_write_parameter (pn_consts pn) (mem app)
                  (submodule_id (deref (main_api app) p)) (ucast idx) data write_length of
             (result, m) \<Rightarrow>
               ((result, if result \<noteq> 0 then write_error (pn_errs pn) else status), app\<lparr>mem := m\<rparr>)))"

definition app_read_ind ::
  "'n pnet \<Rightarrow> u16 \<Rightarrow> u16 \<Rightarrow> u16 \<Rightarrow> u8 list option \<times> u16 \<Rightarrow> pnet_pnio_status \<Rightarrow> 'n app_data
     \<Rightarrow> int \<times> (u8 list option \<times> u16) \<times> pnet_pnio_status" where
  "app_read_ind pn slot subslot idx buf status app =
     (case app_utils_subslot_get (pn_consts pn) (main_api app) slot subslot of
        None \<Rightarrow> (-1, buf, read_error (pn_errs pn))
      | Some p \<Rightarrow>
          (case app_data_read_parameter (pn_consts pn) (mem app)
                  (submodule_id (deref (main_api app) p)) (ucast idx) buf of
             (result, buf) \<Rightarrow>
               (result, buf, if result \<noteq> 0 then read_error (pn_errs pn) else status)))"

definition app_state_ind :: "'n pnet \<Rightarrow> u32 \<Rightarrow> pnet_event_values \<Rightarrow> 'n app_data \<Rightarrow> int \<times> 'n app_data" where
  "app_state_ind pn arep event app =
     (0, if event = PNET_EVENT_ABORT then
           app_event_set
             (app_set_outputs_default_value (snd (pcall pn (Pnet_get_ar_error_codes arep) app)))
             arep APP_EVENT_ABORT False
         else if event = PNET_EVENT_PRMEND then
           app_event_set
             (snd (pcall pn (Pnet_set_provider_state True) (app_set_initial_data_and_ioxs pn app)))
             arep APP_EVENT_READY_FOR_DATA True
         else app)"

definition app_reset_ind :: "'n app_data \<Rightarrow> int \<times> 'n app_data" where
  "app_reset_ind app = (0, app)"

definition app_signal_led_ind :: "bool \<Rightarrow> 'n app_data \<Rightarrow> int \<times> 'n app_data" where
  "app_signal_led_ind led_state app = (0, app_set_led APP_PROFINET_SIGNAL_LED_ID led_state app)"

definition app_exp_module_ind :: "'n pnet \<Rightarrow> u32 \<Rightarrow> u16 \<Rightarrow> u32 \<Rightarrow> 'n app_data \<Rightarrow> int \<times> 'n app_data" where
  "app_exp_module_ind pn api slot module_ident app =
     (if PNET_MAX_SLOTS (pn_consts pn) \<le> unat slot then (-1, app)
      else
        let name = (case app_gsdml_get_module_cfg (pn_consts pn) module_ident of
                      None \<Rightarrow> ''unknown'' | Some cfg \<Rightarrow> gm_name cfg)
        in case pcall pn (Pnet_pull_module api slot) app of
             (result, app) \<Rightarrow>
               let app = (if result = 0
                          then app\<lparr>main_api := snd (app_utils_pull_module (pn_consts pn) (main_api app) slot)\<rparr>
                          else app)
               in case pcall pn (Pnet_plug_module api slot module_ident) app of
                    (ret, app) \<Rightarrow>
                      (ret,
                       if ret = 0
                       then app\<lparr>main_api := snd (app_utils_plug_module (pn_consts pn) (main_api app)
                                                  slot module_ident (Some name))\<rparr>
                       else app))"

text \<open>What an expected submodule is plugged with: the configuration, the name, and whether the
  cyclic callback is set.\<close>

definition submodule_plan ::
  "pnet_consts \<Rightarrow> u32 \<Rightarrow> pnet_data_cfg \<Rightarrow> pnet_data_cfg \<times> string \<times> bool" where
  "submodule_plan k ident exp_data =
     (case app_gsdml_get_submodule_cfg k ident of
        Some cfg \<Rightarrow>
          (\<lparr>data_dir = gs_data_dir cfg, insize = gs_insize cfg, outsize = gs_outsize cfg\<rparr>,
           gs_name cfg, 0 < gs_insize cfg \<or> 0 < gs_outsize cfg)
      | None \<Rightarrow>
          (\<lparr>data_dir = data_dir exp_data, insize = insize exp_data, outsize = outsize exp_data\<rparr>,
           ''Unsupported'', False))"

definition app_exp_submodule_ind ::
  "'n pnet \<Rightarrow> u32 \<Rightarrow> u16 \<Rightarrow> u16 \<Rightarrow> u32 \<Rightarrow> u32 \<Rightarrow> pnet_data_cfg \<Rightarrow> 'n app_data \<Rightarrow> int \<times> 'n app_data" where
  "app_exp_submodule_ind pn api slot subslot module_ident submodule_ident exp_data app =
     (case submodule_plan (pn_consts pn) submodule_ident exp_data of
        (cfg, name, callback) \<Rightarrow>
          (case pcall pn (Pnet_pull_submodule api slot subslot) app of
             (result, app) \<Rightarrow>
               let app = (if result = 0
                          then app\<lparr>main_api := snd (app_utils_pull_submodule (pn_consts pn) (main_api app)
                                                     slot subslot)\<rparr>
                          else app)
               in case pcall pn (Pnet_plug_submodule api slot subslot module_ident submodule_ident
                          (data_dir cfg) (insize cfg) (outsize cfg)) app of
                    (ret, app) \<Rightarrow>
                      (ret,
                       if ret = 0
                       then app\<lparr>main_api := snd (app_utils_plug_submodule (pn_consts pn) (main_api app)
                              slot subslot submodule_ident (Some cfg) (Some name) callback True)\<rparr>
                       else app)))"

definition app_new_data_status_ind :: "'n pnet \<Rightarrow> u8 \<Rightarrow> 'n app_data \<Rightarrow> int \<times> 'n app_data" where
  "app_new_data_status_ind pn data_status app =
     (let is_running = bit data_status (PNET_DATA_STATUS_BIT_PROVIDER_STATE (pn_errs pn));
          is_valid = bit data_status (PNET_DATA_STATUS_BIT_DATA_VALID (pn_errs pn))
      in (0, if \<not> is_running \<or> \<not> is_valid then app_set_outputs_default_value app else app))"

definition app_alarm_ind :: "u32 \<Rightarrow> pnet_alarm_argument \<Rightarrow> 'n app_data \<Rightarrow> int \<times> 'n app_data" where
  "app_alarm_ind arep arg app = (0, app_event_set (app\<lparr>alarm_arg := arg\<rparr>) arep APP_EVENT_ALARM False)"

definition app_alarm_cnf :: "u32 \<Rightarrow> 'n app_data \<Rightarrow> int \<times> 'n app_data" where
  "app_alarm_cnf arep app = (0, app\<lparr>alarm_allowed := True\<rparr>)"

definition app_alarm_ack_cnf :: "u32 \<Rightarrow> 'n app_data \<Rightarrow> int \<times> 'n app_data" where
  "app_alarm_ack_cnf arep app = (0, app)"

section \<open>Plugging the device access point\<close>

definition plug_port :: "'n pnet \<Rightarrow> nat \<Rightarrow> 'n app_data \<Rightarrow> 'n app_data" where
  "plug_port pn i app =
     snd (app_exp_submodule_ind pn APP_GSDML_API (PNET_SLOT_DAP_IDENT (pn_consts pn))
            (0x8000 + of_nat i) (PNET_MOD_DAP_IDENT (pn_consts pn)) (0x8000 + of_nat i)
            \<lparr>data_dir = PNET_DIR_NO_IO, insize = 0, outsize = 0\<rparr> app)"

definition app_plug_dap :: "'n pnet \<Rightarrow> u16 \<Rightarrow> 'n app_data \<Rightarrow> 'n app_data" where
  "app_plug_dap pn number_of_ports app =
     (let k = pn_consts pn;
          cfg = \<lparr>data_dir = PNET_DIR_NO_IO, insize = 0, outsize = 0\<rparr>;
          app = snd (app_exp_module_ind pn APP_GSDML_API (PNET_SLOT_DAP_IDENT k) (PNET_MOD_DAP_IDENT k) app);
          app = snd (app_exp_submodule_ind pn APP_GSDML_API (PNET_SLOT_DAP_IDENT k)
                  (PNET_SUBSLOT_DAP_IDENT k) (PNET_MOD_DAP_IDENT k) (PNET_SUBMOD_DAP_IDENT k) cfg app);
          app = snd (app_exp_submodule_ind pn APP_GSDML_API (PNET_SLOT_DAP_IDENT k)
                  (PNET_SUBSLOT_DAP_INTERFACE_1_IDENT k) (PNET_MOD_DAP_IDENT k)
                  (PNET_SUBMOD_DAP_INTERFACE_1_IDENT k) cfg app)
      in fold (plug_port pn) [1..<Suc (unat number_of_ports)] app)"

section \<open>Cyclic data\<close>

text \<open>The output half of \<open>app_cyclic_data_callback\<close>; the buffer has 20 bytes.\<close>

definition cyclic_output :: "'n pnet \<Rightarrow> subslot_ptr \<Rightarrow> 'n app_data \<Rightarrow> 'n app_data option" where
  "cyclic_output pn p app =
     (let ss = deref (main_api app) p
      in if slot_nbr ss \<noteq> PNET_SLOT_DAP_IDENT (pn_consts pn) \<and> 0 < outsize (data_cfg ss) then
           if 20 \<le> outsize (data_cfg ss) then None
           else
             (case pn_output_get pn APP_GSDML_API (slot_nbr ss) (subslot_nbr ss)
                     (outsize (data_cfg ss)) (net app) of
                ((buf, len, iops), n) \<Rightarrow>
                  let app = app\<lparr>net := n, main_api := assign (main_api app) p (ss\<lparr>outdata_iops := iops\<rparr>)\<rparr>
                  in Some (if len \<noteq> outsize (data_cfg ss) then app_set_outputs_default_value app
                           else if iops = PNET_IOXS_GOOD (pn_consts pn) then
                             app\<lparr>mem := snd (app_data_set_output_data (mem app) (submodule_id ss)
                                               (Some buf) len)\<rparr>
                           else app_set_outputs_default_value app))
         else Some app)"

definition cyclic_input :: "'n pnet \<Rightarrow> subslot_ptr \<Rightarrow> 'n app_data \<Rightarrow> 'n app_data" where
  "cyclic_input pn p app =
     (let ss = deref (main_api app) p
      in if slot_nbr ss \<noteq> PNET_SLOT_DAP_IDENT (pn_consts pn) \<and> 0 < insize (data_cfg ss) then
           (case app_data_get_input_data (pn_consts pn) (pn_nan pn) (mem app) (submodule_id ss)
                   (button1_pressed app) of
              (r, m) \<Rightarrow>
                let (d, sz, iops) = (case r of
                        None \<Rightarrow> (None, 0, PNET_IOXS_BAD (pn_consts pn))
                      | Some (d, sz, iops) \<Rightarrow> (Some d, sz, iops));
                    app = snd (pcall pn (Pnet_input_set_data_and_iops APP_GSDML_API (slot_nbr ss)
                                (subslot_nbr ss) d sz iops) (app\<lparr>mem := m\<rparr>))
                in case pn_input_get_iocs pn APP_GSDML_API (slot_nbr ss) (subslot_nbr ss)
                          (PNET_IOXS_BAD (pn_consts pn)) (net app) of
                     (iocs, n) \<Rightarrow>
                       app\<lparr>net := n, main_api := assign (main_api app) p (ss\<lparr>indata_iocs := iocs\<rparr>)\<rparr>)
         else app)"

definition app_cyclic_data_callback :: "'n pnet \<Rightarrow> subslot_ptr \<Rightarrow> 'n app_data \<Rightarrow> 'n app_data option" where
  "app_cyclic_data_callback pn p app =
     (if \<not> tag (deref (main_api app) p) then Some app
      else do { app \<leftarrow> cyclic_output pn p app; Some (cyclic_input pn p app) })"

fun cyclic_poll :: "'n pnet \<Rightarrow> subslot_ptr list \<Rightarrow> 'n app_data \<Rightarrow> 'n app_data option" where
  "cyclic_poll pn [] app = Some app"
| "cyclic_poll pn (p # ps) app =
     (if plugged (deref (main_api app) p) \<and> cyclic_callback (deref (main_api app) p)
      then do { app \<leftarrow> app_cyclic_data_callback pn p app; cyclic_poll pn ps app }
      else cyclic_poll pn ps app)"

definition app_utils_cyclic_data_poll :: "'n pnet \<Rightarrow> 'n app_data \<Rightarrow> 'n app_data option" where
  "app_utils_cyclic_data_poll pn app = cyclic_poll pn (all_ptrs (pn_consts pn)) app"

definition app_handle_cyclic_data :: "'n pnet \<Rightarrow> 'n app_data \<Rightarrow> 'n app_data option" where
  "app_handle_cyclic_data pn app =
     (let app = app\<lparr>process_data_tick_counter := process_data_tick_counter app + 1\<rparr>
      in if process_data_tick_counter app < APP_TICKS_UPDATE_DATA then Some app
         else app_utils_cyclic_data_poll pn (app\<lparr>process_data_tick_counter := 0\<rparr>))"

end
