(* ===== verification/SampleLoop.thy ===== *)
theory SampleLoop
  imports SampleCalls
begin

text \<open>
  The main loop of the Profinet application (\<open>src/src/profeth/src/sampleapp_common.c\<close>): the
  demonstration of the stack's interface behind the second button, the handlers of the events,
  one round of the loop, and the application as a whole as a step relation in which rounds of the
  loop, timer ticks and callbacks of the stack follow each other in any order.
\<close>

section \<open>The demonstration\<close>

definition is_digital_input :: "app_subslot \<Rightarrow> bool" where
  "is_digital_input ss =
     (app_utils_subslot_is_input (Some ss)
      \<and> (submodule_id ss = APP_GSDML_SUBMOD_ID_DIGITAL_IN
         \<or> submodule_id ss = APP_GSDML_SUBMOD_ID_DIGITAL_IN_OUT))"

definition find_input_subslot :: "pnet_consts \<Rightarrow> app_api \<Rightarrow> subslot_ptr option" where
  "find_input_subslot k api = List.find (\<lambda>p. is_digital_input (deref api p)) (all_ptrs k)"

fun next_demo_state :: "app_demo_state \<Rightarrow> app_demo_state" where
  "next_demo_state APP_DEMO_STATE_ALARM_SEND = APP_DEMO_STATE_CYCLIC_REDUNDANT"
| "next_demo_state APP_DEMO_STATE_CYCLIC_REDUNDANT = APP_DEMO_STATE_CYCLIC_NORMAL"
| "next_demo_state APP_DEMO_STATE_CYCLIC_NORMAL = APP_DEMO_STATE_DIAG_STD_ADD"
| "next_demo_state APP_DEMO_STATE_DIAG_STD_ADD = APP_DEMO_STATE_DIAG_STD_UPDATE"
| "next_demo_state APP_DEMO_STATE_DIAG_STD_UPDATE = APP_DEMO_STATE_DIAG_USI_ADD"
| "next_demo_state APP_DEMO_STATE_DIAG_USI_ADD = APP_DEMO_STATE_DIAG_USI_UPDATE"
| "next_demo_state APP_DEMO_STATE_DIAG_USI_UPDATE = APP_DEMO_STATE_DIAG_USI_REMOVE"
| "next_demo_state APP_DEMO_STATE_DIAG_USI_REMOVE = APP_DEMO_STATE_DIAG_STD_REMOVE"
| "next_demo_state APP_DEMO_STATE_DIAG_STD_REMOVE = APP_DEMO_STATE_LOGBOOK_ENTRY"
| "next_demo_state APP_DEMO_STATE_LOGBOOK_ENTRY = APP_DEMO_STATE_ABORT_AR"
| "next_demo_state APP_DEMO_STATE_ABORT_AR = APP_DEMO_STATE_ALARM_SEND"

definition APP_ALARM_USI :: u16 where "APP_ALARM_USI = 0x0010"
definition APP_DIAG_CHANNEL_NUMBER :: u16 where "APP_DIAG_CHANNEL_NUMBER = 4"
definition APP_DIAG_CHANNEL_ERRORTYPE :: u16 where "APP_DIAG_CHANNEL_ERRORTYPE = 0x0001"
definition APP_DIAG_CHANNEL_EXTENDED_ERRORTYPE :: u16 where "APP_DIAG_CHANNEL_EXTENDED_ERRORTYPE = 0"
definition APP_DIAG_CHANNEL_ADDVALUE_A :: u32 where "APP_DIAG_CHANNEL_ADDVALUE_A = 0"
definition APP_DIAG_CHANNEL_ADDVALUE_B :: u32 where "APP_DIAG_CHANNEL_ADDVALUE_B = 1234"
definition APP_DIAG_CHANNEL_QUAL_SEVERITY :: u32 where "APP_DIAG_CHANNEL_QUAL_SEVERITY = 0"
definition APP_GSDML_DIAG_CUSTOM_USI :: u16 where "APP_GSDML_DIAG_CUSTOM_USI = 0x1234"
definition APP_GSDML_LOGBOOK_ENTRY_DETAIL :: u32 where "APP_GSDML_LOGBOOK_ENTRY_DETAIL = 0xFEE1DEAD"

definition logbook_status :: "pnet_errs \<Rightarrow> pnet_pnio_status" where
  "logbook_status e = \<lparr>error_code = 0x20, error_decode = 0x82,
     error_code_1 = PNET_ERROR_CODE_1_FSPM e, error_code_2 = 0x00\<rparr>"

text \<open>The action of a state, for the digital input found at \<open>slot\<close> and \<open>subslot\<close>.\<close>

definition demo_action ::
  "'n pnet \<Rightarrow> u16 \<Rightarrow> u16 \<Rightarrow> app_demo_state \<Rightarrow> 'n app_data \<Rightarrow> 'n app_data" where
  "demo_action pn slot subslot st app =
     (let src = \<lparr>diag_api = APP_GSDML_API, diag_slot = slot, diag_subslot = subslot,
                 diag_ch = APP_DIAG_CHANNEL_NUMBER,
                 diag_ch_grouping = PNET_DIAG_CH_INDIVIDUAL_CHANNEL,
                 diag_ch_direction = PNET_DIAG_CH_PROP_DIR_INPUT\<rparr>;
          arep = ar_arep (ars_of app ! 0)
      in case st of
           APP_DEMO_STATE_ALARM_SEND \<Rightarrow>
             if alarm_allowed app \<and> app_is_connected_to_controller app then
               (let app = app\<lparr>alarm_payload := (alarm_payload app)[0 := alarm_payload app ! 0 + 1]\<rparr>;
                    app = snd (pcall pn (Pnet_alarm_send_process_alarm arep APP_GSDML_API slot subslot
                                APP_ALARM_USI APP_GSDML_ALARM_PAYLOAD_SIZE (alarm_payload app)) app)
                in app\<lparr>alarm_allowed := False\<rparr>)
             else app
         | APP_DEMO_STATE_CYCLIC_REDUNDANT \<Rightarrow>
             snd (pcall pn (Pnet_set_redundancy_state True)
               (snd (pcall pn (Pnet_set_primary_state False) app)))
         | APP_DEMO_STATE_CYCLIC_NORMAL \<Rightarrow>
             snd (pcall pn (Pnet_set_redundancy_state False)
               (snd (pcall pn (Pnet_set_primary_state True) app)))
         | APP_DEMO_STATE_DIAG_STD_ADD \<Rightarrow>
             snd (pcall pn (Pnet_diag_std_add src PNET_DIAG_CH_PROP_TYPE_1_BIT
               PNET_DIAG_CH_PROP_MAINT_FAULT APP_DIAG_CHANNEL_ERRORTYPE
               APP_DIAG_CHANNEL_EXTENDED_ERRORTYPE APP_DIAG_CHANNEL_ADDVALUE_A
               APP_DIAG_CHANNEL_QUAL_SEVERITY) app)
         | APP_DEMO_STATE_DIAG_STD_UPDATE \<Rightarrow>
             snd (pcall pn (Pnet_diag_std_update src APP_DIAG_CHANNEL_ERRORTYPE
               APP_DIAG_CHANNEL_EXTENDED_ERRORTYPE APP_DIAG_CHANNEL_ADDVALUE_B) app)
         | APP_DEMO_STATE_DIAG_STD_REMOVE \<Rightarrow>
             snd (pcall pn (Pnet_diag_std_remove src APP_DIAG_CHANNEL_ERRORTYPE
               APP_DIAG_CHANNEL_EXTENDED_ERRORTYPE) app)
         | APP_DEMO_STATE_DIAG_USI_ADD \<Rightarrow>
             snd (pcall pn (Pnet_diag_usi_add APP_GSDML_API slot subslot APP_GSDML_DIAG_CUSTOM_USI
               11 ''diagdata_1'') app)
         | APP_DEMO_STATE_DIAG_USI_UPDATE \<Rightarrow>
             snd (pcall pn (Pnet_diag_usi_update APP_GSDML_API slot subslot APP_GSDML_DIAG_CUSTOM_USI
               13 ''diagdata_123'') app)
         | APP_DEMO_STATE_DIAG_USI_REMOVE \<Rightarrow>
             snd (pcall pn (Pnet_diag_usi_remove APP_GSDML_API slot subslot APP_GSDML_DIAG_CUSTOM_USI) app)
         | APP_DEMO_STATE_LOGBOOK_ENTRY \<Rightarrow>
             if app_is_connected_to_controller app
             then snd (pcall pn (Pnet_create_log_book_entry arep (logbook_status (pn_errs pn))
                    APP_GSDML_LOGBOOK_ENTRY_DETAIL) app)
             else app
         | APP_DEMO_STATE_ABORT_AR \<Rightarrow>
             if app_is_connected_to_controller app then snd (pcall pn (Pnet_ar_abort arep) app) else app)"

definition app_handle_demo_pnet_api :: "'n pnet \<Rightarrow> 'n app_data \<Rightarrow> 'n app_data" where
  "app_handle_demo_pnet_api pn app =
     (case find_input_subslot (pn_consts pn) (main_api app) of
        None \<Rightarrow> app
      | Some p \<Rightarrow>
          let app = demo_action pn (of_nat (fst p)) (subslot_nbr (deref (main_api app) p))
                      (alarm_demo_state app) app
          in app\<lparr>alarm_demo_state := next_demo_state (alarm_demo_state app)\<rparr>)"

section \<open>Handlers of the main loop\<close>

text \<open>The buttons are what \<open>app_get_button\<close> reads for the numbers 0 and 1.\<close>

definition update_button_states :: "bool \<times> bool \<Rightarrow> 'n app_data \<Rightarrow> 'n app_data" where
  "update_button_states buttons app =
     (let app = app\<lparr>buttons_tick_counter := buttons_tick_counter app + 1\<rparr>
      in if APP_TICKS_READ_BUTTONS < buttons_tick_counter app
         then app\<lparr>button1_pressed := fst buttons, button2_pressed := snd buttons,
                buttons_tick_counter := 0\<rparr>
         else app)"

definition app_handle_event_timer :: "'n pnet \<Rightarrow> bool \<times> bool \<Rightarrow> 'n app_data \<Rightarrow> 'n app_data option" where
  "app_handle_event_timer pn buttons app =
     (let app = app\<lparr>main_events := main_events app AND NOT APP_EVENT_TIMER\<rparr>;
          app = update_button_states buttons app
      in do { app \<leftarrow> (if app_is_connected_to_controller app then app_handle_cyclic_data pn app
                       else Some app);
              let app = (if button2_pressed app \<and> \<not> button2_pressed_previous app
                         then app_handle_demo_pnet_api pn app else app);
              let app = app\<lparr>button2_pressed_previous := button2_pressed app\<rparr>;
              Some (snd (pcall pn Pnet_handle_periodic app)) })"

text \<open>Handlers return whether the AR is to be removed.\<close>

definition app_ar_ready_for_data_handler :: "'n pnet \<Rightarrow> 'n app_data \<Rightarrow> u32 \<Rightarrow> bool \<times> 'n app_data" where
  "app_ar_ready_for_data_handler pn app arep = (False, snd (pcall pn (Pnet_application_ready arep) app))"

definition app_ar_alarm_handler :: "'n pnet \<Rightarrow> 'n app_data \<Rightarrow> u32 \<Rightarrow> bool \<times> 'n app_data" where
  "app_ar_alarm_handler pn app arep =
     (False, snd (pcall pn (Pnet_alarm_send_ack arep (alarm_arg app)
        \<lparr>error_code = 0, error_decode = 0, error_code_1 = 0, error_code_2 = 0\<rparr>) app))"

definition app_ar_sm_released_handler :: "'n pnet \<Rightarrow> 'n app_data \<Rightarrow> u32 \<Rightarrow> bool \<times> 'n app_data" where
  "app_ar_sm_released_handler pn app arep =
     (False, snd (pcall pn (Pnet_sm_released_cnf arep) (app_set_initial_data_and_ioxs pn app)))"

definition app_ar_abort_handler :: "'n pnet \<Rightarrow> 'n app_data \<Rightarrow> u32 \<Rightarrow> bool \<times> 'n app_data" where
  "app_ar_abort_handler pn app arep = (True, app)"

section \<open>The main loop\<close>

definition loop_mask :: u32 where
  "loop_mask = APP_EVENT_READY_FOR_DATA OR APP_EVENT_TIMER OR APP_EVENT_ALARM OR
     APP_EVENT_SM_RELEASED OR APP_EVENT_ABORT"

definition app_event_wait :: "'n app_data \<Rightarrow> u32 \<Rightarrow> u32" where
  "app_event_wait app events = main_events app AND events"

definition when_flag :: "u32 \<Rightarrow> u32 \<Rightarrow> ('s \<Rightarrow> 's option) \<Rightarrow> 's \<Rightarrow> 's option" where
  "when_flag flags event f s = (if flags AND event \<noteq> 0 then f s else Some s)"

text \<open>What \<open>app_loop_forever\<close> does before its loop, and one round of the loop.\<close>

definition app_loop_start :: "'n pnet \<Rightarrow> 'n app_data \<Rightarrow> 'n app_data" where
  "app_loop_start pn app =
     app_plug_dap pn (num_physical_ports app) (app_set_led APP_DATA_LED_ID False app)"

definition app_loop_round :: "'n pnet \<Rightarrow> bool \<times> bool \<Rightarrow> 'n app_data \<Rightarrow> 'n app_data option" where
  "app_loop_round pn buttons app =
     (let flags = app_event_wait app loop_mask
      in do { app \<leftarrow> when_flag flags APP_EVENT_READY_FOR_DATA
                       (\<lambda>app. app_handle_event_ar app APP_EVENT_READY_FOR_DATA
                                (app_ar_ready_for_data_handler pn)) app;
              app \<leftarrow> when_flag flags APP_EVENT_ALARM
                       (\<lambda>app. app_handle_event_ar app APP_EVENT_ALARM (app_ar_alarm_handler pn)) app;
              app \<leftarrow> when_flag flags APP_EVENT_TIMER (app_handle_event_timer pn buttons) app;
              app \<leftarrow> when_flag flags APP_EVENT_SM_RELEASED
                       (\<lambda>app. app_handle_event_ar app APP_EVENT_SM_RELEASED
                                (app_ar_sm_released_handler pn)) app;
              when_flag flags APP_EVENT_ABORT
                (\<lambda>app. map_option (\<lambda>app. app\<lparr>alarm_allowed := True\<rparr>)
                         (app_handle_event_ar app APP_EVENT_ABORT (app_ar_abort_handler pn))) app })"

section \<open>The application as a whole\<close>

text \<open>The data of a write request has at least the length it announces.\<close>

inductive app_step :: "'n pnet \<Rightarrow> 'n app_data \<Rightarrow> 'n app_data \<Rightarrow> bool" for pn where
  tick: "app_step pn app (main_timer_tick app)"
| loop_round: "app_loop_round pn buttons app = Some app' \<Longrightarrow> app_step pn app app'"
| release: "app_step pn app (snd (app_release_ind arep app))"
| sm_released: "app_step pn app (snd (app_sm_released_ind arep app))"
| state: "app_step pn app (snd (app_state_ind pn arep event app))"
| exp_module: "app_step pn app (snd (app_exp_module_ind pn api slot ident app))"
| exp_submodule: "app_step pn app (snd (app_exp_submodule_ind pn api slot subslot mident ident cfg app))"
| new_data_status: "app_step pn app (snd (app_new_data_status_ind pn data_status app))"
| alarm: "app_step pn app (snd (app_alarm_ind arep arg app))"
| alarm_cnf: "app_step pn app (snd (app_alarm_cnf arep app))"
| signal_led: "app_step pn app (snd (app_signal_led_ind led_state app))"
| record_write: "unat len \<le> length data \<Longrightarrow>
    app_step pn app (snd (app_write_ind pn slot subslot idx len data status app))"

inductive app_reach :: "bool \<Rightarrow> 'n pnet \<Rightarrow> u16 \<Rightarrow> 'n app_data \<Rightarrow> bool" for le pn ports where
  start: "\<lbrakk>app_init le pn ports = Some app; app_start True True (Some app) = (0, Some app')\<rbrakk> \<Longrightarrow>
    app_reach le pn ports (app_loop_start pn app')"
| step: "\<lbrakk>app_reach le pn ports app; app_step pn app app'\<rbrakk> \<Longrightarrow> app_reach le pn ports app'"

end
