(* ===== verification/SampleEvents.thy ===== *)
theory SampleEvents
  imports SampleLoop
begin

text \<open>
  How the Profinet application serves the events of its ARs.  The locale \<open>ar_handler\<close> is the
  contract \<open>app_handle_event_ar\<close> needs of a handler, that it neither reads nor changes the AR
  table; under it the loop with its iterator, its deletions and its deferred compaction computes
  \<open>serve\<close>, one pass over the live ARs.  The four handlers of the main loop are instances.
  Further lemmas say what \<open>app_event_set\<close> does to the table.
\<close>

lemma set_ars_simps [simp]:
  "set_ars (set_ars app a) b = set_ars app b"
  "ars_of (set_ars app a) = a"
  "set_ars app (ars_of app) = app"
  "main_events (set_ars app a) = main_events app"
  "mem (set_ars app a) = mem app"
  "trace (set_ars app a) = trace app"
  "net (set_ars app a) = net app"
  "alarm_arg (set_ars app a) = alarm_arg app"
  "api_id (main_api (set_ars app a)) = api_id (main_api app)"
  "slots (main_api (set_ars app a)) = slots (main_api app)"
  "button1_pressed (set_ars app a) = button1_pressed app"
  by (simp_all add: set_ars_def ars_of_def)

section \<open>The contract of a handler\<close>

text \<open>One pass over the live ARs: a pending event is cleared and handed to the handler, and the AR
  is dropped if the handler says so.\<close>

fun serve ::
  "('n app_data \<Rightarrow> u32 \<Rightarrow> bool \<times> 'n app_data) \<Rightarrow> u32 \<Rightarrow> app_ar list \<Rightarrow> 'n app_data \<Rightarrow> app_ar list \<times> 'n app_data" where
  "serve h event [] app = ([], app)"
| "serve h event (a # as) app =
     (if ar_events a AND event = 0 then apfst (Cons a) (serve h event as app)
      else
        apfst (if fst (h app (ar_arep a)) then id else Cons (a\<lparr>ar_events := ar_events a AND NOT event\<rparr>))
          (serve h event as (snd (h app (ar_arep a)))))"

locale ar_handler =
  fixes h :: "'n app_data \<Rightarrow> u32 \<Rightarrow> bool \<times> 'n app_data"
  assumes frame: "h (set_ars app ars) arep = (fst (h app arep), set_ars (snd (h app arep)) ars)"
begin

lemma keeps_ars [simp]: "ars_of (snd (h app arep)) = ars_of app"
  using frame [of app "ars_of app" arep] by (metis prod.sel(2) set_ars_simps(2,3))

definition hits :: "int \<Rightarrow> bool \<Rightarrow> app_ar_iterator \<Rightarrow> bool" where
  "hits n m it = (it_index it = n - 1 \<and> (it_modified it \<or> m))"

text \<open>The end of the loop: the iterator stands behind the last used entry.\<close>

lemma loop_end:
  assumes it: "hits (int (length dn)) (list_all ar_used dn) it"
    and fs: "list_all (\<lambda>a. \<not> ar_used a) fs"
  shows "\<exists>T. ar_event_loop h event it (set_ars app (dn @ fs)) = Some (set_ars app T)
    \<and> ar_terminated T \<and> ar_live T = ar_live dn \<and> length T = length (dn @ fs)"
proof -
  let ?T = "if 1 < length (dn @ fs) \<and> it_modified it then ar_compact (dn @ fs) 0 else dn @ fs"
  have n: "app_ar_iterator_next it (dn @ fs) = (None, it\<lparr>it_index := int (length dn)\<rparr>, ?T)"
    using it fs by (cases fs) (auto simp: app_ar_iterator_next_def Let_def hits_def ar_used_def nth_append)
  have "ar_event_loop h event it (set_ars app (dn @ fs)) = Some (set_ars app ?T)"
    by (subst ar_event_loop.simps) (simp add: ar_event_step_def n)
  moreover have "ar_terminated (dn @ fs)"
    if "\<not> (1 < length (dn @ fs) \<and> it_modified it)"
  proof (cases "list_all ar_used dn")
    case True
    then show ?thesis using fs by (intro ar_terminatedI [of _ dn fs]) simp_all
  next
    case False
    with it that have "length (dn @ fs) \<le> 1" by (simp add: hits_def)
    with False have "fs = []" "list_all (\<lambda>a. \<not> ar_used a) dn"
      by (cases dn; auto)+
    then show ?thesis by (intro ar_terminatedI [of _ "[]" dn]) simp_all
  qed
  ultimately show ?thesis using ar_compact_live [of "dn @ fs"] fs by fastforce
qed

text \<open>The loop from an entry on: what is behind the iterator, what is ahead, and the free rest.\<close>

lemma loop_serves:
  assumes "hits (int (length dn)) (list_all ar_used dn) it"
    and "list_all ar_used todo" "list_all (\<lambda>a. \<not> ar_used a) fs"
  shows "\<exists>T. ar_event_loop h event it (set_ars app (dn @ todo @ fs)) =
        Some (set_ars (snd (serve h event todo app)) T)
    \<and> ar_terminated T \<and> ar_live T = ar_live dn @ fst (serve h event todo app)
    \<and> length T = length (dn @ todo @ fs)"
  using assms
proof (induction todo arbitrary: dn it app)
  case Nil
  then show ?case using loop_end [of dn it fs event app] by simp
next
  case (Cons a todo)
  let ?i = "length dn" and ?it = "it\<lparr>it_index := int (length dn)\<rparr>"
  have n: "app_ar_iterator_next it (dn @ (a # todo) @ fs) = (Some ?i, ?it, dn @ (a # todo) @ fs)"
    using Cons.prems by (simp add: app_ar_iterator_next_def Let_def hits_def ar_used_def)
  have used: "ar_used a" and todo: "list_all ar_used todo" using Cons.prems(2) by simp_all
  show ?case
  proof (cases "ar_events a AND event = 0")
    case True
    have "ar_event_loop h event it (set_ars app (dn @ (a # todo) @ fs)) =
        ar_event_loop h event ?it (set_ars app ((dn @ [a]) @ todo @ fs))"
      by (subst ar_event_loop.simps) (simp add: ar_event_step_def n [simplified] app_ar_event_clr_def True)
    moreover have "hits (int (length (dn @ [a]))) (list_all ar_used (dn @ [a])) ?it"
      using Cons.prems(1) used by (simp add: hits_def)
    ultimately show ?thesis
      using Cons.IH [of "dn @ [a]" ?it app, OF _ todo Cons.prems(3)] used True
      by (simp add: ar_live_Cons)
  next
    case False
    define b where "b = a\<lparr>ar_events := ar_events a AND NOT event\<rparr>"
    define app' where "app' = snd (h app (ar_arep a))"
    have clr: "app_ar_event_clr (dn @ (a # todo) @ fs) ?i event = (True, (dn @ [b]) @ todo @ fs)"
      using False by (simp add: app_ar_event_clr_def b_def)
    have hb: "h (set_ars app ((dn @ [b]) @ todo @ fs)) (ar_arep a)
        = (fst (h app (ar_arep a)), set_ars app' ((dn @ [b]) @ todo @ fs))"
      by (simp add: frame app'_def)
    have ab: "app_ar_arep ((dn @ [b]) @ todo @ fs) ?i = ar_arep a"
      by (simp add: app_ar_arep_def b_def)
    have bu: "ar_used b" using used by (simp add: b_def)
    show ?thesis
    proof (cases "fst (h app (ar_arep a))")
      case del: True
      let ?f = "b\<lparr>ar_arep := UINT32_MAX\<rparr>" and ?m = "?it\<lparr>it_modified := True\<rparr>"
      have "app_ar_iterator_delete_current ?it ((dn @ [b]) @ todo @ fs) = Some (?m, (dn @ [?f]) @ todo @ fs)"
        by (simp add: app_ar_iterator_delete_current_def Let_def)
      then have "ar_event_loop h event it (set_ars app (dn @ (a # todo) @ fs)) =
          ar_event_loop h event ?m (set_ars app' ((dn @ [?f]) @ todo @ fs))"
        by (subst ar_event_loop.simps)
          (simp add: ar_event_step_def n [simplified] clr [simplified] hb [simplified] ab [simplified] del)
      moreover have "hits (int (length (dn @ [?f]))) (list_all ar_used (dn @ [?f])) ?m"
        using Cons.prems(1) by (simp add: hits_def)
      ultimately show ?thesis
        using Cons.IH [of "dn @ [?f]" ?m app', OF _ todo Cons.prems(3)] False del
        by (simp add: ar_live_Cons app'_def)
    next
      case keep: False
      have "ar_event_loop h event it (set_ars app (dn @ (a # todo) @ fs)) =
          ar_event_loop h event ?it (set_ars app' ((dn @ [b]) @ todo @ fs))"
        by (subst ar_event_loop.simps)
          (simp add: ar_event_step_def n [simplified] clr [simplified] hb [simplified] ab [simplified] keep)
      moreover have "hits (int (length (dn @ [b]))) (list_all ar_used (dn @ [b])) ?it"
        using Cons.prems(1) bu by (simp add: hits_def)
      ultimately show ?thesis
        using Cons.IH [of "dn @ [b]" ?it app', OF _ todo Cons.prems(3)] False keep bu
        by (simp add: ar_live_Cons app'_def b_def)
    qed
  qed
qed

lemma handle_event_ar:
  assumes "ar_terminated (ars_of app)"
  shows "\<exists>T. app_handle_event_ar app event h =
        Some (set_ars (snd (serve h event (ar_live (ars_of app))
                (app\<lparr>main_events := main_events app AND NOT event\<rparr>))) T)
    \<and> ar_terminated T
    \<and> ar_live T = fst (serve h event (ar_live (ars_of app))
                        (app\<lparr>main_events := main_events app AND NOT event\<rparr>))
    \<and> length T = length (ars_of app)"
proof -
  let ?app = "app\<lparr>main_events := main_events app AND NOT event\<rparr>"
  obtain fs where fs: "ars_of app = ar_live (ars_of app) @ fs" "list_all (\<lambda>a. \<not> ar_used a) fs"
    using ar_terminated_live [OF assms] by blast
  have "hits 0 True app_ar_iterator_init" by (simp add: hits_def app_ar_iterator_init_def)
  moreover have "list_all ar_used (ar_live (ars_of app))" by (simp add: ar_live_def list_all_iff)
  moreover have "set_ars ?app (ar_live (ars_of app) @ fs) = ?app"
    unfolding fs(1) [symmetric] by (simp add: set_ars_def ars_of_def)
  ultimately show ?thesis
    using loop_serves [of "[]" app_ar_iterator_init "ar_live (ars_of app)" fs event ?app] fs
    unfolding app_handle_event_ar_def by (simp add: ar_live_def [of "[]"])
qed

end

lemma pcall_set_ars: "pcall pn c (set_ars app ars) = (fst (pcall pn c app), set_ars (snd (pcall pn c app)) ars)"
  by (simp add: pcall_def set_ars_def split: prod.splits)

lemma set_ars_mem: "(set_ars app ars)\<lparr>mem := m\<rparr> = set_ars (app\<lparr>mem := m\<rparr>) ars"
  by (simp add: set_ars_def)

lemma set_initial_subslot_set_ars:
  "set_initial_subslot pn p (set_ars app ars) = set_ars (set_initial_subslot pn p app) ars"
  by (simp add: set_initial_subslot_def initial_data_def deref_def get_slot_def pcall_set_ars set_ars_mem
      Let_def split: prod.splits option.splits)

lemma set_initial_set_ars:
  "app_set_initial_data_and_ioxs pn (set_ars app ars) = set_ars (app_set_initial_data_and_ioxs pn app) ars"
proof -
  have "fold (set_initial_subslot pn) ps (set_ars app ars) = set_ars (fold (set_initial_subslot pn) ps app) ars"
    for ps
    by (induction ps arbitrary: app) (simp_all add: set_initial_subslot_set_ars)
  then show ?thesis by (simp add: app_set_initial_data_and_ioxs_def)
qed

interpretation ready: ar_handler "app_ar_ready_for_data_handler pn"
  by unfold_locales (simp add: app_ar_ready_for_data_handler_def pcall_set_ars)

interpretation alarm: ar_handler "app_ar_alarm_handler pn"
  by unfold_locales (simp add: app_ar_alarm_handler_def pcall_set_ars)

interpretation released: ar_handler "app_ar_sm_released_handler pn"
  by unfold_locales (simp add: app_ar_sm_released_handler_def pcall_set_ars set_initial_set_ars)

interpretation abort: ar_handler "app_ar_abort_handler pn"
  by unfold_locales (simp add: app_ar_abort_handler_def)

section \<open>Setting an event\<close>

lemma ar_search_from:
  assumes "it_index it = int (length dn) - 1" "\<not> it_modified it"
    and "list_all ar_used todo" "list_all (\<lambda>a. \<not> ar_used a) fs"
  shows "case ar_search it (dn @ todo @ fs) arep of
      (found, it', ars') \<Rightarrow> ars' = dn @ todo @ fs \<and> 0 \<le> it_index it'
        \<and> (case found of
             Some i \<Rightarrow> \<exists>xs a ys. todo = xs @ a # ys \<and> i = length dn + length xs \<and> ar_arep a = arep
                         \<and> arep \<notin> ar_arep ` set xs \<and> \<not> app_ar_iterator_done it' ars'
           | None \<Rightarrow> arep \<notin> ar_arep ` set todo \<and> app_ar_iterator_done it' ars')"
  using assms
proof (induction todo arbitrary: dn it)
  case Nil
  have n: "app_ar_iterator_next it (dn @ fs) = (None, it\<lparr>it_index := int (length dn)\<rparr>, dn @ fs)"
    using Nil.prems
    by (cases fs) (auto simp: app_ar_iterator_next_def Let_def ar_used_def nth_append)
  have "app_ar_iterator_done (it\<lparr>it_index := int (length dn)\<rparr>) (dn @ fs)"
    using Nil.prems(4) by (cases fs) (auto simp: app_ar_iterator_done_def ar_used_def nth_append)
  then show ?case by (subst ar_search.simps) (simp add: n)
next
  case (Cons a todo)
  let ?it = "it\<lparr>it_index := int (length dn)\<rparr>"
  have n: "app_ar_iterator_next it (dn @ (a # todo) @ fs) = (Some (length dn), ?it, dn @ (a # todo) @ fs)"
    using Cons.prems by (simp add: app_ar_iterator_next_def Let_def ar_used_def)
  show ?case
  proof (cases "ar_arep a = arep")
    case True
    have "\<not> app_ar_iterator_done ?it (dn @ (a # todo) @ fs)"
      using Cons.prems by (simp add: app_ar_iterator_done_def ar_used_def)
    then show ?thesis
      using True by (subst ar_search.simps) (fastforce simp: n [simplified] app_ar_arep_def)
  next
    case False
    have "ar_search it (dn @ (a # todo) @ fs) arep = ar_search ?it ((dn @ [a]) @ todo @ fs) arep"
      using False by (subst ar_search.simps) (simp add: n [simplified] app_ar_arep_def)
    moreover have "\<exists>xs' b ys'. a # todo = xs' @ b # ys' \<and> Suc (length dn + length xs) = length dn + length xs'
        \<and> ar_arep b = arep \<and> arep \<notin> ar_arep ` set xs'"
      if "todo = xs @ c # ys" "ar_arep c = arep" "arep \<notin> ar_arep ` set xs" for xs c ys
      using that False by (intro exI [of _ "a # xs"] exI [of _ c] exI [of _ ys]) auto
    ultimately show ?thesis
      using Cons.IH [of ?it "dn @ [a]"] Cons.prems False
      by (auto split: prod.splits option.splits)
  qed
qed

text \<open>The table as a map from AR numbers to pending events.\<close>

definition ar_view :: "ar_table \<Rightarrow> u32 \<Rightarrow> u32 option" where
  "ar_view ars = map_of (map (\<lambda>a. (ar_arep a, ar_events a)) (ar_live ars))"

definition ar_wf :: "ar_table \<Rightarrow> bool" where
  "ar_wf ars = (ar_terminated ars \<and> distinct (map ar_arep (ar_live ars)))"

text \<open>The three outcomes: the AR is in the table; it is not and is not added, for want of a request
  or of room; it is appended.\<close>

lemma event_set_cases:
  fixes app :: "'n app_data" and arep event :: u32 and add :: bool
  defines "us \<equiv> ar_live (ars_of app)"
    and "upd T \<equiv> (set_ars app T)\<lparr>main_events := main_events app OR event\<rparr>"
  assumes "ar_terminated (ars_of app)"
  obtains (found) xs a ys fs where "ars_of app = us @ fs" "us = xs @ a # ys"
      "list_all (\<lambda>a. \<not> ar_used a) fs" "ar_arep a = arep" "arep \<notin> ar_arep ` set xs"
      "app_event_set app arep event add = upd (xs @ a\<lparr>ar_events := ar_events a OR event\<rparr> # ys @ fs)"
  | (none) "arep \<notin> ar_arep ` set us" "\<not> add \<or> length us = length (ars_of app)"
      "app_event_set app arep event add = upd (ars_of app)"
  | (added) f fs where "ars_of app = us @ f # fs" "list_all (\<lambda>a. \<not> ar_used a) (f # fs)"
      "arep \<notin> ar_arep ` set us" "add"
      "app_event_set app arep event add = upd (us @ \<lparr>ar_arep = arep, ar_events = event\<rparr> # fs)"
proof -
  obtain fs where fs: "ars_of app = us @ fs" "list_all (\<lambda>a. \<not> ar_used a) fs"
    using ar_terminated_live [OF assms(3)] unfolding us_def by blast
  have us: "list_all ar_used us" by (simp add: us_def ar_live_def list_all_iff)
  obtain fd it' ars' where s: "ar_search app_ar_iterator_init (us @ fs) arep = (fd, it', ars')"
    by (cases "ar_search app_ar_iterator_init (us @ fs) arep")
  have S: "ars' = us @ fs"
      "case fd of Some i \<Rightarrow> \<exists>xs a ys. us = xs @ a # ys \<and> i = length xs \<and> ar_arep a = arep
          \<and> arep \<notin> ar_arep ` set xs \<and> \<not> app_ar_iterator_done it' ars'
        | None \<Rightarrow> arep \<notin> ar_arep ` set us \<and> app_ar_iterator_done it' ars'"
    using ar_search_from [of app_ar_iterator_init "[]" us fs arep] s us fs(2)
    by (auto simp: app_ar_iterator_init_def split: option.splits)
  consider (Found) i where "fd = Some i" | (Room) f gs where "fd = None" "add" "fs = f # gs"
    | (Full) "fd = None" "\<not> add \<or> fs = []"
    by (cases fd; cases fs; cases add) auto
  then show thesis
  proof cases
    case Found
    with S(2) obtain xs a ys where x: "us = xs @ a # ys" "i = length xs" "ar_arep a = arep"
      "arep \<notin> ar_arep ` set xs" "\<not> app_ar_iterator_done it' ars'" by auto
    let ?T = "xs @ a\<lparr>ar_events := ar_events a OR event\<rparr> # ys @ fs"
    have e: "app_ar_event_set ars' i event = ?T"
      by (simp add: app_ar_event_set_def S(1) x)
    have "\<not> app_ar_iterator_done it' ?T"
      using x(5) by (auto simp: app_ar_iterator_done_def S(1) x(1) nth_append nth_Cons split: if_splits nat.splits)
    then have "app_event_set app arep event add = upd ?T"
      by (simp add: app_event_set_def fs(1) s Found e Let_def upd_def)
    then show thesis by (rule found [OF fs(1) x(1) fs(2) x(3,4)])
  next
    case Room
    have n: "arep \<notin> ar_arep ` set us" "app_ar_iterator_done it' (us @ fs)"
      using S Room(1) by simp_all
    have "\<not> list_all ar_used (us @ fs)" using fs(2) Room(3) by simp
    then obtain T i where a: "app_ar_add_arep (us @ fs) arep = Some (T, i)"
      using app_ar_add_arep_full [of "us @ fs" arep] by (metis not_None_eq surj_pair)
    have "ar_terminated (us @ fs)" using us fs(2) by (intro ar_terminatedI) simp_all
    from app_ar_add_arep_spec [OF this a] have "i = length us" "T = us @ \<lparr>ar_arep = arep, ar_events = 0\<rparr> # gs"
      using us fs(2) by (simp_all add: Room(3))
    then have "app_ar_event_set T i event = us @ \<lparr>ar_arep = arep, ar_events = event\<rparr> # gs"
      by (simp add: app_ar_event_set_def)
    then have "app_event_set app arep event add = upd (us @ \<lparr>ar_arep = arep, ar_events = event\<rparr> # gs)"
      using Room(2) n by (simp add: app_event_set_def fs(1) s Room(1) S(1) a Let_def upd_def)
    then show thesis
      by (rule added [OF fs(1) [unfolded Room(3)] fs(2) [unfolded Room(3)] n(1) Room(2)])
  next
    case Full
    have n: "arep \<notin> ar_arep ` set us" using S Full(1) by simp
    have "\<not> add \<or> app_ar_add_arep (us @ fs) arep = None"
      using Full(2) app_ar_add_arep_full [of "us @ fs" arep] us by auto
    then have "app_event_set app arep event add = upd (ars_of app)"
      by (auto simp: app_event_set_def fs(1) s Full(1) S(1) Let_def upd_def)
    then show thesis using none [OF n] Full(2) fs(1) by auto
  qed
qed

lemma ar_live_of_parts:
  "\<lbrakk>list_all ar_used us; list_all (\<lambda>a. \<not> ar_used a) fs\<rbrakk> \<Longrightarrow> ar_live (us @ fs) = us \<and> ar_terminated (us @ fs)"
  by (auto intro: ar_terminatedI)

lemma live_used: "list_all ar_used (ar_live ars)"
  by (simp add: ar_live_def list_all_iff)

lemma map_of_view_append:
  "distinct (map ar_arep (xs @ a # ys)) \<Longrightarrow>
     map_of (map (\<lambda>a. (ar_arep a, ar_events a)) (xs @ a\<lparr>ar_events := e\<rparr> # ys))
       = (map_of (map (\<lambda>a. (ar_arep a, ar_events a)) (xs @ a # ys)))(ar_arep a \<mapsto> e)"
  by (induction xs) (auto simp: fun_eq_iff)

lemma map_of_view_None: "arep \<notin> ar_arep ` set us \<Longrightarrow> map_of (map (\<lambda>a. (ar_arep a, ar_events a)) us) arep = None"
  by (induction us) auto

lemma map_of_view_snoc:
  "arep \<notin> ar_arep ` set us \<Longrightarrow>
     map_of (map (\<lambda>a. (ar_arep a, ar_events a)) (us @ [\<lparr>ar_arep = arep, ar_events = e\<rparr>]))
       = (map_of (map (\<lambda>a. (ar_arep a, ar_events a)) us))(arep \<mapsto> e)"
  by (induction us) (auto simp: fun_eq_iff)

lemma event_set_view:
  fixes app :: "'n app_data"
  defines "view \<equiv> ar_view (ars_of app)"
  assumes wf: "ar_wf (ars_of app)"
  shows "ar_view (ars_of (app_event_set app arep event add)) =
      (case view arep of
         Some e \<Rightarrow> view(arep \<mapsto> e OR event)
       | None \<Rightarrow> if add \<and> arep \<noteq> UINT32_MAX \<and> length (ar_live (ars_of app)) < length (ars_of app)
                 then view(arep \<mapsto> event) else view)"
    and "ar_wf (ars_of (app_event_set app arep event add))"
    and "length (ars_of (app_event_set app arep event add)) = length (ars_of app)"
proof -
  have t: "ar_terminated (ars_of app)" and d: "distinct (map ar_arep (ar_live (ars_of app)))"
    using wf by (simp_all add: ar_wf_def)
  note live = live_used [of "ars_of app"]
  let ?r = "app_event_set app arep event add"
  have "ar_view (ars_of ?r) =
      (case view arep of
         Some e \<Rightarrow> view(arep \<mapsto> e OR event)
       | None \<Rightarrow> if add \<and> arep \<noteq> UINT32_MAX \<and> length (ar_live (ars_of app)) < length (ars_of app)
                 then view(arep \<mapsto> event) else view)
    \<and> ar_wf (ars_of ?r) \<and> length (ars_of ?r) = length (ars_of app)"
  proof (cases rule: event_set_cases [where app = app and arep = arep and event = event and add = add,
        OF t, case_names found none added])
    case (found xs a ys fs)
    define b where "b = a\<lparr>ar_events := ar_events a OR event\<rparr>"
    have r: "ars_of ?r = (xs @ b # ys) @ fs"
      using found(6) by (simp add: ars_of_def set_ars_def b_def)
    have lr: "ar_live (ars_of ?r) = xs @ b # ys \<and> ar_terminated (ars_of ?r)"
      unfolding r using found(3) live by (intro ar_live_of_parts) (auto simp: found(2) b_def)
    have va: "view arep = Some (ar_events a)"
      using d found(4,5) unfolding view_def ar_view_def found(2)
      by (auto simp: map_add_def map_of_view_None)
    have "ar_view (ars_of ?r) = view(arep \<mapsto> ar_events a OR event)"
      using map_of_view_append [of xs a ys "ar_events a OR event"] d found(4) lr
      by (simp add: view_def ar_view_def found(2) b_def)
    moreover have "ar_wf (ars_of ?r)" using lr d by (simp add: ar_wf_def found(2) b_def)
    moreover have "length (ars_of ?r) = length (ars_of app)"
      using found(1) by (simp add: r found(2))
    ultimately show ?thesis by (simp add: va)
  next
    case none
    have r: "ars_of ?r = ars_of app" using none(3) by (simp add: ars_of_def set_ars_def)
    have "view arep = None" using none(1) by (simp add: view_def ar_view_def map_of_view_None)
    with none(2) wf show ?thesis by (auto simp: r view_def)
  next
    case (added f fs)
    let ?us = "ar_live (ars_of app)" and ?n = "\<lparr>ar_arep = arep, ar_events = event\<rparr>"
    have r: "ars_of ?r = ?us @ ?n # fs" using added(5) by (simp add: ars_of_def set_ars_def)
    have va: "view arep = None" using added(3) by (simp add: view_def ar_view_def map_of_view_None)
    have l: "length (ars_of ?r) = length (ars_of app)" "length ?us < length (ars_of app)"
      using arg_cong [OF added(1), of length] by (simp_all add: r)
    show ?thesis
    proof (cases "arep = UINT32_MAX")
      case True
      then have "ar_live (ars_of ?r) = ?us \<and> ar_terminated (ars_of ?r)"
        unfolding r using live added(2) by (intro ar_live_of_parts) (auto simp: ar_used_def)
      with d l True va show ?thesis by (simp add: ar_wf_def ar_view_def view_def)
    next
      case False
      have "ar_live ((?us @ [?n]) @ fs) = ?us @ [?n] \<and> ar_terminated ((?us @ [?n]) @ fs)"
        using live added(2) False by (intro ar_live_of_parts) (auto simp: ar_used_def)
      then have lr: "ar_live (ars_of ?r) = ?us @ [?n]" "ar_terminated (ars_of ?r)" by (simp_all add: r)
      with d l False va added(3,4) map_of_view_snoc [OF added(3), of event] show ?thesis
        by (simp add: ar_wf_def ar_view_def view_def)
    qed
  qed
  then show "ar_view (ars_of ?r) =
      (case view arep of
         Some e \<Rightarrow> view(arep \<mapsto> e OR event)
       | None \<Rightarrow> if add \<and> arep \<noteq> UINT32_MAX \<and> length (ar_live (ars_of app)) < length (ars_of app)
                 then view(arep \<mapsto> event) else view)"
    and "ar_wf (ars_of ?r)" and "length (ars_of ?r) = length (ars_of app)" by blast+
qed

end
