(* ===== verification/SampleProps.thy ===== *)
theory SampleProps
  imports SampleEvents
begin

text \<open>
  The invariant of the Profinet application and its consequences: the arrays keep their sizes, the
  AR table stays a list of distinct ARs followed by free entries, and every subslot with a cyclic
  callback fits the callback's buffer, so that no assertion fails and every round of the main loop
  comes to its end.
\<close>

section \<open>What a call of the stack leaves alone\<close>

lemma pcall_simps [simp]:
  "main_api (snd (pcall pn c app)) = main_api app"
  "mem (snd (pcall pn c app)) = mem app"
  "alarm_payload (snd (pcall pn c app)) = alarm_payload app"
  "alarm_allowed (snd (pcall pn c app)) = alarm_allowed app"
  "alarm_demo_state (snd (pcall pn c app)) = alarm_demo_state app"
  "main_events (snd (pcall pn c app)) = main_events app"
  "trace (snd (pcall pn c app)) = trace app @ [c]"
  "ars_of (snd (pcall pn c app)) = ars_of app"
  "button1_pressed (snd (pcall pn c app)) = button1_pressed app"
  "button2_pressed (snd (pcall pn c app)) = button2_pressed app"
  "button2_pressed_previous (snd (pcall pn c app)) = button2_pressed_previous app"
  by (simp_all add: pcall_def ars_of_def split: prod.splits)

section \<open>The invariant\<close>

definition subslot_ok :: "app_subslot \<Rightarrow> bool" where
  "subslot_ok ss = (cyclic_callback ss \<longrightarrow> outsize (data_cfg ss) < 20)"

definition app_inv :: "pnet_consts \<Rightarrow> 'n app_data \<Rightarrow> bool" where
  "app_inv k app =
     (api_sized k (main_api app)
      \<and> list_all (\<lambda>p. subslot_ok (deref (main_api app) p)) (all_ptrs k)
      \<and> ar_wf (ars_of app) \<and> length (ars_of app) = PNET_MAX_AR k
      \<and> mem_ok (mem app) \<and> length (alarm_payload app) = 1)"

text \<open>The stack writes the output data into the buffer it is given.\<close>

definition fills_buffer :: "'n pnet \<Rightarrow> bool" where
  "fills_buffer pn = (\<forall>api s n sz st. length (fst (fst (pn_output_get pn api s n sz st))) = 20)"

lemma set_all_ptrs: "p \<in> set (all_ptrs k) \<longleftrightarrow> ptr_ok k p"
  by (cases p) (auto simp: all_ptrs_def ptr_ok_def)

lemma app_invD:
  assumes "app_inv k app"
  shows "api_sized k (main_api app)" "ptr_ok k p \<Longrightarrow> subslot_ok (deref (main_api app) p)"
    "ar_wf (ars_of app)" "length (ars_of app) = PNET_MAX_AR k" "mem_ok (mem app)"
    "length (alarm_payload app) = 1"
  using assms by (auto simp: app_inv_def list_all_iff set_all_ptrs)

lemma app_inv_cong:
  "\<lbrakk>app_inv k app; main_api app' = main_api app; mem_ok (mem app'); length (alarm_payload app') = 1\<rbrakk>
     \<Longrightarrow> app_inv k app'"
  by (simp add: app_inv_def ars_of_def)

lemma app_inv_same:
  "\<lbrakk>app_inv k app; main_api app' = main_api app; mem app' = mem app; alarm_payload app' = alarm_payload app\<rbrakk>
     \<Longrightarrow> app_inv k app'"
  by (simp add: app_inv_def ars_of_def)

lemma app_inv_pcall: "app_inv k app \<Longrightarrow> app_inv k (snd (pcall pn c app))"
  by (rule app_inv_same) simp_all

lemma app_inv_mem: "\<lbrakk>app_inv k app; mem_ok m\<rbrakk> \<Longrightarrow> app_inv k (app\<lparr>mem := m\<rparr>)"
  by (simp add: app_inv_def ars_of_def)

lemma app_inv_api:
  "\<lbrakk>app_inv k app; api_sized k api; \<And>p. ptr_ok k p \<Longrightarrow> subslot_ok (deref api p);
    api_ar api = api_ar (main_api app)\<rbrakk> \<Longrightarrow> app_inv k (app\<lparr>main_api := api\<rparr>)"
  by (simp add: app_inv_def ars_of_def list_all_iff set_all_ptrs)

lemma app_inv_assign:
  assumes "app_inv k app" "ptr_ok k p" "subslot_ok ss"
  shows "app_inv k (app\<lparr>main_api := assign (main_api app) p ss\<rparr>)"
proof (rule app_inv_api [OF assms(1)])
  note sz = app_invD(1) [OF assms(1)]
  show "api_sized k (assign (main_api app) p ss)" by (rule api_sized_assign [OF sz assms(2)])
  show "subslot_ok (deref (assign (main_api app) p ss) q)" if "ptr_ok k q" for q
    using that assms by (simp add: deref_assign [OF sz assms(2)] app_invD(2))
  show "api_ar (assign (main_api app) p ss) = api_ar (main_api app)" by simp
qed

lemma app_inv_set_slot:
  assumes "app_inv k app" "s < PNET_MAX_SLOTS k" "subslots sl = subslots (get_slot (main_api app) s)"
  shows "app_inv k (app\<lparr>main_api := set_slot (main_api app) s sl\<rparr>)"
proof (rule app_inv_api [OF assms(1)])
  note sz = app_invD(1) [OF assms(1)]
  show "api_sized k (set_slot (main_api app) s sl)"
    using assms(2,3) by (simp add: api_sized_set_slot [OF sz] api_sizedD(2) [OF sz])
  show "subslot_ok (deref (set_slot (main_api app) s sl) q)" if "ptr_ok k q" for q
    using that assms by (simp add: deref_set_slot [OF sz] app_invD(2))
  show "api_ar (set_slot (main_api app) s sl) = api_ar (main_api app)" by simp
qed

lemma app_inv_set_ars:
  "\<lbrakk>app_inv k app; ar_wf ars; length ars = PNET_MAX_AR k\<rbrakk> \<Longrightarrow> app_inv k (set_ars app ars)"
  by (simp add: app_inv_def api_sized_def set_ars_def ars_of_def deref_def get_slot_def)

lemma app_inv_events [simp]:
  "app_inv k (app\<lparr>main_events := e\<rparr>) = app_inv k app"
  "app_inv k (app\<lparr>alarm_allowed := b\<rparr>) = app_inv k app"
  "app_inv k (app\<lparr>alarm_arg := g\<rparr>) = app_inv k app"
  "app_inv k (app\<lparr>alarm_demo_state := st\<rparr>) = app_inv k app"
  "app_inv k (app\<lparr>net := n\<rparr>) = app_inv k app"
  "app_inv k (app\<lparr>main_timer := b\<rparr>) = app_inv k app"
  "app_inv k (app\<lparr>process_data_tick_counter := c\<rparr>) = app_inv k app"
  "app_inv k (app\<lparr>buttons_tick_counter := c\<rparr>) = app_inv k app"
  "app_inv k (app\<lparr>button1_pressed := b\<rparr>) = app_inv k app"
  "app_inv k (app\<lparr>button2_pressed := b\<rparr>) = app_inv k app"
  "app_inv k (app\<lparr>button2_pressed_previous := b\<rparr>) = app_inv k app"
  by (simp_all add: app_inv_def ars_of_def)

lemmas app_inv_intros = app_inv_pcall app_inv_mem

section \<open>Every operation keeps the invariant\<close>

lemma inv_init:
  assumes "app_init le pn ports = Some app"
  shows "app_inv (pn_consts pn) app"
proof -
  let ?free = "\<lparr>ar_arep = UINT32_MAX, ar_events = 0\<rparr>"
  have free: "list_all (\<lambda>a. \<not> ar_used a) (replicate n ?free)" for n
    by (simp add: list_all_iff ar_used_def)
  then have "ar_live (replicate n ?free) = []" for n by simp
  with ar_live_of_parts [of "[]", OF _ free] have wf: "ar_wf (replicate n ?free)" for n
    by (simp add: ar_wf_def)
  show ?thesis
    using assms wf [of "PNET_MAX_AR (pn_consts pn)"]
    by (auto simp: app_init_def app_inv_def api_sized_def ars_of_def list_all_iff set_all_ptrs
        deref_def get_slot_def ptr_ok_def slot_zero_def subslot_ok_def subslot_zero_def
        mem_ok_init gsdml_consts split: option.splits)
qed

lemma inv_defaults: "app_inv k app \<Longrightarrow> app_inv k (app_set_outputs_default_value app)"
  unfolding app_set_outputs_default_value_def
  by (intro app_inv_mem mem_ok_defaults) (auto dest: app_invD(5))

lemma inv_led:
  assumes "app_inv k app" "i = APP_DATA_LED_ID \<Longrightarrow> data_led (mem app) = [] \<and> b = previous_led_state (mem app)"
  shows "app_inv k (app_set_led i b app)"
proof -
  have "led_ok ((mem app)\<lparr>led_calls := led_calls (mem app) @ [(i, b)]\<rparr>)"
    using app_invD(5) [OF assms(1)] assms(2)
    by (cases "i = APP_DATA_LED_ID") (simp_all add: mem_ok_def led_ok_def data_led_def)
  then show ?thesis
    unfolding app_set_led_def using app_invD(5) [OF assms(1)]
    by (intro app_inv_mem [OF assms(1)]) (simp add: mem_ok_def)
qed

lemma inv_signal_led: "app_inv k app \<Longrightarrow> app_inv k (snd (app_signal_led_ind b app))"
  unfolding app_signal_led_ind_def
  by (auto intro: inv_led simp: APP_PROFINET_SIGNAL_LED_ID_def APP_DATA_LED_ID_def)

lemma inv_event_set: "app_inv k app \<Longrightarrow> app_inv k (app_event_set app arep event add)"
proof -
  assume inv: "app_inv k app"
  note wf = app_invD(3) [OF inv] and len = app_invD(4) [OF inv]
  have e: "app_event_set app arep event add =
      (set_ars app (ars_of (app_event_set app arep event add)))\<lparr>main_events := main_events app OR event\<rparr>"
    by (simp add: app_event_set_def set_ars_def ars_of_def Let_def split: prod.splits)
  show ?thesis
    by (subst e) (simp add: app_inv_set_ars [OF inv] event_set_view(2,3) [OF wf] len)
qed

lemma inv_get_input:
  "\<lbrakk>app_inv k app; app_data_get_input_data k' nan (mem app) ident b = (r, m)\<rbrakk> \<Longrightarrow> app_inv k (app\<lparr>mem := m\<rparr>)"
  by (rule app_inv_mem) (auto intro: mem_ok_get_input dest: app_invD(5))

lemma inv_set_initial: "app_inv k app \<Longrightarrow> app_inv k (app_set_initial_data_and_ioxs pn app)"
proof -
  have i: "app_inv k app' \<Longrightarrow> app_inv k (snd (initial_data pn ss app'))" for app' ss
    by (auto simp: initial_data_def split: prod.splits option.splits intro: inv_get_input)
  have s: "app_inv k app' \<Longrightarrow> app_inv k (set_initial_subslot pn p app')" for app' p
    using i [of app' "deref (main_api app') p"]
    by (auto simp: set_initial_subslot_def Let_def split: prod.splits intro!: app_inv_pcall)
  have "app_inv k app' \<Longrightarrow> app_inv k (fold (set_initial_subslot pn) ps app')" for ps app'
    by (induction ps arbitrary: app') (simp_all add: s)
  then show "app_inv k app \<Longrightarrow> ?thesis" by (simp add: app_set_initial_data_and_ioxs_def)
qed

lemma inv_state: "app_inv k app \<Longrightarrow> app_inv k (snd (app_state_ind pn arep event app))"
  by (auto simp: app_state_ind_def
      intro!: inv_event_set inv_defaults app_inv_pcall inv_set_initial)

lemma inv_exp_module:
  assumes "app_inv (pn_consts pn) app"
  shows "app_inv (pn_consts pn) (snd (app_exp_module_ind pn api slot ident app))"
proof (cases "PNET_MAX_SLOTS (pn_consts pn) \<le> unat slot")
  case True
  with assms show ?thesis by (simp add: app_exp_module_ind_def)
next
  case False
  let ?k = "pn_consts pn"
  have pull: "app_inv ?k app' \<Longrightarrow> app_inv ?k (app'\<lparr>main_api := snd (app_utils_pull_module ?k (main_api app') slot)\<rparr>)"
    for app' :: "'a app_data"
    using False by (simp add: app_utils_pull_module_def app_inv_set_slot)
  have plug: "app_inv ?k app' \<Longrightarrow>
      app_inv ?k (app'\<lparr>main_api := snd (app_utils_plug_module ?k (main_api app') slot ident name)\<rparr>)"
    for app' :: "'a app_data" and name
    using False by (simp add: app_utils_plug_module_def app_inv_set_slot)
  show ?thesis
    using False assms
    by (auto simp: app_exp_module_ind_def Let_def case_prod_beta simp del: pcall_simps intro!: plug pull app_inv_pcall)
qed

lemma plan_ok: "submodule_plan k ident cfg = (c, name, callback) \<Longrightarrow> callback \<Longrightarrow> outsize c < 20"
  by (auto simp: submodule_plan_def word_less_nat_alt split: option.splits dest!: submodule_sizes)

lemma inv_pull_submodule:
  assumes "app_inv k app"
  shows "app_inv k (app\<lparr>main_api := snd (app_utils_pull_submodule k (main_api app) slot n)\<rparr>)"
proof (cases "app_utils_pull_submodule k (main_api app) slot n")
  case (Pair rc api')
  from app_utils_pull_submodule_cases [OF app_invD(1) [OF assms] this] show ?thesis
    using assms by (auto simp: Pair app_inv_assign subslot_ok_def subslot_zero_def)
qed

lemma inv_plug_submodule:
  assumes "app_inv k app" "callback \<Longrightarrow> outsize cfg < 20"
  shows "app_inv k (app\<lparr>main_api :=
    snd (app_utils_plug_submodule k (main_api app) slot n ident (Some cfg) name callback tg)\<rparr>)"
proof (cases "app_utils_plug_submodule k (main_api app) slot n ident (Some cfg) name callback tg")
  case (Pair r api')
  show ?thesis
  proof (cases r)
    case None
    then show ?thesis using app_utils_plug_submodule_None Pair assms(1) by fastforce
  next
    case (Some p)
    note P = app_utils_plug_submodule_Some [OF app_invD(1) [OF assms(1)] Pair [unfolded Some]]
    from P(4) show ?thesis using assms
      by (auto simp: Pair Some intro!: app_inv_assign P(1)) (simp add: subslot_ok_def)
  qed
qed

lemma inv_exp_submodule:
  assumes "app_inv (pn_consts pn) app"
  shows "app_inv (pn_consts pn) (snd (app_exp_submodule_ind pn api slot n mident ident cfg app))"
proof (cases "submodule_plan (pn_consts pn) ident cfg")
  case (fields c name callback)
  show ?thesis
    using assms plan_ok [OF fields]
    by (auto simp: app_exp_submodule_ind_def Let_def case_prod_beta fields simp del: pcall_simps
        intro!: inv_plug_submodule inv_pull_submodule app_inv_pcall)
qed

lemma inv_plug_dap:
  assumes "app_inv (pn_consts pn) app"
  shows "app_inv (pn_consts pn) (app_plug_dap pn ports app)"
proof -
  have "app_inv (pn_consts pn) app' \<Longrightarrow> app_inv (pn_consts pn) (fold (plug_port pn) is app')"
    for "is" and app' :: "'a app_data"
    by (induction "is" arbitrary: app') (simp_all add: plug_port_def inv_exp_submodule)
  with assms show ?thesis
    by (simp add: app_plug_dap_def Let_def inv_exp_submodule inv_exp_module)
qed

section \<open>Handlers that keep the invariant\<close>

locale ar_handler_inv = ar_handler h for h :: "'n app_data \<Rightarrow> u32 \<Rightarrow> bool \<times> 'n app_data" +
  assumes keeps: "app_inv k app \<Longrightarrow> app_inv k (snd (h app arep))"
begin

lemma serve_inv: "app_inv k app \<Longrightarrow> app_inv k (snd (serve h event us app))"
  by (induction us arbitrary: app) (auto simp: keeps)

lemma serve_subset: "ar_arep ` set (fst (serve h event us app)) \<subseteq> ar_arep ` set us"
proof (induction us arbitrary: app)
  case (Cons a us)
  show ?case using Cons.IH by (auto simp: image_iff)
qed simp

lemma serve_distinct:
  "distinct (map ar_arep us) \<Longrightarrow> distinct (map ar_arep (fst (serve h event us app)))"
proof (induction us arbitrary: app)
  case (Cons a us)
  then show ?case using serve_subset [of event us] by (auto simp: subset_iff)
qed simp

lemma handle_event_inv:
  assumes "app_inv k app"
  shows "\<exists>app'. app_handle_event_ar app event h = Some app' \<and> app_inv k app'"
proof -
  let ?us = "ar_live (ars_of app)" and ?app = "app\<lparr>main_events := main_events app AND NOT event\<rparr>"
  have wf: "ar_terminated (ars_of app)" "distinct (map ar_arep ?us)"
    using app_invD(3) [OF assms] by (simp_all add: ar_wf_def)
  obtain T where T: "app_handle_event_ar app event h = Some (set_ars (snd (serve h event ?us ?app)) T)"
      "ar_terminated T" "ar_live T = fst (serve h event ?us ?app)" "length T = length (ars_of app)"
    using handle_event_ar [OF wf(1), of event] by blast
  have "app_inv k (set_ars (snd (serve h event ?us ?app)) T)"
  proof (rule app_inv_set_ars)
    show "app_inv k (snd (serve h event ?us ?app))" by (rule serve_inv) (simp add: assms)
    show "ar_wf T" using T(2,3) serve_distinct [OF wf(2)] by (simp add: ar_wf_def)
    show "length T = PNET_MAX_AR k" using T(4) app_invD(4) [OF assms] by simp
  qed
  then show ?thesis using T(1) by blast
qed

end

interpretation ready: ar_handler_inv "app_ar_ready_for_data_handler pn"
  by unfold_locales (simp add: app_ar_ready_for_data_handler_def app_inv_pcall)

interpretation alarm: ar_handler_inv "app_ar_alarm_handler pn"
  by unfold_locales (simp add: app_ar_alarm_handler_def app_inv_pcall)

interpretation released: ar_handler_inv "app_ar_sm_released_handler pn"
  by unfold_locales (simp add: app_ar_sm_released_handler_def app_inv_pcall inv_set_initial)

interpretation abort: ar_handler_inv "app_ar_abort_handler pn"
  by unfold_locales (simp add: app_ar_abort_handler_def)

section \<open>The timer\<close>

lemma inv_cyclic_output:
  assumes inv: "app_inv (pn_consts pn) app" and "fills_buffer pn" "ptr_ok (pn_consts pn) p"
    and cb: "cyclic_callback (deref (main_api app) p)"
  shows "\<exists>app'. cyclic_output pn p app = Some app' \<and> app_inv (pn_consts pn) app'"
proof -
  let ?ss = "deref (main_api app) p"
  have ok: "subslot_ok ?ss" using app_invD(2) [OF inv assms(3)] .
  with cb have small: "outsize (data_cfg ?ss) < 20" by (simp add: subslot_ok_def)
  obtain buf len iops n where o: "pn_output_get pn APP_GSDML_API (slot_nbr ?ss) (subslot_nbr ?ss)
      (outsize (data_cfg ?ss)) (net app) = ((buf, len, iops), n)"
    by (metis prod.exhaust)
  have buf: "length buf = 20" using assms(2) o unfolding fills_buffer_def by (metis fst_conv)
  define app1 where "app1 = app\<lparr>net := n, main_api := assign (main_api app) p (?ss\<lparr>outdata_iops := iops\<rparr>)\<rparr>"
  have i1: "app_inv (pn_consts pn) app1"
    using app_inv_assign [of "pn_consts pn" "app\<lparr>net := n\<rparr>" p "?ss\<lparr>outdata_iops := iops\<rparr>"] inv ok assms(3)
    by (simp add: app1_def subslot_ok_def)
  have "mem_ok (snd (app_data_set_output_data (mem app1) ident (Some buf) len))"
    if "len = outsize (data_cfg ?ss)" for ident
    using mem_ok_set_output [OF app_invD(5) [OF i1], of ident buf len] that small buf
    by (cases "app_data_set_output_data (mem app1) ident (Some buf) len") (auto simp: word_less_nat_alt)
  moreover have "\<not> 20 \<le> outsize (data_cfg ?ss)" using small by simp
  ultimately show ?thesis
    using i1 inv
    unfolding cyclic_output_def Let_def o prod.case app1_def [symmetric]
    by (simp add: inv_defaults app_inv_mem)
qed

lemma inv_cyclic_input:
  assumes "app_inv (pn_consts pn) app" "ptr_ok (pn_consts pn) p"
  shows "app_inv (pn_consts pn) (cyclic_input pn p app)"
proof -
  let ?ss = "deref (main_api app) p"
  obtain r m where g: "app_data_get_input_data (pn_consts pn) (pn_nan pn) (mem app) (submodule_id ?ss)
      (button1_pressed app) = (r, m)" by fastforce
  have i: "app_inv (pn_consts pn) (snd (pcall pn c (app\<lparr>mem := m\<rparr>)))" for c
    by (intro app_inv_pcall inv_get_input [OF assms(1) g])
  have ok: "subslot_ok (?ss\<lparr>indata_iocs := x\<rparr>)" for x
    using app_invD(2) [OF assms] by (simp add: subslot_ok_def)
  have "app_inv (pn_consts pn) ((snd (pcall pn c (app\<lparr>mem := m\<rparr>)))\<lparr>net := n, main_api :=
      assign (main_api app) p (?ss\<lparr>indata_iocs := x\<rparr>)\<rparr>)" for c n x
    using app_inv_assign [of "pn_consts pn" "(snd (pcall pn c (app\<lparr>mem := m\<rparr>)))\<lparr>net := n\<rparr>" p, OF _ assms(2) ok]
      i by simp
  with assms(1) show ?thesis
    by (simp add: cyclic_input_def Let_def g case_prod_beta)
qed

lemma inv_cyclic_poll:
  assumes "fills_buffer pn" "list_all (ptr_ok (pn_consts pn)) ps" "app_inv (pn_consts pn) app"
  shows "\<exists>app'. cyclic_poll pn ps app = Some app' \<and> app_inv (pn_consts pn) app'"
  using assms(2,3)
proof (induction ps arbitrary: app)
  case Nil
  then show ?case by simp
next
  case (Cons p ps)
  then have p: "ptr_ok (pn_consts pn) p" and ps: "list_all (ptr_ok (pn_consts pn)) ps" by simp_all
  show ?case
  proof (cases "plugged (deref (main_api app) p) \<and> cyclic_callback (deref (main_api app) p)")
    case False
    then show ?thesis using Cons.IH [OF ps Cons.prems(2)] by auto
  next
    case True
    then obtain app1 where "cyclic_output pn p app = Some app1" "app_inv (pn_consts pn) app1"
      using inv_cyclic_output [OF Cons.prems(2) assms(1) p] by blast
    then have "\<exists>app2. app_cyclic_data_callback pn p app = Some app2 \<and> app_inv (pn_consts pn) app2"
      using Cons.prems(2) inv_cyclic_input [OF _ p] by (simp add: app_cyclic_data_callback_def)
    then show ?thesis using True Cons.IH [OF ps] by auto
  qed
qed

lemma inv_cyclic_data:
  assumes "fills_buffer pn" "app_inv (pn_consts pn) app"
  shows "\<exists>app'. app_handle_cyclic_data pn app = Some app' \<and> app_inv (pn_consts pn) app'"
proof -
  have "list_all (ptr_ok (pn_consts pn)) (all_ptrs (pn_consts pn))"
    by (simp add: list_all_iff set_all_ptrs)
  with inv_cyclic_poll [OF assms(1) this] assms(2) show ?thesis
    by (simp add: app_handle_cyclic_data_def app_utils_cyclic_data_poll_def Let_def)
qed

lemma inv_demo: "app_inv k app \<Longrightarrow> app_inv k (app_handle_demo_pnet_api pn app)"
proof -
  assume inv: "app_inv k app"
  have "app_inv k (app\<lparr>alarm_payload := (alarm_payload app)[0 := x]\<rparr>)" for x
    by (rule app_inv_cong [OF inv]) (simp_all add: app_invD(5,6) [OF inv])
  with inv have "app_inv k (demo_action pn slot subslot st app)" for slot subslot st
    by (cases st) (simp_all add: demo_action_def Let_def app_inv_pcall)
  with inv show ?thesis by (simp add: app_handle_demo_pnet_api_def Let_def split: option.splits)
qed

lemma inv_timer:
  assumes "fills_buffer pn" "app_inv (pn_consts pn) app"
  shows "\<exists>app'. app_handle_event_timer pn buttons app = Some app' \<and> app_inv (pn_consts pn) app'"
proof -
  define app1 where "app1 = update_button_states buttons (app\<lparr>main_events := main_events app AND NOT APP_EVENT_TIMER\<rparr>)"
  have i1: "app_inv (pn_consts pn) app1"
    using assms(2) by (simp add: app1_def update_button_states_def Let_def)
  have "\<exists>app2. (if app_is_connected_to_controller app1 then app_handle_cyclic_data pn app1 else Some app1)
      = Some app2 \<and> app_inv (pn_consts pn) app2"
    using inv_cyclic_data [OF assms(1) i1] i1 by simp
  then obtain app2 where a: "(if app_is_connected_to_controller app1 then app_handle_cyclic_data pn app1 else Some app1)
      = Some app2" "app_inv (pn_consts pn) app2" by blast
  have "app_inv (pn_consts pn) (if button2_pressed app2 \<and> \<not> button2_pressed_previous app2
      then app_handle_demo_pnet_api pn app2 else app2)"
    using a(2) inv_demo [OF a(2)] by simp
  then show ?thesis
    unfolding app_handle_event_timer_def Let_def app1_def [symmetric] a(1) by (simp add: app_inv_pcall)
qed

section \<open>Rounds of the main loop and reachable states\<close>

lemma inv_when_flag:
  assumes "app_inv k app" "\<And>app. app_inv k app \<Longrightarrow> \<exists>app'. f app = Some app' \<and> app_inv k app'"
  shows "\<exists>app'. when_flag flags event f app = Some app' \<and> app_inv k app'"
  using assms by (simp add: when_flag_def)

lemma inv_bind:
  assumes "\<exists>a. m = Some a \<and> app_inv k a" "\<And>a. app_inv k a \<Longrightarrow> \<exists>b. f a = Some b \<and> app_inv k b"
  shows "\<exists>b. m \<bind> f = Some b \<and> app_inv k b"
  using assms by auto

lemma inv_loop_round:
  assumes "fills_buffer pn" "app_inv (pn_consts pn) app"
  shows "\<exists>app'. app_loop_round pn buttons app = Some app' \<and> app_inv (pn_consts pn) app'"
proof -
  have ab: "\<exists>b. map_option (\<lambda>app. app\<lparr>alarm_allowed := True\<rparr>)
      (app_handle_event_ar a APP_EVENT_ABORT (app_ar_abort_handler pn)) = Some b \<and> app_inv (pn_consts pn) b"
    if "app_inv (pn_consts pn) a" for a
    using abort.handle_event_inv [OF that, of APP_EVENT_ABORT pn] by auto
  show ?thesis
    unfolding app_loop_round_def Let_def
    by (intro inv_bind inv_when_flag assms ready.handle_event_inv alarm.handle_event_inv
        released.handle_event_inv inv_timer ab)
qed

lemma inv_write:
  assumes "app_inv k app" "unat len \<le> length data"
  shows "app_inv k (snd (app_write_ind pn slot subslot idx len data status app))"
  using assms mem_ok_write [OF app_invD(5) [OF assms(1)] _ assms(2)]
  by (auto simp: app_write_ind_def split: option.splits prod.splits intro!: app_inv_mem)

lemma inv_step:
  assumes "app_step pn app app'" "fills_buffer pn" "app_inv (pn_consts pn) app"
  shows "app_inv (pn_consts pn) app'"
  using assms(1)
proof cases
  case (loop_round buttons)
  then show ?thesis using inv_loop_round [OF assms(2,3), of buttons] by simp
qed (use assms(3) in \<open>simp_all add: main_timer_tick_def app_release_ind_def app_sm_released_ind_def
    app_new_data_status_ind_def app_alarm_ind_def app_alarm_cnf_def inv_signal_led
    inv_defaults inv_event_set inv_state inv_exp_module inv_exp_submodule inv_write Let_def\<close>)

lemma inv_reach:
  assumes "app_reach le pn ports app" "fills_buffer pn"
  shows "app_inv (pn_consts pn) app"
  using assms(1)
proof induction
  case (start app app')
  then have "app_inv (pn_consts pn) app'"
    using inv_init [OF start(1)] by (auto simp: app_start_def)
  moreover have "data_led (mem app') = []" "\<not> previous_led_state (mem app')"
    using start by (auto simp: app_start_def app_init_def app_mem_init_def data_led_def split: option.splits)
  ultimately show ?case by (simp add: app_loop_start_def inv_plug_dap inv_led)
next
  case (step app app')
  then show ?case using inv_step assms(2) by blast
qed

end
