(* ===== verification/SampleTheorems.thy ===== *)
theory SampleTheorems
  imports SampleProps
begin

text \<open>
  Properties of the Profinet application as a whole, each with a witness on a small concrete
  stack: no assertion fails and the main loop never gets stuck, the AR table as a map, what
  serving an event does, and the demonstration behind the second button.
\<close>

section \<open>A concrete stack\<close>

definition demo_consts :: pnet_consts where
  "demo_consts = \<lparr>PNET_MAX_AR = 2, PNET_MAX_SLOTS = 3, PNET_MAX_SUBSLOTS = 2,
     PNET_MAX_PHYSICAL_PORTS = 1, PNET_INTERFACE_NAME_MAX_SIZE = 16, PNET_IOXS_BAD = 0,
     PNET_IOXS_GOOD = 0x80, PNET_MOD_DAP_IDENT = 1, PNET_SUBMOD_DAP_IDENT = 1,
     PNET_SUBMOD_DAP_INTERFACE_1_IDENT = 0x8000, PNET_SUBMOD_DAP_INTERFACE_1_PORT_1_IDENT = 0x8001,
     PNET_SUBMOD_DAP_INTERFACE_1_PORT_2_IDENT = 0x8002,
     PNET_SUBMOD_DAP_INTERFACE_1_PORT_3_IDENT = 0x8003,
     PNET_SUBMOD_DAP_INTERFACE_1_PORT_4_IDENT = 0x8004, PNET_SLOT_DAP_IDENT = 0,
     PNET_SUBSLOT_DAP_IDENT = 1, PNET_SUBSLOT_DAP_INTERFACE_1_IDENT = 0x8000\<rparr>"

definition demo_errs :: pnet_errs where
  "demo_errs = \<lparr>PNET_ERROR_CODE_WRITE = 0xDF, PNET_ERROR_CODE_READ = 0xDE,
     PNET_ERROR_DECODE_PNIORW = 0x80, PNET_ERROR_CODE_1_APP_WRITE_ERROR = 0xA1,
     PNET_ERROR_CODE_1_APP_READ_ERROR = 0xA0, PNET_ERROR_CODE_1_FSPM = 0x40,
     PNET_DATA_STATUS_BIT_PROVIDER_STATE = 4, PNET_DATA_STATUS_BIT_DATA_VALID = 2\<rparr>"

definition demo_pnet :: "unit pnet" where
  "demo_pnet = \<lparr>pn_consts = demo_consts, pn_errs = demo_errs, pn_nan = (\<lambda>x y. x),
     pn_init = Some (), pn_call = (\<lambda>c n. (0, n)),
     pn_output_get = (\<lambda>api s n sz st. ((replicate 20 0, sz, 0x80), st)),
     pn_input_get_iocs = (\<lambda>api s n iocs st. (iocs, st))\<rparr>"

definition demo_app :: "unit app_data" where
  "demo_app = (case app_init True demo_pnet 1 of
     Some app \<Rightarrow> (case app_start True True (Some app) of (_, Some app') \<Rightarrow> app'))"

lemma demo_app_start:
  "\<exists>app. app_init True demo_pnet 1 = Some app \<and> app_start True True (Some app) = (0, Some demo_app)"
  by (simp add: demo_app_def app_init_def app_start_def demo_pnet_def)

lemma demo_fills: "fills_buffer demo_pnet"
  by (simp add: fills_buffer_def demo_pnet_def)

lemma demo_reach: "app_reach True demo_pnet 1 (app_loop_start demo_pnet demo_app)"
  using demo_app_start app_reach.start by metis

section \<open>Properties\<close>

text \<open>C3. In every state the application can reach, whatever the stack answers and in whatever order
  callbacks, timer ticks and rounds of the main loop come, the tables are well-formed, no assertion
  fails, and the next round of the main loop comes to its end.\<close>

theorem app_never_stuck:
  assumes "app_reach le pn ports app" and "fills_buffer pn"
  shows "app_inv (pn_consts pn) app \<and> (\<exists>app'. app_loop_round pn buttons app = Some app')"
  using inv_reach [OF assms] inv_loop_round [OF assms(2)] by blast

theorem app_never_stuck_witness:
  "app_inv demo_consts (main_timer_tick (app_loop_start demo_pnet demo_app))
   \<and> (\<exists>app'. app_loop_round demo_pnet (True, True) (main_timer_tick (app_loop_start demo_pnet demo_app)) = Some app')"
  using app_never_stuck [OF app_reach.step [OF demo_reach app_step.tick] demo_fills, of "(True, True)"]
  by (simp add: demo_pnet_def)

text \<open>C9. Setting an event refines an update of a map from AR numbers to event flags: an AR in the
  table gets the flag, an unknown one is entered if asked for and there is room, and no other entry
  changes; the main loop is woken in any case.\<close>

theorem event_set_refines:
  assumes "ar_wf (ars_of app)"
  shows "let view = ar_view (ars_of app); app' = app_event_set app arep event add
    in ar_view (ars_of app') =
         (case view arep of
            Some e \<Rightarrow> view(arep \<mapsto> e OR event)
          | None \<Rightarrow> if add \<and> arep \<noteq> UINT32_MAX \<and> length (ar_live (ars_of app)) < length (ars_of app)
                    then view(arep \<mapsto> event) else view)
       \<and> ar_wf (ars_of app') \<and> main_events app' = main_events app OR event"
proof -
  have "main_events (app_event_set app arep event add) = main_events app OR event"
    by (simp add: app_event_set_def Let_def split: prod.splits)
  then show ?thesis using event_set_view [OF assms] by (simp add: Let_def)
qed

theorem event_set_refines_witness:
  "ar_view (ars_of (app_event_set demo_app 7 APP_EVENT_READY_FOR_DATA True)) = [7 \<mapsto> APP_EVENT_READY_FOR_DATA]"
proof -
  obtain app where a: "app_init True demo_pnet 1 = Some app"
      "app_start True True (Some app) = (0, Some demo_app)" using demo_app_start by blast
  have d: "demo_app = app\<lparr>main_events := 0, main_timer := True\<rparr>" using a(2) by (simp add: app_start_def)
  have "app_inv demo_consts demo_app"
    unfolding d using inv_init [OF a(1)] by (simp add: demo_pnet_def)
  then have "ar_wf (ars_of demo_app)" by (rule app_invD(3))
  moreover have "ar_live (ars_of demo_app) = []" "length (ars_of demo_app) = 2"
    by (simp_all add: demo_app_def app_init_def app_start_def demo_pnet_def demo_consts_def ars_of_def
        ar_live_def ar_used_def numeral_2_eq_2)
  ultimately show ?thesis
    using event_set_refines [of demo_app 7 APP_EVENT_READY_FOR_DATA True]
    by (simp add: ar_view_def Let_def UINT32_MAX_def)
qed

lemma serve_abort:
  "serve (app_ar_abort_handler pn) event us app = (filter (\<lambda>a. ar_events a AND event = 0) us, app)"
  by (induction us) (simp_all add: app_ar_abort_handler_def)

lemma serve_ready:
  "fst (serve (app_ar_ready_for_data_handler pn) event us app) =
     map (\<lambda>a. if ar_events a AND event = 0 then a else a\<lparr>ar_events := ar_events a AND NOT event\<rparr>) us
   \<and> trace (snd (serve (app_ar_ready_for_data_handler pn) event us app)) =
     trace app @ map (\<lambda>a. Pnet_application_ready (ar_arep a)) (filter (\<lambda>a. ar_events a AND event \<noteq> 0) us)"
  by (induction us arbitrary: app) (simp_all add: app_ar_ready_for_data_handler_def)

text \<open>C13. Serving an abort removes exactly the ARs with a pending abort: the others keep their
  flags and their order, the table has no holes afterwards, and the wake-up flag is cleared.\<close>

theorem abort_removes_pending:
  assumes "ar_terminated (ars_of app)"
  shows "\<exists>app'. app_handle_event_ar app APP_EVENT_ABORT (app_ar_abort_handler pn) = Some app'
    \<and> ar_live (ars_of app') = filter (\<lambda>a. ar_events a AND APP_EVENT_ABORT = 0) (ar_live (ars_of app))
    \<and> ar_terminated (ars_of app') \<and> main_events app' = main_events app AND NOT APP_EVENT_ABORT
    \<and> trace app' = trace app"
  using abort.handle_event_ar [OF assms, of APP_EVENT_ABORT pn] by (auto simp: serve_abort)

definition demo_ars :: "ar_table" where
  "demo_ars = [\<lparr>ar_arep = 1, ar_events = APP_EVENT_ABORT\<rparr>, \<lparr>ar_arep = 2, ar_events = APP_EVENT_ALARM\<rparr>,
     \<lparr>ar_arep = 3, ar_events = APP_EVENT_ABORT OR APP_EVENT_READY_FOR_DATA\<rparr>,
     \<lparr>ar_arep = 4, ar_events = APP_EVENT_READY_FOR_DATA\<rparr>, \<lparr>ar_arep = UINT32_MAX, ar_events = 0\<rparr>]"

lemma demo_ars_live: "ar_live demo_ars = butlast demo_ars" "ar_terminated demo_ars"
  by (simp_all add: demo_ars_def ar_live_def ar_terminated_def ar_used_def UINT32_MAX_def)

theorem abort_removes_pending_witness:
  "\<exists>app'. app_handle_event_ar (set_ars demo_app demo_ars) APP_EVENT_ABORT (app_ar_abort_handler demo_pnet) = Some app'
    \<and> map ar_arep (ar_live (ars_of app')) = [2, 4]"
  using abort_removes_pending [of "set_ars demo_app demo_ars" demo_pnet] demo_ars_live
  by (auto simp: demo_ars_def app_events)

text \<open>C14. Every AR that waits for it is told once that the application is ready, in the order of the
  table, and serving the event again sends nothing.\<close>

theorem ready_sent_once:
  assumes "ar_terminated (ars_of app)"
  shows "\<exists>app'. app_handle_event_ar app APP_EVENT_READY_FOR_DATA (app_ar_ready_for_data_handler pn) = Some app'
    \<and> trace app' = trace app @ map (\<lambda>a. Pnet_application_ready (ar_arep a))
        (filter (\<lambda>a. ar_events a AND APP_EVENT_READY_FOR_DATA \<noteq> 0) (ar_live (ars_of app)))
    \<and> map ar_arep (ar_live (ars_of app')) = map ar_arep (ar_live (ars_of app))
    \<and> (\<exists>app''. app_handle_event_ar app' APP_EVENT_READY_FOR_DATA (app_ar_ready_for_data_handler pn) = Some app''
         \<and> trace app'' = trace app')"
proof -
  let ?e = "APP_EVENT_READY_FOR_DATA" and ?h = "app_ar_ready_for_data_handler pn"
  obtain T where T: "app_handle_event_ar app ?e ?h =
        Some (set_ars (snd (serve ?h ?e (ar_live (ars_of app)) (app\<lparr>main_events := main_events app AND NOT ?e\<rparr>))) T)"
      "ar_terminated T"
      "ar_live T = fst (serve ?h ?e (ar_live (ars_of app)) (app\<lparr>main_events := main_events app AND NOT ?e\<rparr>))"
    using ready.handle_event_ar [OF assms, of ?e pn] by blast
  let ?app' = "set_ars (snd (serve ?h ?e (ar_live (ars_of app)) (app\<lparr>main_events := main_events app AND NOT ?e\<rparr>))) T"
  have none: "filter (\<lambda>a. ar_events a AND ?e \<noteq> 0) (ar_live T) = []"
    unfolding T(3) by (auto simp: serve_ready filter_empty_conv and.assoc)
  obtain T' where T': "app_handle_event_ar ?app' ?e ?h =
        Some (set_ars (snd (serve ?h ?e (ar_live T) (?app'\<lparr>main_events := main_events ?app' AND NOT ?e\<rparr>))) T')"
    using ready.handle_event_ar [of ?app' ?e pn] T(2) by auto
  have "map ar_arep (ar_live T) = map ar_arep (ar_live (ars_of app))"
    unfolding T(3) by (simp add: serve_ready)
  with T(1) T' none show ?thesis
    by (intro exI [of _ ?app']) (simp add: serve_ready)
qed

theorem ready_sent_once_witness:
  "\<exists>app'. app_handle_event_ar (set_ars demo_app demo_ars) APP_EVENT_READY_FOR_DATA
        (app_ar_ready_for_data_handler demo_pnet) = Some app'
    \<and> trace app' = trace demo_app @ [Pnet_application_ready 3, Pnet_application_ready 4]"
  using ready_sent_once [of "set_ars demo_app demo_ars" demo_pnet] demo_ars_live
  by (auto simp: demo_ars_def app_events)

end
