(* ===== verification/SampleDevice.thy ===== *)
theory SampleDevice
  imports SampleTheorems
begin

text \<open>
  Properties of the device part of the Profinet application: plugging, finding and pulling
  subslots, parameters written and read back through the callbacks, the echo and digital data, the
  data LED, the order of the demonstration, and when an alarm is sent.
\<close>

section \<open>Subslots\<close>

text \<open>A plugged submodule is found under its number with the configuration it was plugged with
  and no other subslot changes; pulling it frees the position again and the number is unknown.\<close>

theorem plug_get_pull:
  assumes "api_sized k api"
    and plug: "app_utils_plug_submodule k api slot n ident (Some cfg) name callback tg = (Some p, api')"
    and new: "app_utils_subslot_get k api slot n = None"
    and "n \<noteq> 0" "unat slot < PNET_MAX_SUBSLOTS k"
  shows "app_utils_subslot_get k api' slot n = Some p
    \<and> submodule_id (deref api' p) = ident \<and> data_cfg (deref api' p) = cfg \<and> used (deref api' p)
    \<and> (\<forall>q. ptr_ok k q \<and> q \<noteq> p \<longrightarrow> deref api' q = deref api q)
    \<and> (\<exists>api''. app_utils_pull_submodule k api' slot n = (0, api'')
         \<and> app_utils_subslot_get k api'' slot n = None \<and> \<not> used (deref api'' p)
         \<and> (\<forall>q. ptr_ok k q \<and> q \<noteq> p \<longrightarrow> deref api'' q = deref api q))"
proof -
  note P = app_utils_plug_submodule_Some [OF assms(1) plug]
  let ?ss = "\<lparr>used = True, plugged = True, slot_nbr = slot, subslot_nbr = n, submodule_id = ident,
    submodule_name = name, data_cfg = cfg, indata_iocs = PNET_IOXS_BAD k,
    outdata_iops = PNET_IOXS_BAD k, cyclic_callback = callback, tag = tg\<rparr>"
  have api': "api' = assign api p ?ss" using P(4) by auto
  have sz': "api_sized k api'" unfolding api' by (rule api_sized_assign [OF assms(1) P(1)])
  note D = deref_assign [OF assms(1) P(1)]
  have d: "deref api' q = (if q = p then ?ss else deref api q)" if "ptr_ok k q" for q
    unfolding api' using D [OF that] .
  have slot: "unat slot < PNET_MAX_SLOTS k" using P(1,2) by (simp add: ptr_ok_def)
  have other: "subslot_nbr (deref api q) \<noteq> n" if "ptr_ok k q" "fst q = unat slot" for q
    using new that slot api_sizedD(2) [OF assms(1) slot]
    by (auto simp: app_utils_subslot_get_def find_subslot_None ptr_ok_def deref_def)
  have get: "app_utils_subslot_get k api' slot n = Some p"
    unfolding app_utils_subslot_get_Some [OF sz']
    using P(1,2) d [OF P(1)] other
    by (cases p) (auto simp: d ptr_ok_def)
  let ?api'' = "assign api' p subslot_zero"
  have pull: "app_utils_pull_submodule k api' slot n = (0, ?api'')"
    using assms(5) by (simp add: app_utils_pull_submodule_def get)
  have d2: "deref ?api'' q = (if q = p then subslot_zero else deref api q)" if "ptr_ok k q" for q
    using deref_assign [OF sz' P(1) that] d [OF that] by simp
  have "app_utils_subslot_get k ?api'' slot n = None"
  proof (rule ccontr)
    assume "app_utils_subslot_get k ?api'' slot n \<noteq> None"
    then obtain q where "app_utils_subslot_get k ?api'' slot n = Some q" by blast
    then have q: "ptr_ok k q" "fst q = unat slot" "subslot_nbr (deref ?api'' q) = n"
      using app_utils_subslot_get_Some [OF api_sized_assign [OF sz' P(1)]] by blast+
    then show False using other [OF q(1,2)] d2 [OF q(1)] assms(4) by (auto simp: subslot_zero_def split: if_splits)
  qed
  then show ?thesis
    using get d [OF P(1)] d pull d2 [OF P(1)] d2 by (auto simp: subslot_zero_def)
qed

definition demo_api :: app_api where
  "demo_api = main_api demo_app"

theorem plug_get_pull_witness:
  "\<exists>p api'. app_utils_plug_submodule demo_consts demo_api 1 1 0x132
        (Some \<lparr>data_dir = PNET_DIR_IO, insize = 1, outsize = 1\<rparr>) None True True = (Some p, api')
    \<and> app_utils_subslot_get demo_consts api' 1 1 = Some p"
proof -
  let ?cfg = "\<lparr>data_dir = PNET_DIR_IO, insize = 1, outsize = 1\<rparr>"
  let ?r = "app_utils_plug_submodule demo_consts demo_api 1 1 0x132 (Some ?cfg) None True True"
  have sz: "api_sized demo_consts demo_api"
    by (simp add: demo_api_def demo_app_def app_init_def app_start_def demo_pnet_def demo_consts_def
        api_sized_def slot_zero_def list_all_iff)
  have one: "get_slot demo_api 1 = slot_zero demo_consts"
    by (simp add: demo_api_def demo_app_def app_init_def app_start_def demo_pnet_def demo_consts_def get_slot_def)
  have r: "?r = (Some (1, 0), snd ?r)"
    by (simp add: app_utils_plug_submodule_def one [simplified] slot_zero_def demo_consts_def
        subslot_zero_def numeral_2_eq_2)
  have new: "app_utils_subslot_get demo_consts demo_api 1 1 = None"
    by (simp add: app_utils_subslot_get_def one [simplified] slot_zero_def demo_consts_def
        subslot_zero_def numeral_2_eq_2)
  have "app_utils_subslot_get demo_consts (snd ?r) 1 1 = Some (1, 0)"
    using plug_get_pull [OF sz r new] by (simp add: demo_consts_def)
  then show ?thesis using r by blast
qed

text \<open>In a slot whose number is not below \<open>PNET_MAX_SUBSLOTS\<close> nothing is ever pulled: when the
  controller expects another submodule in a subslot of it, the application keeps looking up the
  old one.\<close>

theorem replug_keeps_old_submodule:
  assumes "api_sized (pn_consts pn) (main_api app)"
    and "PNET_MAX_SUBSLOTS (pn_consts pn) \<le> unat slot"
    and get: "app_utils_subslot_get (pn_consts pn) (main_api app) slot n = Some p"
    and us: "list_all (\<lambda>j. used (deref (main_api app) (unat slot, j))) [0..<Suc (snd p)]"
  shows "let app' = snd (app_exp_submodule_ind pn api slot n mident ident cfg app)
    in app_utils_subslot_get (pn_consts pn) (main_api app') slot n = Some p
       \<and> deref (main_api app') p = deref (main_api app) p"
proof -
  let ?k = "pn_consts pn"
  have pull: "snd (app_utils_pull_submodule ?k api0 slot n) = api0" for api0
    using assms(2) by (simp add: app_utils_pull_submodule_def)
  obtain c name cb where plan: "submodule_plan ?k ident cfg = (c, name, cb)"
    by (cases "submodule_plan ?k ident cfg")
  have ex: "main_api (snd (app_exp_submodule_ind pn api slot n mident ident cfg app)) =
      main_api app \<or> main_api (snd (app_exp_submodule_ind pn api slot n mident ident cfg app)) =
      snd (app_utils_plug_submodule ?k (main_api app) slot n ident (Some c) (Some name) cb True)"
    by (simp add: app_exp_submodule_ind_def plan Let_def case_prod_beta pull)
  note G = get [unfolded app_utils_subslot_get_Some [OF assms(1)]]
  have old: "used (deref (main_api app) (unat slot, j))" if "j \<le> snd p" for j
    using us that by (auto simp: list_all_iff)
  have "app_utils_subslot_get ?k api' slot n = Some p \<and> deref api' p = deref (main_api app) p"
    if r: "app_utils_plug_submodule ?k (main_api app) slot n ident (Some c) (Some name) cb True = (Some q, api')"
    for q api'
  proof -
    note P = app_utils_plug_submodule_Some [OF assms(1) r]
    obtain ss where api': "api' = assign (main_api app) q ss" using P(4) by auto
    note D = deref_assign [OF assms(1) P(1), of _ ss]
    have q: "snd p < snd q" using old [of "snd q"] P(2,3) by (metis not_less prod.collapse)
    have before: "deref api' (unat slot, j) = deref (main_api app) (unat slot, j)" if "j \<le> snd p" for j
      unfolding api' using D [of "(unat slot, j)"] that q G P(1) by (auto simp: ptr_ok_def)
    then show ?thesis
      using G app_utils_subslot_get_Some [OF api_sized_assign [OF assms(1) P(1), of ss]]
      by (simp add: api') (metis before api' le_refl less_imp_le_nat prod.collapse)
  qed
  then have "app_utils_subslot_get ?k (snd (app_utils_plug_submodule ?k (main_api app) slot n ident (Some c) (Some name) cb True)) slot n = Some p
      \<and> deref (snd (app_utils_plug_submodule ?k (main_api app) slot n ident (Some c) (Some name) cb True)) p = deref (main_api app) p"
    using get app_utils_plug_submodule_None
    by (cases "app_utils_plug_submodule ?k (main_api app) slot n ident (Some c) (Some name) cb True";
        cases "fst (app_utils_plug_submodule ?k (main_api app) slot n ident (Some c) (Some name) cb True)")
      fastforce+
  with ex get show ?thesis by (auto simp: Let_def)
qed

definition demo_plugged :: "unit app_data" where
  "demo_plugged = snd (app_exp_submodule_ind demo_pnet 0 2 1 0x30 0x130
     \<lparr>data_dir = PNET_DIR_INPUT, insize = 1, outsize = 0\<rparr> demo_app)"

lemma demo_plugged_facts:
  "app_utils_subslot_get demo_consts (main_api demo_plugged) 2 1 = Some (2, 0)"
  "used (deref (main_api demo_plugged) (2, 0))"
  "submodule_id (deref (main_api demo_plugged) (2, 0)) = 0x130"
  by code_simp+

theorem replug_keeps_old_submodule_witness:
  "submodule_id (deref (main_api (snd (app_exp_submodule_ind demo_pnet 0 2 1 0x31 0x131
      \<lparr>data_dir = PNET_DIR_OUTPUT, insize = 0, outsize = 1\<rparr> demo_plugged))) (2, 0)) = 0x130"
proof -
  have k: "pn_consts demo_pnet = demo_consts" by (simp add: demo_pnet_def)
  have "app_inv demo_consts demo_plugged"
  proof -
    obtain app where a: "app_init True demo_pnet 1 = Some app"
        "app_start True True (Some app) = (0, Some demo_app)" using demo_app_start by blast
    have "demo_app = app\<lparr>main_events := 0, main_timer := True\<rparr>" using a(2) by (simp add: app_start_def)
    then have "app_inv (pn_consts demo_pnet) demo_app" using inv_init [OF a(1)] app_inv_events(1,6) by metis
    then show ?thesis unfolding demo_plugged_def k [symmetric] by (rule inv_exp_submodule)
  qed
  then have "api_sized demo_consts (main_api demo_plugged)" by (rule app_invD(1))
  then show ?thesis
    using replug_keeps_old_submodule [of demo_pnet demo_plugged 2 1 "(2, 0)"] demo_plugged_facts
    by (simp add: k Let_def) (simp add: demo_consts_def)
qed

section \<open>Parameters\<close>

lemma parameter_write_read:
  assumes "app_gsdml_get_parameter_cfg k ident index = Some par" "4 \<le> length data" "gp_length par \<le> snd buf"
    and "mem_ok m"
  shows "\<exists>m'. app_data_write_parameter k m ident index data (gp_length par) = (0, m')
    \<and> app_data_read_parameter k m' ident index buf = (0, Some (take 4 data), 4)"
  using assms app_gsdml_get_parameter_cfg_length [OF assms(1)]
  by (auto simp: app_data_write_parameter_def app_data_read_parameter_def gsdml_consts memcpy_def
      mem_ok_def not_less)

text \<open>C28. A parameter the controller writes is what it reads back: for every subslot whose submodule
  has the parameter, writing four bytes succeeds without an error status and reading then returns
  these bytes.\<close>

theorem write_then_read:
  assumes "app_utils_subslot_get (pn_consts pn) (main_api app) slot n = Some p"
    and "app_gsdml_get_parameter_cfg (pn_consts pn) (submodule_id (deref (main_api app) p)) (ucast idx) = Some par"
    and "4 \<le> length data" "gp_length par \<le> snd buf" "mem_ok (mem app)"
  shows "\<exists>app'. app_write_ind pn slot n idx (gp_length par) data status app = ((0, status), app')
    \<and> app_read_ind pn slot n idx buf status app' = (0, (Some (take 4 data), 4), status)"
  using parameter_write_read [OF assms(2-5)] assms(1)
  by (auto simp: app_write_ind_def app_read_ind_def)

text \<open>A request for a parameter the submodule does not have, or with a wrong length, changes
  nothing and reports the write error.\<close>

theorem write_refused:
  assumes "app_utils_subslot_get (pn_consts pn) (main_api app) slot n = None
    \<or> (\<exists>p. app_utils_subslot_get (pn_consts pn) (main_api app) slot n = Some p
        \<and> (case app_gsdml_get_parameter_cfg (pn_consts pn) (submodule_id (deref (main_api app) p)) (ucast idx) of
             None \<Rightarrow> True | Some par \<Rightarrow> len \<noteq> gp_length par))"
  shows "app_write_ind pn slot n idx len data status app = ((-1, write_error (pn_errs pn)), app)"
  using assms
  by (auto simp: app_write_ind_def app_data_write_parameter_def split: option.splits)

theorem write_refused_witness:
  "fst (fst (app_write_ind demo_pnet 2 1 123 4 [0, 0, 0, 1] (write_error demo_errs) demo_plugged)) = -1"
proof -
  have "app_gsdml_get_parameter_cfg demo_consts (submodule_id (deref (main_api demo_plugged) (2, 0))) 123 = None"
    by code_simp
  then show ?thesis
    using write_refused [where pn = demo_pnet and app = demo_plugged and slot = 2 and n = 1 and idx = 123
        and len = 4 and data = "[0, 0, 0, 1]" and status = "write_error demo_errs"]
      demo_plugged_facts
    by (simp add: demo_pnet_def)
qed

definition demo_echo :: "unit app_data" where
  "demo_echo = snd (app_exp_submodule_ind demo_pnet 0 1 1 0x40 0x140
     \<lparr>data_dir = PNET_DIR_IO, insize = 8, outsize = 8\<rparr> demo_app)"

lemma demo_echo_facts:
  "app_utils_subslot_get demo_consts (main_api demo_echo) 1 1 = Some (1, 0)"
  "app_gsdml_get_parameter_cfg demo_consts (submodule_id (deref (main_api demo_echo) (1, 0))) 125
     = Some \<lparr>gp_index = 125, gp_name = ''Echo gain setting'', gp_length = 4\<rparr>"
  "mem_ok (mem demo_echo)"
  by code_simp+

theorem write_then_read_witness:
  "\<exists>app'. app_write_ind demo_pnet 1 1 125 4 [0, 0, 0, 2] (write_error demo_errs) demo_echo
        = ((0, write_error demo_errs), app')
    \<and> app_read_ind demo_pnet 1 1 125 (None, 4) (write_error demo_errs) app'
        = (0, (Some [0, 0, 0, 2], 4), write_error demo_errs)"
  using write_then_read [of demo_pnet demo_echo 1 1 "(1, 0)" 125
      "\<lparr>gp_index = 125, gp_name = ''Echo gain setting'', gp_length = 4\<rparr>" "[0, 0, 0, 2]" "(None, 4)"
      "write_error demo_errs"] demo_echo_facts
  by (simp add: demo_pnet_def)

section \<open>Process data\<close>

text \<open>The digital input byte carries a counter and the button: its lower seven bits are those of
  the counter, its upper bit is the button, and the counter advances by one, from 255 to 0.\<close>

theorem digital_input_byte:
  assumes "ident \<in> {APP_GSDML_SUBMOD_ID_DIGITAL_IN, APP_GSDML_SUBMOD_ID_DIGITAL_IN_OUT}"
  shows "\<exists>d m'. app_data_get_input_data k nan m ident button = (Some ([d], 1, PNET_IOXS_GOOD k), m')
    \<and> unat d mod 128 = unat (counter m) mod 128 \<and> bit d 7 = button
    \<and> unat (counter m') = (unat (counter m) + 1) mod 256"
proof -
  let ?d = "if button then counter m OR 0x80 else counter m AND 0x7F"
  have eq: "bit ?d i = bit (counter m) i" if "i < 7" for i
  proof -
    have "bit (0x80 :: u8) i = False" "bit (0x7F :: u8) i = True"
      using that by (auto simp: numeral_eq_Suc less_Suc_eq bit_Suc bit_0)
    then show ?thesis by (simp add: bit_or_iff bit_and_iff)
  qed
  have "take_bit 7 ?d = take_bit 7 (counter m)"
    by (rule bit_word_eqI) (use eq in \<open>auto simp: bit_take_bit_iff\<close>)
  then have "take_bit 7 (unat ?d) = take_bit 7 (unat (counter m))"
    by (metis unsigned_take_bit_eq)
  then have low: "unat ?d mod 128 = unat (counter m) mod 128"
    by (simp only: take_bit_eq_mod) simp
  have "bit (0x80 :: u8) 7" "\<not> bit (0x7F :: u8) 7" by simp_all
  then have high: "bit ?d 7 = button" by (simp add: bit_or_iff bit_and_iff)
  have "unat (counter m + 1) = (unat (counter m) + 1) mod 256" by (simp add: unat_word_ariths)
  then show ?thesis
    using assms low high
    by (simp add: app_data_get_input_data_def gsdml_consts Let_def)
qed

theorem digital_input_byte_witness:
  "\<exists>d m'. app_data_get_input_data demo_consts (\<lambda>x y. x) (app_mem_init True) 0x130 True
      = (Some ([d], 1, 0x80), m') \<and> bit d 7"
  using digital_input_byte [where ident = "0x130" and k = demo_consts and nan = "\<lambda>x y. x"
      and m = "app_mem_init True" and button = True]
  by (auto simp: gsdml_consts demo_consts_def)

lemma to_be32_be32:
  assumes "length bs = 4"
  shows "to_be32 (be32 bs) = bs"
proof -
  obtain a b c d where bs: "bs = [a, b, c, d]"
    using assms by (auto simp: length_Suc_conv numeral_eq_Suc)
  let ?w = "push_bit 8 (push_bit 8 (push_bit 8 (ucast a) OR ucast b) OR ucast c) OR ucast d :: u32"
  have "ucast (drop_bit 24 ?w) = a" "ucast (drop_bit 16 ?w) = b" "ucast (drop_bit 8 ?w) = c" "ucast ?w = d"
    by (rule bit_word_eqI; auto simp: bit_or_iff bit_push_bit_iff bit_ucast_iff bit_drop_bit_eq
        dest: bit_imp_le_length)+
  then show ?thesis by (simp add: bs be32_def to_be32_def)
qed

text \<open>With a gain of one the echo submodule returns the data it was sent, the integer and the
  floating-point number, unless the latter is not a number.\<close>

theorem echo_identity:
  assumes "mem_ok m" and "app_param_echo_gain m = to_be32 1"
    and "float_exp (be32 (take 4 (echo_outputdata m))) < 255 \<or> float_frac (be32 (take 4 (echo_outputdata m))) = 0"
  shows "\<exists>m'. app_data_get_input_data k nan m APP_GSDML_SUBMOD_ID_ECHO button
    = (Some (echo_outputdata m, 8, PNET_IOXS_GOOD k), m')"
proof -
  have len: "length (echo_outputdata m) = 8" using assms(1) by (simp add: mem_ok_def)
  have "to_be32 (be32 (take 4 (echo_outputdata m))) = take 4 (echo_outputdata m)"
      "to_be32 (be32 (drop 4 (echo_outputdata m))) = drop 4 (echo_outputdata m)"
    by (intro to_be32_be32; simp add: len)+
  then show ?thesis
    using assms(2) float_times_one [OF assms(3), of nan]
    by (simp add: app_data_get_input_data_def gsdml_consts Let_def)
qed

theorem echo_identity_witness:
  "\<exists>m'. app_data_get_input_data demo_consts (\<lambda>x y. x)
      ((app_mem_init True)\<lparr>app_param_echo_gain := to_be32 1, echo_outputdata := [0x40, 0x49, 0, 0, 0, 0, 1, 2]\<rparr>)
      APP_GSDML_SUBMOD_ID_ECHO False = (Some ([0x40, 0x49, 0, 0, 0, 0, 1, 2], 8, 0x80), m')"
proof -
  let ?m = "(app_mem_init True)\<lparr>app_param_echo_gain := to_be32 1, echo_outputdata := [0x40, 0x49, 0, 0, 0, 0, 1, 2]\<rparr>"
  have "mem_ok ?m" using mem_ok_init [of True] by (simp add: mem_ok_def)
  moreover have "float_exp (be32 (take 4 (echo_outputdata ?m))) < 255"
    by (simp add: be32_def float_exp_def)
  ultimately show ?thesis
    using echo_identity [where m = ?m and k = demo_consts and nan = "\<lambda>x y. x" and button = False] by (simp add: demo_consts_def)
qed

text \<open>Until the controller writes the gain, a little-endian device multiplies by
  16777216 instead of 1, since the initial value is not in network byte order.\<close>

theorem echo_default_gain:
  fixes out :: "u8 list" and le :: bool
  defines "m \<equiv> (app_mem_init le)\<lparr>echo_outputdata := out\<rparr>"
  shows "\<exists>fl m'. app_data_get_input_data k nan m APP_GSDML_SUBMOD_ID_ECHO button
    = (Some (fl @ to_be32 (be32 (drop 4 out) * (if le then 16777216 else 1)), 8, PNET_IOXS_GOOD k), m')"
proof -
  have "be32 (app_param_echo_gain m) = (if le then 16777216 else 1)"
    by (simp add: m_def app_mem_init_def host_bytes_def to_be32_def be32_def)
  moreover have "echo_outputdata m = out" by (simp add: m_def)
  ultimately show ?thesis
    by (simp add: app_data_get_input_data_def gsdml_consts Let_def)
qed

text \<open>The data LED is only switched when its state changes: in every reachable state the states
  it was set to alternate, and the last one is the state remembered.\<close>

theorem data_led_alternates:
  assumes "app_reach le pn ports app" and "fills_buffer pn"
  shows "successively (\<noteq>) (data_led (mem app))
    \<and> (data_led (mem app) = [] \<or> last (data_led (mem app)) = previous_led_state (mem app))"
  using app_invD(5) [OF inv_reach [OF assms]] by (auto simp: mem_ok_def led_ok_def)

theorem data_led_alternates_witness:
  "successively (\<noteq>) (data_led (mem (app_loop_start demo_pnet demo_app)))"
  using data_led_alternates [OF demo_reach demo_fills] by simp

end
