(* ===== verification/SampleDemo.thy ===== *)
theory SampleDemo
  imports SampleTheorems
begin

text \<open>
  Properties of the main loop of the Profinet application over several rounds: the cycle of the
  demonstration, the rate at which the buttons are read, and the rule that at most one process
  alarm is outstanding.
\<close>

section \<open>The cycle of the demonstration\<close>

lemma demo_action_frame:
  "main_api (demo_action pn slot subslot st app) = main_api app"
  "alarm_demo_state (demo_action pn slot subslot st app) = alarm_demo_state app"
  by (cases st; simp add: demo_action_def Let_def)+

lemma demo_step:
  assumes "find_input_subslot (pn_consts pn) (main_api app) = Some p"
  shows "main_api (app_handle_demo_pnet_api pn app) = main_api app"
    "alarm_demo_state (app_handle_demo_pnet_api pn app) = next_demo_state (alarm_demo_state app)"
  using assms by (simp_all add: app_handle_demo_pnet_api_def Let_def demo_action_frame)

lemma demo_presses:
  assumes "find_input_subslot (pn_consts pn) (main_api app) = Some p"
  shows "main_api ((app_handle_demo_pnet_api pn ^^ n) app) = main_api app
    \<and> alarm_demo_state ((app_handle_demo_pnet_api pn ^^ n) app) = (next_demo_state ^^ n) (alarm_demo_state app)"
proof (induction n)
  case (Suc n)
  then show ?case
    using demo_step [of pn "(app_handle_demo_pnet_api pn ^^ n) app" p] assms by simp
qed simp

lemma next_demo_state_cycle: "(next_demo_state ^^ 11) st = st"
  by (cases st) (simp_all add: numeral_eq_Suc)

lemma next_demo_state_visits: "\<exists>n < 11. (next_demo_state ^^ n) st = st'"
proof -
  define ns where "ns = [0, Suc 0, Suc (Suc 0),
    Suc (Suc (Suc 0)), Suc (Suc (Suc (Suc 0))), Suc (Suc (Suc (Suc (Suc 0)))),
    Suc (Suc (Suc (Suc (Suc (Suc 0))))), Suc (Suc (Suc (Suc (Suc (Suc (Suc 0)))))), Suc (Suc (Suc (Suc (Suc (Suc (Suc (Suc 0))))))),
    Suc (Suc (Suc (Suc (Suc (Suc (Suc (Suc (Suc 0)))))))), Suc (Suc (Suc (Suc (Suc (Suc (Suc (Suc (Suc (Suc 0)))))))))]"
  have "list_ex (\<lambda>n. (next_demo_state ^^ n) st = st') ns"
    by (cases st; cases st') (simp_all add: ns_def)
  moreover have "set ns \<subseteq> {..<11}" by (simp add: ns_def)
  ultimately show ?thesis by (auto simp: list_ex_iff)
qed

text \<open>The demonstration goes through all its eleven steps in turn: as long as a digital input is
  plugged, every step is reached within eleven presses of the button and the eleventh press leads
  back to the first step.\<close>

theorem demo_cycles:
  assumes "find_input_subslot (pn_consts pn) (main_api app) = Some p"
  shows "alarm_demo_state ((app_handle_demo_pnet_api pn ^^ 11) app) = alarm_demo_state app
    \<and> (\<exists>n < 11. alarm_demo_state ((app_handle_demo_pnet_api pn ^^ n) app) = st)"
  using demo_presses [OF assms] next_demo_state_cycle next_demo_state_visits by metis

definition demo_input :: "unit app_data" where
  "demo_input = snd (app_exp_submodule_ind demo_pnet 0 1 1 0x30 0x130
     \<lparr>data_dir = PNET_DIR_INPUT, insize = 1, outsize = 0\<rparr> demo_app)"

lemma demo_input_found: "find_input_subslot demo_consts (main_api demo_input) = Some (1, 0)"
  by code_simp

theorem demo_cycles_witness:
  "\<exists>n < 11. alarm_demo_state ((app_handle_demo_pnet_api demo_pnet ^^ n) demo_input) = APP_DEMO_STATE_ABORT_AR"
  using demo_cycles [of demo_pnet demo_input "(1, 0)" APP_DEMO_STATE_ABORT_AR] demo_input_found
  by (simp add: demo_pnet_def)

section \<open>Reading the buttons\<close>

lemma update_button_states_wait:
  assumes "unat (buttons_tick_counter app) < 10"
  shows "update_button_states b app = app\<lparr>buttons_tick_counter := buttons_tick_counter app + 1\<rparr>"
    "unat (buttons_tick_counter app + 1) = Suc (unat (buttons_tick_counter app))"
  using assms
  by (simp_all add: update_button_states_def Let_def APP_TICKS_READ_BUTTONS_def word_less_nat_alt unat_word_ariths)

lemma update_button_states_read:
  assumes "unat (buttons_tick_counter app) = 10"
  shows "update_button_states b app =
    app\<lparr>button1_pressed := fst b, button2_pressed := snd b, buttons_tick_counter := 0\<rparr>"
  using assms
  by (simp add: update_button_states_def Let_def APP_TICKS_READ_BUTTONS_def word_less_nat_alt unat_word_ariths)

text \<open>The buttons are read in every eleventh tick, although the constant and the comment say ten:
  after ten ticks the states are still the old ones, after the eleventh they are the ones read.\<close>

theorem buttons_read_every_eleventh_tick:
  assumes "buttons_tick_counter app = 0" and "n \<le> 10"
  shows "button1_pressed ((update_button_states b ^^ n) app) = button1_pressed app
    \<and> button2_pressed ((update_button_states b ^^ n) app) = button2_pressed app
    \<and> button1_pressed ((update_button_states b ^^ 11) app) = fst b
    \<and> button2_pressed ((update_button_states b ^^ 11) app) = snd b
    \<and> buttons_tick_counter ((update_button_states b ^^ 11) app) = 0"
proof -
  have *: "unat (buttons_tick_counter ((update_button_states b ^^ m) app)) = m
      \<and> button1_pressed ((update_button_states b ^^ m) app) = button1_pressed app
      \<and> button2_pressed ((update_button_states b ^^ m) app) = button2_pressed app" if "m \<le> 10" for m
    using that
  proof (induction m)
    case 0
    then show ?case by (simp add: assms(1))
  next
    case (Suc m)
    have "unat (buttons_tick_counter ((update_button_states b ^^ m) app)) < 10" using Suc by simp
    from update_button_states_wait [OF this] show ?case using Suc by simp
  qed
  let ?t = "(update_button_states b ^^ 10) app"
  have "unat (buttons_tick_counter ?t) = 10" using * [of 10] by simp
  note update_button_states_read [OF this, of b]
  moreover have "(update_button_states b ^^ Suc 10) app = update_button_states b ?t"
    by (simp only: funpow.simps o_apply)
  then have "(update_button_states b ^^ 11) app = update_button_states b ?t" by simp
  ultimately show ?thesis using * [OF assms(2)] by simp
qed

theorem buttons_read_every_eleventh_tick_witness:
  "\<not> button1_pressed ((update_button_states (True, False) ^^ 10) demo_app)
   \<and> button1_pressed ((update_button_states (True, False) ^^ 11) demo_app)"
proof -
  have "buttons_tick_counter demo_app = 0" "\<not> button1_pressed demo_app"
    by (simp_all add: demo_app_def app_init_def app_start_def demo_pnet_def)
  then show ?thesis using buttons_read_every_eleventh_tick [of demo_app 10 "(True, False)"] by simp
qed

section \<open>One alarm at a time\<close>

fun is_alarm :: "pnet_call \<Rightarrow> bool" where
  "is_alarm (Pnet_alarm_send_process_alarm _ _ _ _ _ _ _) = True"
| "is_alarm _ = False"

definition alarms :: "'n app_data \<Rightarrow> nat" where
  "alarms app = length (filter is_alarm (trace app))"

text \<open>A part of the program that neither sends an alarm nor changes the permission to.\<close>

definition quiet :: "'n app_data \<Rightarrow> 'n app_data \<Rightarrow> bool" where
  "quiet app app' = (alarms app' = alarms app \<and> alarm_allowed app' = alarm_allowed app)"

lemma quiet_refl [simp]: "quiet app app"
  by (simp add: quiet_def)

lemma quiet_trans: "\<lbrakk>quiet a b; quiet b c\<rbrakk> \<Longrightarrow> quiet a c"
  by (simp add: quiet_def)

lemma quiet_pcall: "\<not> is_alarm c \<Longrightarrow> quiet app (snd (pcall pn c app))"
  by (simp add: quiet_def alarms_def)

lemma quiet_fields [simp]:
  "quiet a (b\<lparr>main_events := e\<rparr>) = quiet a b" "quiet a (b\<lparr>mem := m\<rparr>) = quiet a b"
  "quiet a (b\<lparr>main_api := p\<rparr>) = quiet a b" "quiet a (b\<lparr>net := n\<rparr>) = quiet a b"
  "quiet a (b\<lparr>alarm_arg := g\<rparr>) = quiet a b" "quiet a (b\<lparr>alarm_payload := bs\<rparr>) = quiet a b"
  "quiet a (b\<lparr>button1_pressed := x\<rparr>) = quiet a b" "quiet a (b\<lparr>button2_pressed := x\<rparr>) = quiet a b"
  "quiet a (b\<lparr>button2_pressed_previous := x\<rparr>) = quiet a b"
  "quiet a (b\<lparr>buttons_tick_counter := c\<rparr>) = quiet a b"
  "quiet a (b\<lparr>process_data_tick_counter := c\<rparr>) = quiet a b"
  "quiet a (b\<lparr>alarm_demo_state := st\<rparr>) = quiet a b" "quiet a (set_ars b T) = quiet a b"
  by (simp_all add: quiet_def alarms_def set_ars_def)

lemma quiet_pcallI: "\<lbrakk>quiet a b; \<not> is_alarm c\<rbrakk> \<Longrightarrow> quiet a (snd (pcall pn c b))"
  by (rule quiet_trans [OF _ quiet_pcall])

lemma quiet_event_set [simp]: "quiet a (app_event_set b arep event add) = quiet a b"
  by (simp add: app_event_set_def Let_def split: prod.splits)

lemma quiet_defaults [simp]: "quiet a (app_set_outputs_default_value b) = quiet a b"
  by (simp add: app_set_outputs_default_value_def)

lemma quiet_fold: "(\<And>x s. quiet s (f x s)) \<Longrightarrow> quiet s (fold f xs s)"
proof (induction xs arbitrary: s)
  case (Cons x xs)
  then show ?case using quiet_trans by fastforce
qed simp

lemma quiet_set_initial: "quiet app (app_set_initial_data_and_ioxs pn app)"
  unfolding app_set_initial_data_and_ioxs_def
proof (rule quiet_fold)
  fix p and s :: "'a app_data"
  have "quiet s (snd (initial_data pn ss s))" for ss
    by (simp add: initial_data_def split: prod.splits option.splits)
  then show "quiet s (set_initial_subslot pn p s)"
    by (auto simp: set_initial_subslot_def Let_def case_prod_beta intro!: quiet_pcallI)
qed

lemma quiet_serve: "(\<And>s r. quiet s (snd (h s r))) \<Longrightarrow> quiet s (snd (serve h event us s))"
proof (induction us arbitrary: s)
  case (Cons a us)
  then show ?case using quiet_trans by fastforce
qed simp

lemma quiet_output: "cyclic_output pn p app = Some app' \<Longrightarrow> quiet app app'"
  by (auto simp: cyclic_output_def Let_def split: if_splits prod.splits)

lemma quiet_input: "quiet app (cyclic_input pn p app)"
  by (auto simp: cyclic_input_def Let_def case_prod_beta intro!: quiet_pcallI)

lemma quiet_poll: "cyclic_poll pn ps app = Some app' \<Longrightarrow> quiet app app'"
proof (induction ps arbitrary: app)
  case (Cons p ps)
  show ?case
  proof (cases "plugged (deref (main_api app) p) \<and> cyclic_callback (deref (main_api app) p)")
    case True
    with Cons.prems obtain b where b: "app_cyclic_data_callback pn p app = Some b" "cyclic_poll pn ps b = Some app'"
      by (auto split: bind_splits)
    have "quiet app b"
    proof (cases "tag (deref (main_api app) p)")
      case True
      with b(1) obtain c where c: "cyclic_output pn p app = Some c" "b = cyclic_input pn p c"
        by (auto simp: app_cyclic_data_callback_def split: bind_splits)
      show ?thesis unfolding c(2) by (rule quiet_trans [OF quiet_output [OF c(1)] quiet_input])
    next
      case False
      with b(1) show ?thesis by (simp add: app_cyclic_data_callback_def)
    qed
    then show ?thesis using Cons.IH [OF b(2)] quiet_trans by blast
  next
    case False
    then show ?thesis using Cons by auto
  qed
qed simp

lemma quiet_cyclic: "app_handle_cyclic_data pn app = Some app' \<Longrightarrow> quiet app app'"
  unfolding app_handle_cyclic_data_def app_utils_cyclic_data_poll_def Let_def
  by (auto split: if_splits dest!: quiet_poll simp: quiet_def alarms_def)

text \<open>What the demonstration may do to it: send one alarm if it is permitted, and then no more.\<close>

definition at_most_one :: "'n app_data \<Rightarrow> 'n app_data \<Rightarrow> bool" where
  "at_most_one app app' =
     (quiet app app' \<or> (alarm_allowed app \<and> alarms app' = Suc (alarms app) \<and> \<not> alarm_allowed app'))"

lemma demo_at_most_one: "at_most_one app (app_handle_demo_pnet_api pn app)"
proof -
  have "at_most_one app (demo_action pn slot subslot st app)" for slot subslot st
  proof (cases "st = APP_DEMO_STATE_ALARM_SEND")
    case True
    then show ?thesis
      by (auto simp: demo_action_def Let_def at_most_one_def alarms_def)
  next
    case False
    then have "quiet app (demo_action pn slot subslot st app)"
      by (cases st) (auto simp: demo_action_def Let_def intro!: quiet_pcallI)
    then show ?thesis by (simp add: at_most_one_def)
  qed
  moreover have "at_most_one a (b\<lparr>alarm_demo_state := st\<rparr>) = at_most_one a b" for a b :: "'a app_data" and st
    by (simp add: at_most_one_def alarms_def)
  ultimately show ?thesis
    by (simp add: app_handle_demo_pnet_api_def Let_def at_most_one_def split: option.splits)
qed

lemma timer_at_most_one:
  assumes "app_handle_event_timer pn buttons app = Some app'"
  shows "at_most_one app app'"
proof -
  define a where "a = update_button_states buttons (app\<lparr>main_events := main_events app AND NOT APP_EVENT_TIMER\<rparr>)"
  have qa: "quiet app a" by (simp add: a_def update_button_states_def Let_def)
  from assms obtain b where
    b: "(if app_is_connected_to_controller a then app_handle_cyclic_data pn a else Some a) = Some b"
      "app' = snd (pcall pn Pnet_handle_periodic
        ((if button2_pressed b \<and> \<not> button2_pressed_previous b then app_handle_demo_pnet_api pn b else b)
          \<lparr>button2_pressed_previous := button2_pressed (if button2_pressed b \<and> \<not> button2_pressed_previous b
             then app_handle_demo_pnet_api pn b else b)\<rparr>))"
    unfolding app_handle_event_timer_def Let_def a_def [symmetric] by (auto split: bind_splits)
  have qb: "quiet app b" using b(1) quiet_trans [OF qa] quiet_cyclic by (auto split: if_splits intro: qa)
  define c where "c = (if button2_pressed b \<and> \<not> button2_pressed_previous b then app_handle_demo_pnet_api pn b else b)"
  have "at_most_one b c" using demo_at_most_one [of b pn] by (simp add: c_def at_most_one_def)
  then have "at_most_one app c" using qb by (auto simp: at_most_one_def quiet_def)
  moreover have "quiet c app'" unfolding b(2) c_def [symmetric] by (rule quiet_pcallI) simp_all
  ultimately show ?thesis by (auto simp: at_most_one_def quiet_def)
qed

context ar_handler
begin

lemma handle_event_quiet:
  assumes "ar_terminated (ars_of app)" "app_handle_event_ar app event h = Some app'"
    and "\<And>s r. quiet s (snd (h s r))"
  shows "quiet app app'"
proof -
  let ?app = "app\<lparr>main_events := main_events app AND NOT event\<rparr>"
  obtain T where "app' = set_ars (snd (serve h event (ar_live (ars_of app)) ?app)) T"
    using handle_event_ar [OF assms(1), of event] assms(2) by auto
  moreover have "quiet ?app (snd (serve h event (ar_live (ars_of app)) ?app))"
    by (rule quiet_serve) (rule assms(3))
  ultimately show ?thesis by (simp add: quiet_def alarms_def set_ars_def)
qed

end

lemma round_at_most_one:
  assumes inv: "app_inv (pn_consts pn) app" and "fills_buffer pn" and r: "app_loop_round pn buttons app = Some app'"
  shows "alarms app' = alarms app
    \<or> (alarm_allowed app \<and> alarms app' = Suc (alarms app)
        \<and> (alarm_allowed app' \<longrightarrow> main_events app AND APP_EVENT_ABORT \<noteq> 0))"
proof -
  let ?k = "pn_consts pn" and ?f = "app_event_wait app loop_mask"
  have t: "ar_terminated (ars_of a)" if "app_inv ?k a" for a :: "'a app_data"
    using app_invD(3) [OF that] by (simp add: ar_wf_def)
  have step: "app_inv ?k b \<and> quiet a b"
    if "app_inv ?k a" "when_flag ?f e (\<lambda>a. app_handle_event_ar a e h) a = Some b"
      "ar_handler_inv h" "\<And>s r. quiet s (snd (h s r))" for a b e and h :: "'a app_data \<Rightarrow> u32 \<Rightarrow> bool \<times> 'a app_data"
    using that ar_handler_inv.handle_event_inv [OF that(3,1), of e]
      ar_handler.handle_event_quiet [OF ar_handler_inv.axioms(1) [OF that(3)] t [OF that(1)]]
    by (auto simp: when_flag_def split: if_splits)
  from r obtain a b c d where
      A: "when_flag ?f APP_EVENT_READY_FOR_DATA
            (\<lambda>a. app_handle_event_ar a APP_EVENT_READY_FOR_DATA (app_ar_ready_for_data_handler pn)) app = Some a"
    and B: "when_flag ?f APP_EVENT_ALARM (\<lambda>a. app_handle_event_ar a APP_EVENT_ALARM (app_ar_alarm_handler pn)) a = Some b"
    and C: "when_flag ?f APP_EVENT_TIMER (app_handle_event_timer pn buttons) b = Some c"
    and D: "when_flag ?f APP_EVENT_SM_RELEASED
            (\<lambda>a. app_handle_event_ar a APP_EVENT_SM_RELEASED (app_ar_sm_released_handler pn)) c = Some d"
    and E: "when_flag ?f APP_EVENT_ABORT (\<lambda>a. map_option (\<lambda>a. a\<lparr>alarm_allowed := True\<rparr>)
            (app_handle_event_ar a APP_EVENT_ABORT (app_ar_abort_handler pn))) d = Some app'"
    unfolding app_loop_round_def Let_def by (auto split: bind_splits)
  have a: "app_inv ?k a \<and> quiet app a"
    by (rule step [OF inv A]) (unfold_locales, simp add: app_ar_ready_for_data_handler_def quiet_pcall)
  have b: "app_inv ?k b \<and> quiet a b"
    using a by (intro step [OF _ B]) (simp, unfold_locales, simp add: app_ar_alarm_handler_def quiet_pcall)
  have c: "app_inv ?k c \<and> at_most_one b c"
    using C b inv_timer [OF assms(2), of b buttons] timer_at_most_one [of pn buttons b c]
    by (auto simp: when_flag_def at_most_one_def split: if_splits)
  have d: "app_inv ?k d \<and> quiet c d"
    using c by (intro step [OF _ D])
      (simp, unfold_locales, simp add: app_ar_sm_released_handler_def quiet_pcallI quiet_set_initial)
  have e: "alarms app' = alarms d \<and> (alarm_allowed app' \<longrightarrow> alarm_allowed d \<or> ?f AND APP_EVENT_ABORT \<noteq> 0)"
  proof (cases "?f AND APP_EVENT_ABORT = 0")
    case True
    then show ?thesis using E by (simp add: when_flag_def)
  next
    case False
    then obtain z where z: "app_handle_event_ar d APP_EVENT_ABORT (app_ar_abort_handler pn) = Some z"
        "app' = z\<lparr>alarm_allowed := True\<rparr>"
      using E by (auto simp: when_flag_def)
    have "quiet d z"
      by (rule abort.handle_event_quiet [OF t z(1)]) (use d in \<open>simp_all add: app_ar_abort_handler_def\<close>)
    then show ?thesis using False by (simp add: z(2) quiet_def alarms_def)
  qed
  have "?f AND APP_EVENT_ABORT = main_events app AND APP_EVENT_ABORT"
    by (simp add: app_event_wait_def loop_mask_def app_events and.assoc)
  with a b c d e show ?thesis by (auto simp: quiet_def at_most_one_def)
qed



end
