(* ===== verification/AppUtils.thy ===== *)
theory AppUtils
  imports AppGsdml Inet
begin

text \<open>
  Conversions and configuration of the Profinet application, from
  \<open>src/src/profeth/src/app_utils.c\<close>: addresses and enumerations as text, the list of network interface names given on the command line, and the interface
  configuration made from it.  \<open>snprintf\<close> into an array of \<open>n\<close> bytes keeps the first \<open>n - 1\<close>
  characters; the array sizes are those of p-net.
\<close>

section \<open>Text\<close>

definition octet :: "nat \<Rightarrow> u32 \<Rightarrow> u8" where
  "octet shift ip = ucast (drop_bit shift ip AND 0xFF)"

definition app_utils_ip_to_string :: "nat \<Rightarrow> u32 \<Rightarrow> string" where
  "app_utils_ip_to_string PNAL_INET_ADDRSTR_SIZE ip =
     snprintf PNAL_INET_ADDRSTR_SIZE
       (dec_u (octet 24 ip) @ ''.'' @ dec_u (octet 16 ip) @ ''.'' @ dec_u (octet 8 ip) @ ''.'' @
        dec_u (octet 0 ip))"

definition hex_digit :: "nat \<Rightarrow> char" where
  "hex_digit d = ''0123456789ABCDEF'' ! d"

text \<open>\<open>%02X\<close>.\<close>

definition hex02 :: "u8 \<Rightarrow> string" where
  "hex02 b = [hex_digit (unat b div 16), hex_digit (unat b mod 16)]"

definition app_utils_mac_to_string :: "nat \<Rightarrow> u8 list \<Rightarrow> string" where
  "app_utils_mac_to_string PNAL_ETH_ADDRSTR_SIZE addr =
     snprintf PNAL_ETH_ADDRSTR_SIZE
       (hex02 (addr ! 0) @ '':'' @ hex02 (addr ! 1) @ '':'' @ hex02 (addr ! 2) @ '':'' @
        hex02 (addr ! 3) @ '':'' @ hex02 (addr ! 4) @ '':'' @ hex02 (addr ! 5))"

fun app_utils_submod_dir_to_string :: "pnet_submodule_dir \<Rightarrow> string" where
  "app_utils_submod_dir_to_string PNET_DIR_NO_IO = ''NO_IO''"
| "app_utils_submod_dir_to_string PNET_DIR_INPUT = ''INPUT''"
| "app_utils_submod_dir_to_string PNET_DIR_OUTPUT = ''OUTPUT''"
| "app_utils_submod_dir_to_string PNET_DIR_IO = ''INPUT_OUTPUT''"
| "app_utils_submod_dir_to_string (PNET_DIR_OTHER _) = ''<error>''"

definition app_utils_ioxs_to_string :: "pnet_consts \<Rightarrow> u8 \<Rightarrow> string" where
  "app_utils_ioxs_to_string k ioxs =
     (if ioxs = PNET_IOXS_BAD k then ''IOXS_BAD''
      else if ioxs = PNET_IOXS_GOOD k then ''IOXS_GOOD'' else ''<error>'')"

record pnet_cfg_ip_addr =
  ip_a :: u8
  ip_b :: u8
  ip_c :: u8
  ip_d :: u8

definition app_utils_copy_ip_to_struct :: "u32 \<Rightarrow> pnet_cfg_ip_addr" where
  "app_utils_copy_ip_to_struct ip = \<lparr>ip_a = octet 24 ip, ip_b = octet 16 ip, ip_c = octet 8 ip, ip_d = octet 0 ip\<rparr>"

text \<open>The error codes of p-net the application can put into words.\<close>

record pnet_err_codes =
  RTA_ERR_CLS_PROTOCOL :: u16
  CTLDINA :: u16
  ABORT_AR_CONSUMER_DHT_EXPIRED :: u16
  ABORT_AR_CMI_TIMEOUT :: u16
  ABORT_AR_RELEASE_IND_RECEIVED :: u16
  ABORT_AR_RPC_READ_ERROR :: u16
  ABORT_DCP_STATION_NAME_CHANGED :: u16
  ABORT_DCP_RESET_TO_FACTORY :: u16
  CTLDINA_ARP_MULTIPLE_IP_ADDRESSES :: u16

text \<open>\<^const>\<open>None\<close> is the crash when only the second pointer is null, which the check misses: it tests
  the first one twice.  The result is what is stored through the two pointers, if anything.\<close>

definition app_utils_get_error_code_strings ::
  "pnet_err_codes \<Rightarrow> u16 \<Rightarrow> u16 \<Rightarrow> bool \<Rightarrow> bool \<Rightarrow> (string \<times> string) option option" where
  "app_utils_get_error_code_strings e err_cls err_code cls_ptr code_ptr =
     (if \<not> cls_ptr \<or> \<not> cls_ptr then Some None
      else if \<not> code_ptr then None
      else Some (Some
        (if err_cls = RTA_ERR_CLS_PROTOCOL e then
           (''Real-Time Acyclic Protocol'',
            if err_code = ABORT_AR_CONSUMER_DHT_EXPIRED e
            then ''Device missed cyclic data deadline, device terminated AR''
            else if err_code = ABORT_AR_CMI_TIMEOUT e
            then ''Communication initialization timeout, device terminated AR''
            else if err_code = ABORT_AR_RELEASE_IND_RECEIVED e then ''AR release indication received''
            else if err_code = ABORT_AR_RPC_READ_ERROR e then ''AR RPC-Read error''
            else if err_code = ABORT_DCP_STATION_NAME_CHANGED e
            then ''DCP station name changed, device terminated AR''
            else if err_code = ABORT_DCP_RESET_TO_FACTORY e
            then ''DCP reset to factory or factory reset, device terminated AR''
            else ''Not decoded'')
         else if err_cls = CTLDINA e then
           (''CTLDINA = Name and IP assignment from controller'',
            if err_code = CTLDINA_ARP_MULTIPLE_IP_ADDRESSES e then ''Multiple users of same IP address''
            else ''Not decoded'')
         else (''Not decoded'', ''Not decoded''))))"

section \<open>Interface names\<close>

text \<open>The list \<open>app_utils_netif_namelist_t\<close> is one block of memory, \<open>PNET_MAX_PHYSICAL_PORTS + 1\<close>
  arrays of \<open>PNET_INTERFACE_NAME_MAX_SIZE\<close> characters one after the other.  A store behind the end
  of a name goes into the next one, a store behind the end of the block is undefined:
  \<^const>\<open>None\<close>.\<close>

type_synonym namelist = "char list"

definition NUL :: char where "NUL = CHR 0x00"

definition namelist_size :: "pnet_consts \<Rightarrow> nat" where
  "namelist_size k = Suc (PNET_MAX_PHYSICAL_PORTS k) * PNET_INTERFACE_NAME_MAX_SIZE k"

definition name_store :: "pnet_consts \<Rightarrow> namelist \<Rightarrow> nat \<Rightarrow> nat \<Rightarrow> char \<Rightarrow> namelist option" where
  "name_store k l i j c =
     (let a = i * PNET_INTERFACE_NAME_MAX_SIZE k + j
      in if a < namelist_size k then Some (l[a := c]) else None)"

text \<open>The string at \<open>netif[i].name\<close>; without a terminating zero up to the end of the block the
  reader runs out of it.\<close>

definition netif_name :: "pnet_consts \<Rightarrow> namelist \<Rightarrow> nat \<Rightarrow> string option" where
  "netif_name k l i =
     (let s = drop (i * PNET_INTERFACE_NAME_MAX_SIZE k) l
      in if NUL \<in> set s then Some (takeWhile (\<lambda>c. c \<noteq> NUL) s) else None)"

text \<open>The loop over the argument: the block, the current name and position, the count.  The
  argument is shorter than the counter \<open>i\<close> of 16 bits can count.\<close>

fun scan_names ::
  "pnet_consts \<Rightarrow> nat \<Rightarrow> string \<Rightarrow> namelist \<Rightarrow> nat \<Rightarrow> nat \<Rightarrow> u16 \<Rightarrow> (namelist \<times> u16) option" where
  "scan_names k if_list_size [] l if_index j n = Some (l, n)"
| "scan_names k if_list_size (c # cs) l if_index j n =
     (if c \<noteq> CHR '','' then
        if if_index < if_list_size then
          do { l \<leftarrow> name_store k l if_index j c; scan_names k if_list_size cs l if_index (Suc j) n }
        else scan_names k if_list_size cs l if_index j n
      else if if_index < if_list_size then
        do { l \<leftarrow> name_store k l if_index j NUL; scan_names k if_list_size cs l (Suc if_index) 0 (n + 1) }
      else scan_names k if_list_size cs l if_index j (n + 1))"

text \<open>\<open>p_if_list->netif[1] = p_if_list->netif[0]\<close>.\<close>

definition copy_name0 :: "pnet_consts \<Rightarrow> namelist \<Rightarrow> namelist" where
  "copy_name0 k l =
     (let n = PNET_INTERFACE_NAME_MAX_SIZE k in take n l @ take n l @ drop (2 * n) l)"

text \<open>The check for empty names: the index of the first, if any.\<close>

fun check_names :: "pnet_consts \<Rightarrow> namelist \<Rightarrow> nat list \<Rightarrow> bool option" where
  "check_names k l [] = Some True"
| "check_names k l (i # is) =
     do { s \<leftarrow> netif_name k l i; if s = [] then Some False else check_names k l is }"

text \<open>The result: the return value, the list, and the number of ports if it is set.\<close>

definition app_utils_get_netif_namelist ::
  "pnet_consts \<Rightarrow> string \<Rightarrow> u16 \<Rightarrow> namelist \<Rightarrow> (int \<times> namelist \<times> u16 option) option" where
  "app_utils_get_netif_namelist k arg_str max_port l0 =
     (if max_port = 0 then Some (-1, l0, None)
      else
        do { (l, n) \<leftarrow> scan_names k (unat (max_port + 1)) arg_str (replicate (namelist_size k) NUL) 0 0 1;
             if max_port = 1 \<and> 1 < n then Some (-1, l, None)
             else if n = 2 then Some (-1, l, None)
             else if unat max_port + 1 < unat n then Some (-1, l, None)
             else if n = 1 then
               do { s \<leftarrow> netif_name k l 0;
                    if s = [] then Some (-1, l, None) else Some (0, copy_name0 k l, Some 1) }
             else
               do { ok \<leftarrow> check_names k l [0..<unat n];
                    if ok then Some (0, l, Some (n - 1)) else Some (-1, l, None) } })"

section \<open>Interface configuration\<close>

record pnet_if_cfg =
  main_netif_name :: cstr
  physical_ports :: "(string \<times> u16) list"
  ip_addr :: pnet_cfg_ip_addr
  ip_mask :: pnet_cfg_ip_addr
  ip_gateway :: pnet_cfg_ip_addr

definition APP_GSDML_DEFAULT_MAUTYPE :: u16 where "APP_GSDML_DEFAULT_MAUTYPE = 0x10"

text \<open>\<open>pnal_get_ipmask\<close> gives its status and what the two variables hold afterwards, which is
  arbitrary if it fails; \<open>pnal_get_gateway\<close> gives an address.\<close>

record pnal =
  pnal_get_ipmask :: "string \<Rightarrow> int \<times> u32 \<times> u32"
  pnal_get_gateway :: "string \<Rightarrow> u32"

fun read_names :: "pnet_consts \<Rightarrow> namelist \<Rightarrow> nat list \<Rightarrow> string list option" where
  "read_names k l [] = Some []"
| "read_names k l (i # is) = do { s \<leftarrow> netif_name k l i; ss \<leftarrow> read_names k l is; Some (s # ss) }"

definition app_utils_pnet_cfg_init_netifs ::
  "pnet_consts \<Rightarrow> pnal \<Rightarrow> string \<Rightarrow> (int \<times> (u16 \<times> pnet_if_cfg) option) option" where
  "app_utils_pnet_cfg_init_netifs k os netif_list_str =
     do { (ret, l, ports) \<leftarrow> app_utils_get_netif_namelist k netif_list_str
                               (of_nat (PNET_MAX_PHYSICAL_PORTS k)) (replicate (namelist_size k) NUL);
          case ports of
            None \<Rightarrow> Some (ret, None)
          | Some n \<Rightarrow>
              do { main \<leftarrow> netif_name k l 0;
                   names \<leftarrow> read_names k l [1..<Suc (unat n)];
                   case pnal_get_ipmask os main of
                     (_, ip, netmask) \<Rightarrow>
                       Some (ret, Some (n,
                         \<lparr>main_netif_name = Some main,
                          physical_ports = map (\<lambda>s. (s, APP_GSDML_DEFAULT_MAUTYPE)) names,
                          ip_addr = app_utils_copy_ip_to_struct ip,
                          ip_mask = app_utils_copy_ip_to_struct netmask,
                          ip_gateway = app_utils_copy_ip_to_struct (pnal_get_gateway os main)\<rparr>)) } }"

section \<open>Addresses as text\<close>

lemma length_dec_nat_256: "n \<le> 255 \<Longrightarrow> length (dec_nat n) \<le> 3"
proof -
  assume n: "n \<le> 255"
  have "dec_nat (n div 10 div 10) = [digit_char (n div 10 div 10)]"
    using n by (subst dec_nat.simps) auto
  then have "length (dec_nat (n div 10)) \<le> 2"
    by (subst dec_nat.simps) simp
  then show ?thesis by (subst dec_nat.simps) simp
qed

lemma octet_le: "unat (octet s ip) \<le> 255"
proof -
  have "unat (octet s ip) < 2 ^ LENGTH(8)" by (rule unsigned_less)
  then show ?thesis by simp
qed

lemma ip_to_string_dotted:
  assumes "16 \<le> sz"
  shows "app_utils_ip_to_string sz ip =
    dotted (unat (octet 24 ip)) (unat (octet 16 ip)) (unat (octet 8 ip)) (unat (octet 0 ip))"
proof -
  let ?s = "dotted (unat (octet 24 ip)) (unat (octet 16 ip)) (unat (octet 8 ip)) (unat (octet 0 ip))"
  have "length ?s \<le> 15"
    using length_dec_nat_256 [OF octet_le, of 24 ip] length_dec_nat_256 [OF octet_le, of 16 ip]
      length_dec_nat_256 [OF octet_le, of 8 ip] length_dec_nat_256 [OF octet_le, of 0 ip]
    by (simp add: dotted_def)
  then show ?thesis
    using assms by (simp add: app_utils_ip_to_string_def snprintf_def dec_u_def dotted_def)
qed

text \<open>The text of an address is that address: with room for 16 characters, \<open>inet_pton\<close> reads the
  text back as the four bytes the address is copied into, the most significant one first.\<close>

theorem ip_to_string_roundtrip:
  assumes "16 \<le> sz"
  shows "inet_pton4 (app_utils_ip_to_string sz ip) =
    Some (map unat [ip_a (app_utils_copy_ip_to_struct ip), ip_b (app_utils_copy_ip_to_struct ip),
      ip_c (app_utils_copy_ip_to_struct ip), ip_d (app_utils_copy_ip_to_struct ip)])"
  using assms octet_le
  by (simp add: ip_to_string_dotted inet_pton4_dotted app_utils_copy_ip_to_struct_def)

theorem ip_to_string_roundtrip_witness:
  "inet_pton4 (app_utils_ip_to_string 16 0xC0A80102) = Some [192, 168, 1, 2]"
  using ip_to_string_roundtrip [where sz = 16 and ip = "0xC0A80102"]
  by (simp add: app_utils_copy_ip_to_struct_def octet_def)

section \<open>The list of names\<close>

text \<open>The block as a list of name arrays.\<close>

definition blocks_ok :: "pnet_consts \<Rightarrow> string list \<Rightarrow> bool" where
  "blocks_ok k bs =
     (length bs = Suc (PNET_MAX_PHYSICAL_PORTS k)
      \<and> list_all (\<lambda>b. length b = PNET_INTERFACE_NAME_MAX_SIZE k) bs)"

definition pad :: "pnet_consts \<Rightarrow> string \<Rightarrow> string" where
  "pad k s = s @ replicate (PNET_INTERFACE_NAME_MAX_SIZE k - length s) NUL"

lemma concat_split:
  assumes "list_all (\<lambda>b. length b = n) bs" "i < length bs"
  shows "concat bs = concat (take i bs) @ bs ! i @ concat (drop (Suc i) bs)"
    "length (concat (take i bs)) = i * n"
proof -
  show "concat bs = concat (take i bs) @ bs ! i @ concat (drop (Suc i) bs)"
    using assms(2) by (metis concat.simps(2) concat_append id_take_nth_drop)
  have "length (concat cs) = length cs * n" if "list_all (\<lambda>b. length b = n) cs" for cs :: "'a list list"
    using that by (induction cs) simp_all
  moreover have "list_all (\<lambda>b. length b = n) (take i bs)"
    using assms(1) by (auto simp: list_all_iff dest: in_set_takeD)
  ultimately show "length (concat (take i bs)) = i * n" using assms(2) by simp
qed

lemma name_store_block:
  assumes "blocks_ok k bs" "i < length bs" "j < PNET_INTERFACE_NAME_MAX_SIZE k"
  shows "name_store k (concat bs) i j c = Some (concat (bs[i := (bs ! i)[j := c]]))"
proof -
  let ?n = "PNET_INTERFACE_NAME_MAX_SIZE k"
  have all: "list_all (\<lambda>b. length b = ?n) bs" and len: "length bs = Suc (PNET_MAX_PHYSICAL_PORTS k)"
    using assms(1) by (simp_all add: blocks_ok_def)
  note S = concat_split [OF all assms(2)]
  have bi: "length (bs ! i) = ?n" using all assms(2) by (simp add: list_all_length)
  have "i * ?n + j < Suc i * ?n" using assms(3) by simp
  also have "\<dots> \<le> namelist_size k"
    unfolding namelist_size_def using assms(2) len by (intro mult_le_mono1) simp
  finally have "i * ?n + j < namelist_size k" .
  moreover have "(concat bs)[i * ?n + j := c] =
      concat (take i bs) @ (bs ! i)[j := c] @ concat (drop (Suc i) bs)"
    by (subst S(1)) (simp add: list_update_append S(2) bi assms(3))
  moreover have "concat (bs[i := (bs ! i)[j := c]]) =
      concat (take i bs) @ (bs ! i)[j := c] @ concat (drop (Suc i) bs)"
    using assms(2) by (simp add: upd_conv_take_nth_drop)
  ultimately show ?thesis by (simp add: name_store_def Let_def)
qed

lemma netif_name_block:
  assumes "blocks_ok k bs" "i < length bs" "bs ! i = pad k s" "length s < PNET_INTERFACE_NAME_MAX_SIZE k"
    and "NUL \<notin> set s"
  shows "netif_name k (concat bs) i = Some s"
proof -
  let ?n = "PNET_INTERFACE_NAME_MAX_SIZE k"
  have all: "list_all (\<lambda>b. length b = ?n) bs" using assms(1) by (simp add: blocks_ok_def)
  note S = concat_split [OF all assms(2)]
  obtain z where z: "?n - length s = Suc z" using assms(4) by (metis Suc_diff_Suc)
  have "drop (i * ?n) (concat bs) = s @ NUL # replicate z NUL @ concat (drop (Suc i) bs)"
    by (subst S(1)) (simp add: S(2) assms(3) pad_def z)
  moreover have "takeWhile (\<lambda>c. c \<noteq> NUL) (s @ NUL # t) = s" for t
    using assms(5) by (subst takeWhile_append2) auto
  ultimately show ?thesis by (simp add: netif_name_def Let_def)
qed

lemma blocks_ok_update:
  "\<lbrakk>blocks_ok k bs; length b = PNET_INTERFACE_NAME_MAX_SIZE k\<rbrakk> \<Longrightarrow> blocks_ok k (bs[i := b])"
  by (auto simp: blocks_ok_def list_all_iff dest!: set_update_subset_insert [THEN subsetD])

lemma length_pad: "length s \<le> PNET_INTERFACE_NAME_MAX_SIZE k \<Longrightarrow> length (pad k s) = PNET_INTERFACE_NAME_MAX_SIZE k"
  by (simp add: pad_def)

lemma pad_extend:
  assumes "length s < PNET_INTERFACE_NAME_MAX_SIZE k"
  shows "(pad k s)[length s := c] = pad k (s @ [c])"
proof -
  obtain z where "PNET_INTERFACE_NAME_MAX_SIZE k - length s = Suc z" using assms by (metis Suc_diff_Suc)
  then show ?thesis by (simp add: pad_def)
qed

lemma scan_name:
  assumes "blocks_ok k bs" "i < length bs" "i < sz" "bs ! i = pad k pre" "CHR '','' \<notin> set s"
    and "length (pre @ s) < PNET_INTERFACE_NAME_MAX_SIZE k"
  shows "scan_names k sz (s @ rest) (concat bs) i (length pre) n =
    scan_names k sz rest (concat (bs[i := pad k (pre @ s)])) i (length (pre @ s)) n"
  using assms
proof (induction s arbitrary: bs pre)
  case Nil
  then show ?case by (metis append_Nil append_Nil2 list_update_id)
next
  case (Cons c s)
  have j: "length pre < PNET_INTERFACE_NAME_MAX_SIZE k" using Cons.prems(6) by simp
  have store: "name_store k (concat bs) i (length pre) c = Some (concat (bs[i := pad k (pre @ [c])]))"
    using name_store_block [OF Cons.prems(1,2) j] Cons.prems(4) by (simp add: pad_extend [OF j])
  have ok: "blocks_ok k (bs[i := pad k (pre @ [c])])"
    using Cons.prems(1,6) by (intro blocks_ok_update length_pad) simp_all
  have "scan_names k sz ((c # s) @ rest) (concat bs) i (length pre) n =
      scan_names k sz (s @ rest) (concat (bs[i := pad k (pre @ [c])])) i (length (pre @ [c])) n"
    using Cons.prems(3,5) store by (cases "c = CHR '',''") simp_all
  also have "\<dots> = scan_names k sz rest (concat ((bs[i := pad k (pre @ [c])])[i := pad k ((pre @ [c]) @ s)])) i
      (length ((pre @ [c]) @ s)) n"
    using Cons.prems by (intro Cons.IH [OF ok]) simp_all
  finally show ?case by simp
qed

fun join_names :: "string list \<Rightarrow> string" where
  "join_names [] = []"
| "join_names [s] = s"
| "join_names (s # ss) = s @ CHR '','' # join_names ss"

definition name_ok :: "pnet_consts \<Rightarrow> string \<Rightarrow> bool" where
  "name_ok k s =
     (s \<noteq> [] \<and> CHR '','' \<notin> set s \<and> NUL \<notin> set s \<and> length s < PNET_INTERFACE_NAME_MAX_SIZE k)"

lemma scan_all_names:
  assumes "ns \<noteq> []" "list_all (name_ok k) ns" "blocks_ok k bs" "i + length ns \<le> length bs" "length bs \<le> sz"
    and "\<forall>j. i \<le> j \<and> j < length bs \<longrightarrow> bs ! j = pad k []"
  shows "scan_names k sz (join_names ns) (concat bs) i 0 n =
    Some (concat (take i bs @ map (pad k) ns @ drop (i + length ns) bs), n + of_nat (length ns - 1))"
  using assms
proof (induction ns arbitrary: bs i n rule: join_names.induct)
  case 1
  then show ?case by simp
next
  case (2 s)
  show ?case
    using scan_name [where pre = "[]" and rest = "[]" and k = k and sz = sz and s = s and bs = bs and i = i
        and n = n] "2.prems"
    by (simp add: name_ok_def upd_conv_take_nth_drop)
next
  case (3 s s' ss)
  let ?bs = "bs[i := pad k s]"
  have s: "name_ok k s" using "3.prems" by simp
  have ok: "blocks_ok k ?bs" using "3.prems"(3) s by (intro blocks_ok_update length_pad) (simp_all add: name_ok_def)
  have i: "i < length bs" "i < sz" using "3.prems" by simp_all
  have "scan_names k sz (s @ CHR '','' # join_names (s' # ss)) (concat bs) i (length ([] :: string)) n =
      scan_names k sz (CHR '','' # join_names (s' # ss)) (concat (bs[i := pad k ([] @ s)])) i (length ([] @ s)) n"
    using "3.prems" s i by (intro scan_name [where pre = "[]"]) (simp_all add: name_ok_def)
  also have "\<dots> = scan_names k sz (join_names (s' # ss)) (concat ?bs) (Suc i) 0 (n + 1)"
  proof -
    have j: "length s < PNET_INTERFACE_NAME_MAX_SIZE k" using s by (simp add: name_ok_def)
    have "(pad k s)[length s := NUL] = pad k s"
      using j by (simp add: pad_def list_update_append flip: Cons_replicate_eq split: nat.splits)
        (metis Suc_diff_Suc list_update_code(2) replicate_Suc)
    then have "name_store k (concat ?bs) i (length s) NUL = Some (concat ?bs)"
      using name_store_block [OF ok, of i "length s" NUL] i j by simp
    then show ?thesis using i by simp
  qed
  also have "\<dots> = Some (concat (take (Suc i) ?bs @ map (pad k) (s' # ss) @ drop (Suc i + length (s' # ss)) ?bs),
      n + 1 + of_nat (length (s' # ss) - 1))"
    using "3.prems" ok by (intro "3.IH") (auto simp: nth_list_update)
  finally show ?case using i by (simp add: take_Suc_conv_app_nth)
qed

lemma concat_replicate_pad: "concat (replicate m (pad k [])) = replicate (m * PNET_INTERFACE_NAME_MAX_SIZE k) NUL"
  by (induction m) (simp_all add: pad_def replicate_add)

lemma scan_initial:
  assumes "ns \<noteq> []" "list_all (name_ok k) ns" "length ns \<le> Suc (PNET_MAX_PHYSICAL_PORTS k)"
    and "sz = Suc (PNET_MAX_PHYSICAL_PORTS k)"
  shows "scan_names k sz (join_names ns) (replicate (namelist_size k) NUL) 0 0 1 =
    Some (concat (map (pad k) ns @ replicate (sz - length ns) (pad k [])), of_nat (length ns))"
proof -
  let ?bs = "replicate sz (pad k [])"
  have "scan_names k sz (join_names ns) (concat ?bs) 0 0 1 =
      Some (concat (take 0 ?bs @ map (pad k) ns @ drop (0 + length ns) ?bs), 1 + of_nat (length ns - 1))"
    using assms by (intro scan_all_names) (auto simp: blocks_ok_def list_all_iff length_pad simp del: replicate_Suc)
  moreover have "concat ?bs = replicate (namelist_size k) NUL"
    by (simp only: concat_replicate_pad namelist_size_def assms(4))
  moreover have "1 + of_nat (length ns - 1) = (of_nat (length ns) :: u16)"
    using assms(1) by (cases ns) simp_all
  ultimately show ?thesis by simp
qed

lemma check_names_all:
  "(\<And>i. i \<in> set is \<Longrightarrow> \<exists>s. netif_name k l i = Some s \<and> s \<noteq> []) \<Longrightarrow> check_names k l is = Some True"
proof (induction "is")
  case (Cons i "is")
  then obtain s where "netif_name k l i = Some s" "s \<noteq> []" by fastforce
  with Cons show ?case by simp
qed simp

text \<open>A single name: it is copied, so that the port and the interface have the same name.\<close>

lemma namelist_one:
  assumes s: "name_ok k s" and P: "PNET_MAX_PHYSICAL_PORTS k = unat max_port" "max_port \<noteq> 0" "max_port < 65535"
  shows "\<exists>l. app_utils_get_netif_namelist k (join_names [s]) max_port l0 = Some (0, l, Some 1)
    \<and> netif_name k l 0 = Some s \<and> netif_name k l 1 = Some s"
proof -
  obtain m where m: "unat max_port = Suc m" using P(2) by (cases "unat max_port") (simp_all add: unat_eq_0)
  have sz: "unat (max_port + 1) = Suc (Suc m)"
    using P(3) m by (simp add: unat_word_ariths word_less_nat_alt)
  let ?bs = "pad k s # replicate (Suc m) (pad k [])"
  let ?cs = "pad k s # pad k s # replicate m (pad k [])"
  have "scan_names k (Suc (Suc m)) (join_names [s]) (replicate (namelist_size k) NUL) 0 0 1 =
      Some (concat (map (pad k) [s] @ replicate (Suc (Suc m) - length [s]) (pad k [])), of_nat (length [s]))"
    by (rule scan_initial) (use s P(1) m in simp_all)
  moreover have "map (pad k) [s] @ replicate (Suc (Suc m) - length [s]) (pad k []) = ?bs" "of_nat (length [s]) = (1 :: u16)"
    by simp_all
  ultimately have scan: "scan_names k (Suc (Suc m)) (join_names [s]) (replicate (namelist_size k) NUL) 0 0 1 = Some (concat ?bs, 1)"
    by (simp only:)
  have ok: "blocks_ok k ?bs" "blocks_ok k ?cs"
    using P(1) s m by (simp_all add: blocks_ok_def list_all_iff name_ok_def length_pad)
  have "netif_name k (concat ?bs) 0 = Some s"
    using s by (intro netif_name_block [OF ok(1)]) (simp_all add: name_ok_def)
  moreover have copy: "copy_name0 k (concat ?bs) = concat ?cs"
    using s by (simp add: copy_name0_def Let_def name_ok_def length_pad mult_2)
  ultimately have "app_utils_get_netif_namelist k (join_names [s]) max_port l0 = Some (0, concat ?cs, Some 1)"
    using scan s P(2) by (simp add: app_utils_get_netif_namelist_def sz name_ok_def)
  moreover have "netif_name k (concat ?cs) i = Some s" if "i < 2" for i
    using s that by (intro netif_name_block [OF ok(2)]) (auto simp: name_ok_def less_2_cases_iff)
  ultimately show ?thesis by (intro exI [of _ "concat ?cs"]) simp
qed

text \<open>C29. The interface names given on the command line are taken over: for one name, or for at
  least three and at most one more than the ports, each non-empty and fitting its array, the call
  succeeds, every name is in its place, one name serves as management and as physical port, and
  otherwise there is one port per name after the first.\<close>

theorem namelist_roundtrip:
  assumes "ns \<noteq> []" "list_all (name_ok k) ns" and "PNET_MAX_PHYSICAL_PORTS k = unat max_port"
    and "max_port \<noteq> 0" "max_port < 65535"
    and "length ns = 1 \<or> 3 \<le> length ns \<and> length ns \<le> Suc (unat max_port)"
  shows "\<exists>l. app_utils_get_netif_namelist k (join_names ns) max_port l0 =
        Some (0, l, Some (of_nat (if length ns = 1 then 1 else length ns - 1)))
    \<and> (\<forall>i < length ns. netif_name k l i = Some (ns ! i))
    \<and> (length ns = 1 \<longrightarrow> netif_name k l 1 = Some (ns ! 0))"
proof -
  define m where "m = unat max_port"
  have m: "0 < m" "m < 65535" using assms(4,5) by (simp_all add: m_def word_less_nat_alt unat_gt_0)
  have sz: "unat (max_port + 1) = Suc m" using m by (simp add: m_def unat_word_ariths)
  let ?bs = "map (pad k) ns @ replicate (Suc m - length ns) (pad k [])"
  have len: "length ns \<le> Suc m" using assms(6) m by (auto simp: m_def)
  have scan: "scan_names k (Suc m) (join_names ns) (replicate (namelist_size k) NUL) 0 0 1 = Some (concat ?bs, of_nat (length ns))"
    using assms(1-3) len by (intro scan_initial) (simp_all add: m_def)
  have n: "unat (of_nat (length ns) :: u16) = length ns" using len m by (simp add: unat_of_nat)
  have ok: "blocks_ok k ?bs"
    using assms(2,3) len by (auto simp: blocks_ok_def m_def list_all_iff name_ok_def length_pad)
  have nth: "netif_name k (concat ?bs) i = Some (ns ! i)" "ns ! i \<noteq> []" if "i < length ns" for i
  proof -
    have nok: "name_ok k (ns ! i)" using assms(2) that by (simp add: list_all_length)
    then show "netif_name k (concat ?bs) i = Some (ns ! i)"
      by (intro netif_name_block [OF ok]) (use that in \<open>simp_all add: name_ok_def nth_append\<close>)
    show "ns ! i \<noteq> []" using nok by (simp add: name_ok_def)
  qed
  show ?thesis
  proof (cases "length ns = 1")
    case True
    then obtain s where s: "ns = [s]" by (auto simp: length_Suc_conv)
    have sok: "name_ok k s" using assms(2) s by simp
    from namelist_one [OF sok assms(3-5), of l0] show ?thesis using s by auto
  next
    case False
    then have three: "3 \<le> length ns" "length ns \<le> Suc m" using assms(6) by (auto simp: m_def)
    have ne: "of_nat (length ns) \<noteq> (2 :: u16)" "of_nat (length ns) \<noteq> (1 :: u16)"
      using n three(1) by auto
    have "max_port \<noteq> 1" using three by (auto simp: m_def)
    moreover have "check_names k (concat ?bs) [0..<length ns] = Some True"
      using nth by (intro check_names_all) auto
    moreover have "of_nat (length ns) - 1 = (of_nat (length ns - 1) :: u16)" using three(1) by simp
    ultimately have "app_utils_get_netif_namelist k (join_names ns) max_port l0 =
        Some (0, concat ?bs, Some (of_nat (length ns - 1)))"
      using scan three ne n assms(4) False
      by (simp add: app_utils_get_netif_namelist_def sz m_def [symmetric])
    then show ?thesis using nth False by (intro exI [of _ "concat ?bs"]) simp
  qed
qed

definition demo_names :: pnet_consts where
  "demo_names = \<lparr>PNET_MAX_AR = 1, PNET_MAX_SLOTS = 5, PNET_MAX_SUBSLOTS = 3,
     PNET_MAX_PHYSICAL_PORTS = 2, PNET_INTERFACE_NAME_MAX_SIZE = 6, PNET_IOXS_BAD = 0,
     PNET_IOXS_GOOD = 0x80, PNET_MOD_DAP_IDENT = 1, PNET_SUBMOD_DAP_IDENT = 1,
     PNET_SUBMOD_DAP_INTERFACE_1_IDENT = 0x8000, PNET_SUBMOD_DAP_INTERFACE_1_PORT_1_IDENT = 0x8001,
     PNET_SUBMOD_DAP_INTERFACE_1_PORT_2_IDENT = 0x8002,
     PNET_SUBMOD_DAP_INTERFACE_1_PORT_3_IDENT = 0x8003,
     PNET_SUBMOD_DAP_INTERFACE_1_PORT_4_IDENT = 0x8004, PNET_SLOT_DAP_IDENT = 0,
     PNET_SUBSLOT_DAP_IDENT = 1, PNET_SUBSLOT_DAP_INTERFACE_1_IDENT = 0x8000\<rparr>"

theorem namelist_roundtrip_witness:
  "\<exists>l. app_utils_get_netif_namelist demo_names ''br0,eth0,eth1'' 2 [] = Some (0, l, Some 2)
    \<and> netif_name demo_names l 2 = Some ''eth1''"
  using namelist_roundtrip [of "[''br0'', ''eth0'', ''eth1'']" demo_names 2 "[]"]
  by (auto simp: demo_names_def name_ok_def NUL_def)

lemma scan_overflow:
  assumes "CHR '','' \<notin> set s" "0 < sz" "namelist_size k < j + length s" "j \<le> namelist_size k"
  shows "scan_names k sz s l 0 j n = None"
  using assms
proof (induction s arbitrary: l j)
  case Nil
  then show ?case by simp
next
  case (Cons c s)
  show ?case
  proof (cases "j < namelist_size k")
    case True
    then show ?thesis
      using Cons.prems Cons.IH [of "Suc j" "l[j := c]"] by (auto simp: name_store_def Let_def)
  next
    case False
    then show ?thesis using Cons.prems by (auto simp: name_store_def Let_def)
  qed
qed

text \<open>A name that is too long is not refused: one longer than the whole list is written past its
  end, whatever the number of ports.\<close>

theorem long_name_overflows:
  assumes "CHR '','' \<notin> set s" and "namelist_size k < length s"
    and "max_port \<noteq> 0" "max_port < 65535"
  shows "app_utils_get_netif_namelist k s max_port l0 = None"
proof -
  have "0 < unat (max_port + 1)"
    using assms(3,4) by (simp add: unat_word_ariths word_less_nat_alt)
  then have "scan_names k (unat (max_port + 1)) s (replicate (namelist_size k) NUL) 0 0 1 = None"
    using assms(1,2) by (intro scan_overflow) simp_all
  then show ?thesis using assms(3) by (simp add: app_utils_get_netif_namelist_def)
qed

theorem long_name_overflows_witness:
  "app_utils_get_netif_namelist demo_names (replicate 19 (CHR ''x'')) 2 [] = None"
  using long_name_overflows [of "replicate 19 (CHR ''x'')" demo_names 2 "[]"]
  by (simp add: demo_names_def namelist_size_def)

end
