(* ===== verification/AppConfig.thy ===== *)
theory AppConfig
  imports AppUtils
begin

text \<open>
  The default configuration of the Profinet stack: \<open>app_utils_pnet_cfg_init_default\<close> of
  \<open>src/src/profeth/src/app_utils.c\<close>, \<open>app_pnet_cfg_init_default\<close> of \<open>sampleapp_common.c\<close>, the constants of
  \<open>app_gsdml.h\<close> they use, and the names of events and control commands.  The sizes of the character arrays
  and the numbers of the version are those of p-net.
\<close>

section \<open>Names of enumerations\<close>

datatype pnet_control_command =
    PNET_CONTROL_COMMAND_PRM_BEGIN | PNET_CONTROL_COMMAND_PRM_END | PNET_CONTROL_COMMAND_APP_RDY
  | PNET_CONTROL_COMMAND_RELEASE | PNET_CONTROL_COMMAND_OTHER int

fun app_utils_dcontrol_cmd_to_string :: "pnet_control_command \<Rightarrow> string" where
  "app_utils_dcontrol_cmd_to_string PNET_CONTROL_COMMAND_PRM_BEGIN = ''PRM_BEGIN''"
| "app_utils_dcontrol_cmd_to_string PNET_CONTROL_COMMAND_PRM_END = ''PRM_END''"
| "app_utils_dcontrol_cmd_to_string PNET_CONTROL_COMMAND_APP_RDY = ''APP_RDY''"
| "app_utils_dcontrol_cmd_to_string PNET_CONTROL_COMMAND_RELEASE = ''RELEASE''"
| "app_utils_dcontrol_cmd_to_string (PNET_CONTROL_COMMAND_OTHER _) = ''<error>''"

datatype pnet_event_value =
    Event_ABORT | Event_STARTUP | Event_PRMEND | Event_APPLRDY | Event_DATA | Event_OTHER int

fun app_utils_event_to_string :: "pnet_event_value \<Rightarrow> string" where
  "app_utils_event_to_string Event_ABORT = ''PNET_EVENT_ABORT''"
| "app_utils_event_to_string Event_STARTUP = ''PNET_EVENT_STARTUP''"
| "app_utils_event_to_string Event_PRMEND = ''PNET_EVENT_PRMEND''"
| "app_utils_event_to_string Event_APPLRDY = ''PNET_EVENT_APPLRDY''"
| "app_utils_event_to_string Event_DATA = ''PNET_EVENT_DATA''"
| "app_utils_event_to_string (Event_OTHER _) = ''<error>''"

section \<open>Constants\<close>

definition APP_TICK_INTERVAL_US :: u32 where "APP_TICK_INTERVAL_US = 1000"
definition APP_GSDML_DEFAULT_STATION_NAME :: string where "APP_GSDML_DEFAULT_STATION_NAME = ''infix''"
definition APP_GSDML_VENDOR_ID :: u16 where "APP_GSDML_VENDOR_ID = 0x0493"
definition APP_GSDML_DEVICE_ID :: u16 where "APP_GSDML_DEVICE_ID = 0x0002"
definition APP_GSDML_OEM_VENDOR_ID :: u16 where "APP_GSDML_OEM_VENDOR_ID = 0xcafe"
definition APP_GSDML_OEM_DEVICE_ID :: u16 where "APP_GSDML_OEM_DEVICE_ID = 0xee02"
definition APP_GSDML_IM_HARDWARE_REVISION :: u16 where "APP_GSDML_IM_HARDWARE_REVISION = 3"
definition APP_GSDML_SW_REV_PREFIX :: char where "APP_GSDML_SW_REV_PREFIX = CHR ''V''"
definition APP_GSDML_PROFILE_ID :: u16 where "APP_GSDML_PROFILE_ID = 0x1234"
definition APP_GSDML_PROFILE_SPEC_TYPE :: u16 where "APP_GSDML_PROFILE_SPEC_TYPE = 0x5678"
definition APP_GSDML_IM_REVISION_COUNTER :: u16 where "APP_GSDML_IM_REVISION_COUNTER = 0"
definition APP_GSDML_EXAMPLE_SERIAL_NUMBER :: string where "APP_GSDML_EXAMPLE_SERIAL_NUMBER = ''007''"
definition APP_GSDML_TAG_FUNCTION :: string where "APP_GSDML_TAG_FUNCTION = ''my function''"
definition APP_GSDML_TAG_LOCATION :: string where "APP_GSDML_TAG_LOCATION = ''my location''"
definition APP_GSDML_IM_DATE :: string where "APP_GSDML_IM_DATE = ''2022-03-01 10:03''"
definition APP_GSDML_DESCRIPTOR :: string where "APP_GSDML_DESCRIPTOR = ''my descriptor''"
definition APP_GSDML_SIGNATURE :: string where "APP_GSDML_SIGNATURE = []"
definition APP_GSDML_ORDER_ID :: string where "APP_GSDML_ORDER_ID = ''12345 Abcdefghijk''"
definition APP_GSDML_PRODUCT_NAME :: string where "APP_GSDML_PRODUCT_NAME = ''Infix Switch 10p''"
definition APP_GSDML_MIN_DEVICE_INTERVAL :: u16 where "APP_GSDML_MIN_DEVICE_INTERVAL = 32"

lemmas gsdml_texts =
  APP_GSDML_DEFAULT_STATION_NAME_def APP_GSDML_EXAMPLE_SERIAL_NUMBER_def APP_GSDML_TAG_FUNCTION_def
  APP_GSDML_TAG_LOCATION_def APP_GSDML_IM_DATE_def APP_GSDML_DESCRIPTOR_def APP_GSDML_SIGNATURE_def
  APP_GSDML_ORDER_ID_def APP_GSDML_PRODUCT_NAME_def

lemmas gsdml_ids =
  APP_GSDML_VENDOR_ID_def APP_GSDML_DEVICE_ID_def APP_GSDML_OEM_VENDOR_ID_def APP_GSDML_OEM_DEVICE_ID_def

record cfg_consts =
  sz_order_id :: nat
  sz_serial_number :: nat
  sz_tag_function :: nat
  sz_tag_location :: nat
  sz_date :: nat
  sz_descriptor :: nat
  sz_signature :: nat
  sz_product_name :: nat
  sz_station_name :: nat
  PNET_VERSION_MAJOR :: u8
  PNET_VERSION_MINOR :: u8
  PNET_VERSION_PATCH :: u8
  PNET_SUPPORTED_IM1 :: u16
  PNET_SUPPORTED_IM2 :: u16
  PNET_SUPPORTED_IM3 :: u16

definition APP_GSDML_IM_SUPPORTED :: "cfg_consts \<Rightarrow> u16" where
  "APP_GSDML_IM_SUPPORTED z = PNET_SUPPORTED_IM1 z OR PNET_SUPPORTED_IM2 z OR PNET_SUPPORTED_IM3 z"

definition GET_HIGH_BYTE :: "u16 \<Rightarrow> u8" where "GET_HIGH_BYTE ident = ucast (drop_bit 8 ident AND 0xFF)"
definition GET_LOW_BYTE :: "u16 \<Rightarrow> u8" where "GET_LOW_BYTE ident = ucast (ident AND 0xFF)"

section \<open>The configuration\<close>

record pnet_im_0 =
  im_vendor_id_hi :: u8
  im_vendor_id_lo :: u8
  im_order_id :: string
  im_serial_number :: string
  im_hardware_revision :: u16
  im_sw_revision_prefix :: char
  im_sw_revision_functional_enhancement :: u8
  im_sw_revision_bug_fix :: u8
  im_sw_revision_internal_change :: u8
  im_revision_counter :: u16
  im_profile_id :: u16
  im_profile_specific_type :: u16
  im_version_major :: u8
  im_version_minor :: u8
  im_supported :: u16

record pnet_cfg_device_id =
  vendor_id_hi :: u8
  vendor_id_lo :: u8
  device_id_hi :: u8
  device_id_lo :: u8

datatype cb_slot =
    State_cb | Connect_cb | Release_cb | Dcontrol_cb | Ccontrol_cb | Read_cb | Write_cb | Exp_module_cb
  | Exp_submodule_cb | New_data_status_cb | Alarm_ind_cb | Alarm_cnf_cb | Alarm_ack_cnf_cb | Reset_cb
  | Signal_led_cb | Sm_released_cb

datatype app_cb =
    App_state_ind | App_connect_ind | App_release_ind | App_dcontrol_ind | App_ccontrol_cnf | App_read_ind
  | App_write_ind | App_exp_module_ind | App_exp_submodule_ind | App_new_data_status_ind | App_alarm_ind
  | App_alarm_cnf | App_alarm_ack_cnf | App_reset_ind | App_signal_led_ind | App_sm_released_ind

record pnet_cfg =
  cfg_tick_us :: u32
  im_0_data :: pnet_im_0
  im_tag_function :: string
  im_tag_location :: string
  im_date :: string
  im_descriptor :: string
  im_signature :: string
  device_id :: pnet_cfg_device_id
  oem_device_id :: pnet_cfg_device_id
  product_name :: string
  send_hello :: bool
  min_device_interval :: u16
  cfg_ports :: u16
  cfg_station_name :: string
  use_qualified_diagnosis :: bool
  cfg_cbs :: "cb_slot \<Rightarrow> app_cb option"

text \<open>The structure is cleared first, so what is not set below is zero.\<close>

definition app_utils_pnet_cfg_init_default :: "cfg_consts \<Rightarrow> int \<times> pnet_cfg" where
  "app_utils_pnet_cfg_init_default z = (0,
     \<lparr>cfg_tick_us = APP_TICK_INTERVAL_US,
      im_0_data =
        \<lparr>im_vendor_id_hi = GET_HIGH_BYTE APP_GSDML_VENDOR_ID, im_vendor_id_lo = GET_LOW_BYTE APP_GSDML_VENDOR_ID,
         im_order_id = snprintf (sz_order_id z) APP_GSDML_ORDER_ID,
         im_serial_number = snprintf (sz_serial_number z) APP_GSDML_EXAMPLE_SERIAL_NUMBER,
         im_hardware_revision = APP_GSDML_IM_HARDWARE_REVISION, im_sw_revision_prefix = APP_GSDML_SW_REV_PREFIX,
         im_sw_revision_functional_enhancement = PNET_VERSION_MAJOR z, im_sw_revision_bug_fix = PNET_VERSION_MINOR z,
         im_sw_revision_internal_change = PNET_VERSION_PATCH z, im_revision_counter = APP_GSDML_IM_REVISION_COUNTER,
         im_profile_id = APP_GSDML_PROFILE_ID, im_profile_specific_type = APP_GSDML_PROFILE_SPEC_TYPE,
         im_version_major = 1, im_version_minor = 1, im_supported = APP_GSDML_IM_SUPPORTED z\<rparr>,
      im_tag_function = snprintf (sz_tag_function z) APP_GSDML_TAG_FUNCTION,
      im_tag_location = snprintf (sz_tag_location z) APP_GSDML_TAG_LOCATION,
      im_date = snprintf (sz_date z) APP_GSDML_IM_DATE,
      im_descriptor = snprintf (sz_descriptor z) APP_GSDML_DESCRIPTOR,
      im_signature = snprintf (sz_signature z) APP_GSDML_SIGNATURE,
      device_id =
        \<lparr>vendor_id_hi = GET_HIGH_BYTE APP_GSDML_VENDOR_ID, vendor_id_lo = GET_LOW_BYTE APP_GSDML_VENDOR_ID,
         device_id_hi = GET_HIGH_BYTE APP_GSDML_DEVICE_ID, device_id_lo = GET_LOW_BYTE APP_GSDML_DEVICE_ID\<rparr>,
      oem_device_id =
        \<lparr>vendor_id_hi = GET_HIGH_BYTE APP_GSDML_OEM_VENDOR_ID, vendor_id_lo = GET_LOW_BYTE APP_GSDML_OEM_VENDOR_ID,
         device_id_hi = GET_HIGH_BYTE APP_GSDML_OEM_DEVICE_ID, device_id_lo = GET_LOW_BYTE APP_GSDML_OEM_DEVICE_ID\<rparr>,
      product_name = snprintf (sz_product_name z) APP_GSDML_PRODUCT_NAME,
      send_hello = True, min_device_interval = APP_GSDML_MIN_DEVICE_INTERVAL, cfg_ports = 1,
      cfg_station_name = snprintf (sz_station_name z) APP_GSDML_DEFAULT_STATION_NAME,
      use_qualified_diagnosis = False, cfg_cbs = (\<lambda>s. None)\<rparr>)"

fun app_callback :: "cb_slot \<Rightarrow> app_cb" where
  "app_callback State_cb = App_state_ind"
| "app_callback Connect_cb = App_connect_ind"
| "app_callback Release_cb = App_release_ind"
| "app_callback Dcontrol_cb = App_dcontrol_ind"
| "app_callback Ccontrol_cb = App_ccontrol_cnf"
| "app_callback Read_cb = App_read_ind"
| "app_callback Write_cb = App_write_ind"
| "app_callback Exp_module_cb = App_exp_module_ind"
| "app_callback Exp_submodule_cb = App_exp_submodule_ind"
| "app_callback New_data_status_cb = App_new_data_status_ind"
| "app_callback Alarm_ind_cb = App_alarm_ind"
| "app_callback Alarm_cnf_cb = App_alarm_cnf"
| "app_callback Alarm_ack_cnf_cb = App_alarm_ack_cnf"
| "app_callback Reset_cb = App_reset_ind"
| "app_callback Signal_led_cb = App_signal_led_ind"
| "app_callback Sm_released_cb = App_sm_released_ind"

definition app_pnet_cfg_init_default :: "cfg_consts \<Rightarrow> pnet_cfg" where
  "app_pnet_cfg_init_default z =
     (snd (app_utils_pnet_cfg_init_default z))\<lparr>cfg_cbs := (\<lambda>s. Some (app_callback s))\<rparr>"

section \<open>Properties\<close>

text \<open>The identifiers put together again from their bytes, as the stack sends them.\<close>

definition id_of_bytes :: "u8 \<Rightarrow> u8 \<Rightarrow> u16" where
  "id_of_bytes hi lo = push_bit 8 (ucast hi) OR ucast lo"

definition cfg_texts_fit :: "cfg_consts \<Rightarrow> bool" where
  "cfg_texts_fit z =
     (18 \<le> sz_order_id z \<and> 4 \<le> sz_serial_number z \<and> 12 \<le> sz_tag_function z \<and> 12 \<le> sz_tag_location z \<and>
      17 \<le> sz_date z \<and> 14 \<le> sz_descriptor z \<and> 17 \<le> sz_product_name z \<and> 6 \<le> sz_station_name z)"

text \<open>The device presents itself as its description file says: if the arrays of p-net hold the texts, none of them
  is cut, and the vendor and device identifiers, split into bytes for the wire, are the ones of the
  description when put together again.\<close>

theorem default_config_faithful:
  assumes "cfg_texts_fit z"
  shows "let cfg = app_pnet_cfg_init_default z; im = im_0_data cfg; d = device_id cfg; e = oem_device_id cfg in
    im_order_id im = APP_GSDML_ORDER_ID \<and> im_serial_number im = APP_GSDML_EXAMPLE_SERIAL_NUMBER \<and>
    im_tag_function cfg = APP_GSDML_TAG_FUNCTION \<and> im_tag_location cfg = APP_GSDML_TAG_LOCATION \<and>
    im_date cfg = APP_GSDML_IM_DATE \<and> im_descriptor cfg = APP_GSDML_DESCRIPTOR \<and>
    product_name cfg = APP_GSDML_PRODUCT_NAME \<and> cfg_station_name cfg = APP_GSDML_DEFAULT_STATION_NAME \<and>
    id_of_bytes (im_vendor_id_hi im) (im_vendor_id_lo im) = APP_GSDML_VENDOR_ID \<and>
    id_of_bytes (vendor_id_hi d) (vendor_id_lo d) = APP_GSDML_VENDOR_ID \<and>
    id_of_bytes (device_id_hi d) (device_id_lo d) = APP_GSDML_DEVICE_ID \<and>
    id_of_bytes (vendor_id_hi e) (vendor_id_lo e) = APP_GSDML_OEM_VENDOR_ID \<and>
    id_of_bytes (device_id_hi e) (device_id_lo e) = APP_GSDML_OEM_DEVICE_ID"
proof -
  have ids: "id_of_bytes (GET_HIGH_BYTE i) (GET_LOW_BYTE i) = i" for i
  proof (rule bit_word_eqI)
    have mask: "(0xFF :: u16) = mask 8" by (simp add: mask_eq_exp_minus_1)
    show "bit (id_of_bytes (GET_HIGH_BYTE i) (GET_LOW_BYTE i)) n = bit i n" if "n < LENGTH(16)" for n
      using that unfolding id_of_bytes_def GET_HIGH_BYTE_def GET_LOW_BYTE_def mask
      by (cases "n < 8") (auto simp: bit_simps)
  qed
  show ?thesis
    using assms
    by (auto simp: app_pnet_cfg_init_default_def app_utils_pnet_cfg_init_default_def cfg_texts_fit_def ids snprintf_def
        gsdml_texts Let_def)
qed

definition demo_cfg :: cfg_consts where
  "demo_cfg = \<lparr>sz_order_id = 21, sz_serial_number = 17, sz_tag_function = 33, sz_tag_location = 23, sz_date = 17,
     sz_descriptor = 55, sz_signature = 55, sz_product_name = 26, sz_station_name = 241, PNET_VERSION_MAJOR = 0,
     PNET_VERSION_MINOR = 2, PNET_VERSION_PATCH = 0, PNET_SUPPORTED_IM1 = 2, PNET_SUPPORTED_IM2 = 4,
     PNET_SUPPORTED_IM3 = 8\<rparr>"

theorem default_config_faithful_witness:
  "im_order_id (im_0_data (app_pnet_cfg_init_default demo_cfg)) = ''12345 Abcdefghijk''"
proof -
  have "cfg_texts_fit demo_cfg" by code_simp
  from default_config_faithful [OF this] show ?thesis by (simp add: Let_def APP_GSDML_ORDER_ID_def)
qed

end
