(* ===== verification/AppLog.thy ===== *)
theory AppLog
  imports AppUtils
begin

text \<open>
  The log of the Profinet application, \<open>src/src/profeth/src/app_log.c\<close>, and the functions of
  \<open>app_utils.c\<close> that only print.  The state is the level and the text on the standard output.
\<close>

definition APP_LOG_LEVEL_DEBUG :: int where "APP_LOG_LEVEL_DEBUG = 0"
definition APP_LOG_LEVEL_INFO :: int where "APP_LOG_LEVEL_INFO = 1"
definition APP_LOG_LEVEL_WARNING :: int where "APP_LOG_LEVEL_WARNING = 2"
definition APP_LOG_LEVEL_ERROR :: int where "APP_LOG_LEVEL_ERROR = 3"
definition APP_LOG_LEVEL_FATAL :: int where "APP_LOG_LEVEL_FATAL = 4"

lemmas log_levels =
  APP_LOG_LEVEL_DEBUG_def APP_LOG_LEVEL_INFO_def APP_LOG_LEVEL_WARNING_def APP_LOG_LEVEL_ERROR_def
  APP_LOG_LEVEL_FATAL_def

record app_log_st =
  log_level :: int
  out :: string

definition app_log_set_log_level :: "int \<Rightarrow> app_log_st \<Rightarrow> app_log_st" where
  "app_log_set_log_level level st = st\<lparr>log_level := level\<rparr>"

text \<open>The message with its arguments put in.\<close>

definition app_log :: "int \<Rightarrow> string \<Rightarrow> app_log_st \<Rightarrow> app_log_st" where
  "app_log level msg st = (if log_level st \<le> level then st\<lparr>out := out st @ msg\<rparr> else st)"

definition app_log_print_bytes :: "int \<Rightarrow> u8 list \<Rightarrow> app_log_st \<Rightarrow> app_log_st" where
  "app_log_print_bytes level bytes st =
     (if log_level st \<le> level
      then st\<lparr>out := out st @ ''  Bytes: '' @ concat (map (\<lambda>b. hex02 b @ '' '') bytes) @ nl\<rparr> else st)"

section \<open>Functions that print\<close>

text \<open>\<open>get_mac\<close> is \<open>pnal_get_macaddress\<close>, six bytes or a failure.\<close>

definition mac_text :: "u8 list \<Rightarrow> string" where
  "mac_text addr =
     hex02 (addr ! 0) @ '':'' @ hex02 (addr ! 1) @ '':'' @ hex02 (addr ! 2) @ '':'' @
     hex02 (addr ! 3) @ '':'' @ hex02 (addr ! 4) @ '':'' @ hex02 (addr ! 5)"

definition app_utils_print_mac_address :: "(cstr \<Rightarrow> u8 list option) \<Rightarrow> cstr \<Rightarrow> app_log_st \<Rightarrow> app_log_st" where
  "app_utils_print_mac_address get_mac ifname st =
     (case get_mac ifname of
        Some addr \<Rightarrow> app_log APP_LOG_LEVEL_INFO (mac_text addr @ nl) st
      | None \<Rightarrow> app_log APP_LOG_LEVEL_ERROR (''Failed read mac address'' @ nl) st)"

fun print_ports :: "(cstr \<Rightarrow> u8 list option) \<Rightarrow> nat \<Rightarrow> (string \<times> u16) list \<Rightarrow> app_log_st \<Rightarrow> app_log_st" where
  "print_ports get_mac i [] st = st"
| "print_ports get_mac i (p # ps) st =
     print_ports get_mac (Suc i) ps
       (app_utils_print_mac_address get_mac (Some (fst p))
         (app_log APP_LOG_LEVEL_INFO (''Physical port ['' @ dec_nat i @ '']:    '' @ fst p @ '' '') st))"

definition ip_text :: "pnet_cfg_ip_addr \<Rightarrow> string" where
  "ip_text a = dec_u (ip_a a) @ ''.'' @ dec_u (ip_b a) @ ''.'' @ dec_u (ip_c a) @ ''.'' @ dec_u (ip_d a)"

text \<open>The configuration has an entry for each of the ports; \<open>hostname\<close> is \<^const>\<open>None\<close> if it cannot be
  read.\<close>

definition app_utils_print_network_config ::
  "(cstr \<Rightarrow> u8 list option) \<Rightarrow> string option \<Rightarrow> pnet_if_cfg \<Rightarrow> u16 \<Rightarrow> app_log_st \<Rightarrow> app_log_st" where
  "app_utils_print_network_config get_mac hostname if_cfg number_of_ports st =
     (let st = app_log APP_LOG_LEVEL_INFO (''Management port:      '' @ pstr (main_netif_name if_cfg) @ '' '') st;
          st = app_utils_print_mac_address get_mac (main_netif_name if_cfg) st;
          st = print_ports get_mac 1 (take (unat number_of_ports) (physical_ports if_cfg)) st;
          hostname_string = (case hostname of None \<Rightarrow> [] | Some h \<Rightarrow> h);
          st = app_log APP_LOG_LEVEL_INFO (''Hostname:             '' @ hostname_string @ nl) st;
          st = app_log APP_LOG_LEVEL_INFO (''IP address:           '' @ ip_text (ip_addr if_cfg) @ nl) st;
          st = app_log APP_LOG_LEVEL_INFO (''Netmask:              '' @ ip_text (ip_mask if_cfg) @ nl) st
      in app_log APP_LOG_LEVEL_INFO (''Gateway:              '' @ ip_text (ip_gateway if_cfg) @ nl) st)"

definition where_text :: "app_subslot \<Rightarrow> string" where
  "where_text s =
     '' for slot '' @ dec_u (slot_nbr s) @ '' subslot '' @ dec_u (subslot_nbr s) @ '' '' @ dq @
     pstr (submodule_name s) @ dq"

definition app_utils_print_ioxs_change ::
  "pnet_consts \<Rightarrow> app_subslot \<Rightarrow> string \<Rightarrow> u8 \<Rightarrow> u8 \<Rightarrow> app_log_st \<Rightarrow> app_log_st" where
  "app_utils_print_ioxs_change k subslot ioxs_str ioxs_current ioxs_new st =
     (if ioxs_current \<noteq> ioxs_new then
        if ioxs_new = PNET_IOXS_BAD k then
          app_log APP_LOG_LEVEL_DEBUG (''PLC reports '' @ ioxs_str @ '' BAD'' @ where_text subslot @ nl) st
        else if ioxs_new = PNET_IOXS_GOOD k then
          app_log APP_LOG_LEVEL_DEBUG (''PLC reports '' @ ioxs_str @ '' GOOD'' @ where_text subslot @ ''.'' @ nl) st
        else
          app_log APP_LOG_LEVEL_DEBUG (''PLC reports '' @ ioxs_str @ '' '' @ dec_u ioxs_new @ where_text subslot @ ''.'' @ nl @
            ''  Is the PLC in STOP mode?'' @ nl) st
      else st)"

section \<open>Bytes as text\<close>

text \<open>Reading a byte array back from its dump.\<close>

definition hex_value :: "char \<Rightarrow> nat" where
  "hex_value c = (let n = (of_char c :: nat) in if n < 58 then n - 48 else n - 55)"

fun read_hex :: "string \<Rightarrow> u8 list" where
  "read_hex (a # b # c # cs) = of_nat (16 * hex_value a + hex_value b) # read_hex cs"
| "read_hex _ = []"

lemma hex_values: "list_all (\<lambda>d. hex_value (hex_digit d) = d) [0..<16]"
  by code_simp

lemma hex_value_digit: "d < 16 \<Longrightarrow> hex_value (hex_digit d) = d"
  using hex_values by (simp only: list_all_iff set_upt atLeastLessThan_iff ball_simps) auto

lemma read_hex_bytes: "read_hex (concat (map (\<lambda>b. hex02 b @ '' '') bytes) @ nl) = bytes"
proof (induction bytes)
  case (Cons b bs)
  have "unat b < 256" using unsigned_less [of b, where ?'a = nat] by simp
  then have "hex_value (hex_digit (unat b div 16)) = unat b div 16" "hex_value (hex_digit (unat b mod 16)) = unat b mod 16"
    by (simp_all add: hex_value_digit)
  with Cons show ?case by (simp add: hex02_def)
qed (simp add: nl_def)

section \<open>Properties\<close>

lemma app_log_fold:
  "fold (\<lambda>(level, msg). app_log level msg) ms st =
     st\<lparr>out := out st @ concat (map snd (filter (\<lambda>(level, msg). log_level st \<le> level) ms))\<rparr>"
  by (induction ms arbitrary: st) (auto simp: app_log_def)

text \<open>A byte array that is logged can be read back from the output: if the level is printed at all, the line has
  behind its heading three characters for each byte, and the numbers they denote are the bytes; otherwise
  nothing is printed.\<close>

theorem dump_roundtrip:
  "\<exists>t. out (app_log_print_bytes level bytes st) = out st @ t \<and>
     (if log_level st \<le> level then read_hex (drop (length ''  Bytes: '') t) = bytes \<and> length t = 10 + 3 * length bytes
      else t = [])"
proof (cases "log_level st \<le> level")
  case True
  let ?h = "concat (map (\<lambda>b. hex02 b @ '' '') bytes)"
  have "length ?h = 3 * length bytes" by (induction bytes) (simp_all add: hex02_def)
  with True read_hex_bytes [of bytes] show ?thesis
    by (intro exI [of _ "''  Bytes: '' @ ?h @ nl"]) (simp add: app_log_print_bytes_def nl_def)
qed (simp add: app_log_print_bytes_def)

end
