(* ===== verification/PnalTools.thy ===== *)
theory PnalTools
  imports Posix
begin

text \<open>
  \<open>src/src/profeth/src/pnal_filetools.c\<close>: looking for files and running a script.  What the operating system
  answers is the record \<open>pe_env\<close>: which paths exist, where \<open>/proc/self/exe\<close> leads, whether \<open>fork\<close>,
  \<open>setenv\<close> and \<open>wait\<close> succeed, and the status of a script that could be executed with a given search
  path, \<^const>\<open>None\<close> if \<open>execvpe\<close> finds none.  A string without its terminating zero cannot be read:
  \<^const>\<open>None\<close>.
\<close>

record pe_env =
  pe_exists :: "string \<Rightarrow> bool"
  pe_exe :: "string option"
  pe_fork :: bool
  pe_setenv :: bool
  pe_wait :: bool
  pe_exec :: "string list \<Rightarrow> string \<Rightarrow> int option"

record path_sizes =
  PNET_MAX_FILE_FULLPATH_SIZE :: nat
  PNET_MAX_DIRECTORYPATH_SIZE :: nat
  PNET_MAX_FILENAME_SIZE :: nat

definition PNAL_DEFAULT_SEARCHPATH :: string where "PNAL_DEFAULT_SEARCHPATH = ''/bin:/usr/bin''"

definition pnal_does_file_exist :: "pe_env \<Rightarrow> string \<Rightarrow> bool" where
  "pnal_does_file_exist env filepath = pe_exists env filepath"

text \<open>\<open>readlink\<close> fills at most \<open>size\<close> bytes and adds no zero; the buffer was cleared before.\<close>

definition pnal_get_directory_of_binary :: "pe_env \<Rightarrow> nat \<Rightarrow> (int \<times> string) option" where
  "pnal_get_directory_of_binary env sz =
     (case pe_exe env of
        None \<Rightarrow> Some (-1, [])
      | Some exe \<Rightarrow>
          if sz \<le> length exe then None
          else if \<not> pnal_does_file_exist env exe then Some (-1, [])
          else Some (0, snprintf sz (dirname exe)))"

definition pnal_create_searchpath :: "path_sizes \<Rightarrow> pe_env \<Rightarrow> nat \<Rightarrow> (int \<times> string) option" where
  "pnal_create_searchpath z env sz =
     do {
       (rc, directory_of_binary) \<leftarrow>
         pnal_get_directory_of_binary env (PNET_MAX_DIRECTORYPATH_SIZE z + PNET_MAX_FILENAME_SIZE z);
       if rc \<noteq> 0 then Some (-1, [])
       else
         (let s = PNAL_DEFAULT_SEARCHPATH @ '':'' @ directory_of_binary in
          Some (if sz \<le> length s then -1 else 0, snprintf sz s))
     }"

text \<open>The child that runs the script: its wait status, an \<open>exit (EXIT_FAILURE)\<close> being 256, and what was
  executed with which search path.\<close>

definition script_child :: "pe_env \<Rightarrow> string list \<Rightarrow> string \<Rightarrow> int \<times> (string list \<times> string) list" where
  "script_child env argv path =
     (if \<not> pe_setenv env then (256, [])
      else (case pe_exec env argv path of None \<Rightarrow> (256, []) | Some status \<Rightarrow> (status, [(argv, path)])))"

text \<open>\<open>argv\<close> is \<^const>\<open>None\<close> for a null pointer, and the list ends before its null entry.  The result has the
  return value and the script that was run.\<close>

definition pnal_execute_script ::
  "path_sizes \<Rightarrow> pe_env \<Rightarrow> string list option \<Rightarrow> (int \<times> (string list \<times> string) list) option" where
  "pnal_execute_script z env argv =
     (case argv of
        None \<Rightarrow> Some (-1, [])
      | Some [] \<Rightarrow> Some (-1, [])
      | Some (a # as) \<Rightarrow>
          do {
            (rc, path) \<leftarrow>
              pnal_create_searchpath z env (Suc (length PNAL_DEFAULT_SEARCHPATH) + PNET_MAX_DIRECTORYPATH_SIZE z);
            if rc \<noteq> 0 then Some (-1, [])
            else if \<not> pe_fork env then Some (-1, [])
            else
              (case script_child env (a # as) path of
                 (status, runs) \<Rightarrow>
                   (let childstatus = (if pe_wait env then status else 0) in
                    Some (if WEXITSTATUS childstatus = 0 then 0 else -1, runs)))
          })"

section \<open>Properties\<close>

lemma take_short: "length xs < n \<Longrightarrow> take (n - Suc 0) xs = xs"
  by simp

lemma dirname_length: "length (dirname p) \<le> max 1 (length p)"
  by (auto simp: dirname_def Let_def split: option.splits)

text \<open>The status \<open>wait\<close> gives on Linux: the exit code in the second byte, or the number of a signal in the first.\<close>

definition wait_status :: "int \<Rightarrow> bool" where
  "wait_status status =
     ((0 \<le> status \<and> status < 65536 \<and> status mod 256 = 0) \<or> (0 \<le> status \<and> status < 256 \<and> WIFSIGNALED status))"

lemma wait_status_zero:
  assumes "wait_status status"
  shows "WEXITSTATUS status = 0 \<longleftrightarrow> status = 0 \<or> WIFSIGNALED status"
proof (cases "0 \<le> status \<and> status < 256 \<and> WIFSIGNALED status")
  case True
  then show ?thesis by (simp add: WEXITSTATUS_def)
next
  case False
  with assms have s: "0 \<le> status" "status < 65536" "status mod 256 = 0" by (auto simp: wait_status_def)
  then obtain k where k: "status = 128 * (2 * k)" "0 \<le> k" "k < 256" by (auto elim!: dvdE simp: mod_eq_0_iff_dvd)
  have "status mod 128 = 0" unfolding k(1) by simp
  moreover have "status div 256 mod 256 = k" using k by simp
  ultimately show ?thesis using k(1) by (simp add: WEXITSTATUS_def WIFSIGNALED_def)
qed

lemma script_searchpath:
  assumes "pe_exe env = Some exe" "pe_exists env exe"
    and "length exe < PNET_MAX_DIRECTORYPATH_SIZE z + PNET_MAX_FILENAME_SIZE z"
    and "length (dirname exe) < PNET_MAX_DIRECTORYPATH_SIZE z"
  shows "pnal_create_searchpath z env (Suc (length PNAL_DEFAULT_SEARCHPATH) + PNET_MAX_DIRECTORYPATH_SIZE z) =
    Some (0, PNAL_DEFAULT_SEARCHPATH @ '':'' @ dirname exe)"
  using assms
  by (simp add: pnal_create_searchpath_def pnal_get_directory_of_binary_def pnal_does_file_exist_def snprintf_def
      PNAL_DEFAULT_SEARCHPATH_def)

text \<open>C39. A script runs with the system's directories in front of the directory of the program in its search path, so a
  system program of the same name is preferred; the buffers are large enough for every directory that has the length
  p-net allows.  Success is reported exactly if the script left with status 0 or was killed by a signal: a
  crash of the script passes for success, while a script that is missing does not.\<close>

theorem script_status:
  assumes "pe_exe env = Some exe" "pe_exists env exe"
    and "length exe < PNET_MAX_DIRECTORYPATH_SIZE z + PNET_MAX_FILENAME_SIZE z"
    and "length (dirname exe) < PNET_MAX_DIRECTORYPATH_SIZE z"
    and "pe_fork env" "pe_setenv env" "pe_wait env"
    and "\<forall>status. pe_exec env argv (PNAL_DEFAULT_SEARCHPATH @ '':'' @ dirname exe) = Some status \<longrightarrow>
      wait_status status"
    and "argv \<noteq> []"
  shows "pnal_execute_script z env (Some argv) =
    (case pe_exec env argv (PNAL_DEFAULT_SEARCHPATH @ '':'' @ dirname exe) of
       None \<Rightarrow> Some (-1, [])
     | Some status \<Rightarrow> Some (if status = 0 \<or> WIFSIGNALED status then 0 else -1,
                           [(argv, PNAL_DEFAULT_SEARCHPATH @ '':'' @ dirname exe)]))"
proof -
  obtain a as where argv: "argv = a # as" using assms(9) by (cases argv) auto
  note path = script_searchpath [OF assms(1-4)]
  show ?thesis
  proof (cases "pe_exec env argv (PNAL_DEFAULT_SEARCHPATH @ '':'' @ dirname exe)")
    case None
    with assms(5-7) path argv show ?thesis
      by (simp add: pnal_execute_script_def script_child_def WEXITSTATUS_def)
  next
    case (Some status)
    with assms(8) have "wait_status status" by blast
    then have "WEXITSTATUS status = 0 \<longleftrightarrow> status = 0 \<or> WIFSIGNALED status" by (rule wait_status_zero)
    with Some assms(5-7) path argv show ?thesis
      by (simp add: pnal_execute_script_def script_child_def Let_def)
  qed
qed

definition demo_pe :: pe_env where
  "demo_pe = \<lparr>pe_exists = (\<lambda>p. True), pe_exe = Some ''/usr/bin/profeth'', pe_fork = True, pe_setenv = True,
     pe_wait = True, pe_exec = (\<lambda>argv path. Some 9)\<rparr>"

definition demo_sizes :: path_sizes where
  "demo_sizes = \<lparr>PNET_MAX_FILE_FULLPATH_SIZE = 270, PNET_MAX_DIRECTORYPATH_SIZE = 240, PNET_MAX_FILENAME_SIZE = 30\<rparr>"

theorem script_status_witness:
  "pnal_execute_script demo_sizes demo_pe (Some [''set_profinet_leds'', ''1'', ''1'']) =
     Some (0, [([''set_profinet_leds'', ''1'', ''1''], ''/bin:/usr/bin:/usr/bin'')])"
proof -
  have d: "dirname ''/usr/bin/profeth'' = ''/usr/bin''" by code_simp
  show ?thesis
    using script_status [of demo_pe "''/usr/bin/profeth''" demo_sizes "[''set_profinet_leds'', ''1'', ''1'']"]
    by (simp add: demo_pe_def demo_sizes_def d PNAL_DEFAULT_SEARCHPATH_def wait_status_def WIFSIGNALED_def)
qed

end
