(* ===== verification/Profeth.thy ===== *)
theory Profeth
  imports AppConfig AppLog PnalTools Getopt SampleLoop Helpers
begin

text \<open>
  The main program of the Profinet device, \<open>src/src/profeth/src/profeth.c\<close>: the command line, buttons
  and LEDs, and the start of the stack and the application.  \<open>Some (Inl c)\<close> is \<open>exit (c)\<close>, \<^const>\<open>None\<close> a write
  behind the end of an array.  Messages are left out; the sizes are those of p-net.
\<close>

datatype app_mode = MODE_HW_OFFLOAD_NONE | MODE_HW_OFFLOAD_CPU | MODE_HW_OFFLOAD_FULL

record app_args =
  path_button1 :: string
  path_button2 :: string
  path_storage_directory :: string
  station_name :: string
  eth_interfaces :: string
  verbosity :: int
  show_count :: int
  factory_reset :: bool
  remove_files :: bool
  mode :: app_mode

record prof_consts =
  p_sizes :: path_sizes
  p_pnet :: pnet_consts
  p_cfg :: cfg_consts
  PNET_STATION_NAME_MAX_SIZE :: nat
  PNET_OPTION_DRIVER_ENABLE :: bool

definition EXIT_FAILURE :: int where "EXIT_FAILURE = 1"
definition EXIT_SUCCESS :: int where "EXIT_SUCCESS = 0"

definition APP_DEFAULT_ETHERNET_INTERFACE :: "pnet_consts \<Rightarrow> string" where
  "APP_DEFAULT_ETHERNET_INTERFACE k = (if PNET_MAX_PHYSICAL_PORTS k = 1 then ''eth0'' else ''br0,eth0,eth1'')"

text \<open>\<open>strcpy\<close> into an array of \<open>n\<close> bytes.\<close>

definition strcpy :: "nat \<Rightarrow> string \<Rightarrow> string option" where
  "strcpy n s = (if length s < n then Some s else None)"

definition eth_size :: "pnet_consts \<Rightarrow> nat" where
  "eth_size k = PNET_INTERFACE_NAME_MAX_SIZE k * (PNET_MAX_PHYSICAL_PORTS k + 1) + PNET_MAX_PHYSICAL_PORTS k"

section \<open>Command line\<close>

definition default_args :: "prof_consts \<Rightarrow> app_args option" where
  "default_args z =
     do {
       b1 \<leftarrow> strcpy (PNET_MAX_FILE_FULLPATH_SIZE (p_sizes z)) [];
       b2 \<leftarrow> strcpy (PNET_MAX_FILE_FULLPATH_SIZE (p_sizes z)) [];
       p \<leftarrow> strcpy (PNET_MAX_DIRECTORYPATH_SIZE (p_sizes z)) [];
       s \<leftarrow> strcpy (PNET_STATION_NAME_MAX_SIZE z) APP_GSDML_DEFAULT_STATION_NAME;
       e \<leftarrow> strcpy (eth_size (p_pnet z)) (APP_DEFAULT_ETHERNET_INTERFACE (p_pnet z));
       Some \<lparr>path_button1 = b1, path_button2 = b2, path_storage_directory = p, station_name = s, eth_interfaces = e,
         verbosity = 0, show_count = 0, factory_reset = False, remove_files = False, mode = MODE_HW_OFFLOAD_NONE\<rparr>
     }"

definition parse_mode :: "string \<Rightarrow> app_mode option" where
  "parse_mode s =
     (if s = ''none'' then Some MODE_HW_OFFLOAD_NONE
      else if s = ''cpu'' then Some MODE_HW_OFFLOAD_CPU
      else if s = ''full'' then Some MODE_HW_OFFLOAD_FULL
      else None)"

text \<open>One option; \<open>optarg\<close> is there for those that take an argument.\<close>

definition parse_option :: "prof_consts \<Rightarrow> char \<Rightarrow> string \<Rightarrow> app_args \<Rightarrow> (int + app_args) option" where
  "parse_option z c optarg args =
     (let full = PNET_MAX_FILE_FULLPATH_SIZE (p_sizes z) in
      if c = CHR ''v'' then Some (Inr (args\<lparr>verbosity := verbosity args + 1\<rparr>))
      else if c = CHR ''g'' then Some (Inr (args\<lparr>show_count := show_count args + 1\<rparr>))
      else if c = CHR ''f'' then Some (Inr (args\<lparr>factory_reset := True\<rparr>))
      else if c = CHR ''r'' then Some (Inr (args\<lparr>remove_files := True\<rparr>))
      else if c = CHR ''i'' then
        if length optarg + 1 > eth_size (p_pnet z) then Some (Inl EXIT_FAILURE)
        else do { s \<leftarrow> strcpy (eth_size (p_pnet z)) optarg; Some (Inr (args\<lparr>eth_interfaces := s\<rparr>)) }
      else if c = CHR ''s'' then
        do { s \<leftarrow> strcpy (PNET_STATION_NAME_MAX_SIZE z) optarg; Some (Inr (args\<lparr>station_name := s\<rparr>)) }
      else if c = CHR ''b'' then
        if length optarg + 1 > full then Some (Inl EXIT_FAILURE)
        else do { s \<leftarrow> strcpy full optarg; Some (Inr (args\<lparr>path_button1 := s\<rparr>)) }
      else if c = CHR ''d'' then
        if length optarg + 1 > full then Some (Inl EXIT_FAILURE)
        else do { s \<leftarrow> strcpy full optarg; Some (Inr (args\<lparr>path_button2 := s\<rparr>)) }
      else if c = CHR ''p'' then
        if length optarg + 1 > full then Some (Inl EXIT_FAILURE)
        else
          do { s \<leftarrow> strcpy (PNET_MAX_DIRECTORYPATH_SIZE (p_sizes z)) optarg;
               Some (Inr (args\<lparr>path_storage_directory := s\<rparr>)) }
      else if c = CHR ''m'' \<and> PNET_OPTION_DRIVER_ENABLE z then
        (case parse_mode optarg of
           None \<Rightarrow> Some (Inl EXIT_FAILURE)
         | Some m \<Rightarrow> Some (Inr (args\<lparr>mode := m\<rparr>)))
      else Some (Inl EXIT_FAILURE))"

fun parse_options :: "prof_consts \<Rightarrow> opt list \<Rightarrow> app_args \<Rightarrow> (int + app_args) option" where
  "parse_options z [] args = Some (Inr args)"
| "parse_options z (Opt c arg # os) args =
     do {
       r \<leftarrow> parse_option z c (case arg of None \<Rightarrow> [] | Some s \<Rightarrow> s) args;
       case r of Inl e \<Rightarrow> Some (Inl e) | Inr args \<Rightarrow> parse_options z os args
     }"

text \<open>\<open>argv\<close> without the name of the program; \<open>cwd\<close> is the current directory, if it can be read.\<close>

definition parse_commandline_arguments ::
  "prof_consts \<Rightarrow> bool \<Rightarrow> string option \<Rightarrow> string list \<Rightarrow> (int + app_args) option" where
  "parse_commandline_arguments z permute cwd argv =
     (if argv \<noteq> [] \<and> hd argv = ''--help'' then Some (Inl EXIT_FAILURE)
      else
        do {
          args \<leftarrow> default_args z;
          r \<leftarrow> parse_options z (fst (getopt permute ''hvgfri:s:b:d:p:m:'' argv)) args;
          case r of
            Inl e \<Rightarrow> Some (Inl e)
          | Inr args \<Rightarrow>
              if path_storage_directory args \<noteq> [] then Some (Inr args)
              else (case cwd of
                      None \<Rightarrow> Some (Inl EXIT_FAILURE)
                    | Some d \<Rightarrow>
                        if PNET_MAX_DIRECTORYPATH_SIZE (p_sizes z) \<le> length d then Some (Inl EXIT_FAILURE)
                        else Some (Inr (args\<lparr>path_storage_directory := d\<rparr>)))
        })"

section \<open>Buttons and LEDs\<close>

definition read_bool_from_file :: "os \<Rightarrow> string \<Rightarrow> world \<Rightarrow> bool" where
  "read_bool_from_file os filepath w =
     (case fopen os filepath ''r'' w of
        (None, w) \<Rightarrow> False
      | (Some fp, w) \<Rightarrow> (case file_text w fp of [] \<Rightarrow> False | ch # cs \<Rightarrow> ch = CHR ''1''))"

definition app_get_button :: "os \<Rightarrow> app_args \<Rightarrow> u16 \<Rightarrow> world \<Rightarrow> bool" where
  "app_get_button os args ident w =
     (if ident = 0 then path_button1 args \<noteq> [] \<and> read_bool_from_file os (path_button1 args) w
      else if ident = 1 then path_button2 args \<noteq> [] \<and> read_bool_from_file os (path_button2 args) w
      else False)"

text \<open>The number of the LED has at most five digits and fits its array.  The result is the script that was
  run.\<close>

definition linux_set_led :: "path_sizes \<Rightarrow> pe_env \<Rightarrow> u16 \<Rightarrow> bool \<Rightarrow> (string list \<times> string) list option" where
  "linux_set_led z env ident led_state =
     do {
       (rc, runs) \<leftarrow> pnal_execute_script z env
         (Some [''set_profinet_leds'', dec_u ident, if led_state then ''1'' else ''0'']);
       Some runs
     }"

section \<open>Start\<close>

definition app_pnet_cfg_init_storage :: "prof_consts \<Rightarrow> (string \<Rightarrow> bool) \<Rightarrow> app_args \<Rightarrow> (int \<times> string) option" where
  "app_pnet_cfg_init_storage z exists args =
     do {
       directory \<leftarrow> strcpy (PNET_MAX_DIRECTORYPATH_SIZE (p_sizes z)) (path_storage_directory args);
       if \<not> exists directory then Some (-1, directory)
       else if path_button1 args \<noteq> [] \<and> \<not> exists (path_button1 args) then Some (-1, directory)
       else if path_button2 args \<noteq> [] \<and> \<not> exists (path_button2 args) then Some (-1, directory)
       else Some (0, directory)
     }"

definition log_level_of :: "int \<Rightarrow> int" where
  "log_level_of v = (if v \<le> APP_LOG_LEVEL_FATAL then APP_LOG_LEVEL_FATAL - v else APP_LOG_LEVEL_DEBUG)"

text \<open>The configuration \<open>main\<close> hands to the stack: the default configuration with the station name and the number of
  ports set, the interfaces (\<^const>\<open>None\<close> while the structure is zero), the storage directory, and priority and stack
  size of the three threads.\<close>

record main_cfg =
  mc_pnet :: pnet_cfg
  mc_if :: "pnet_if_cfg option"
  file_directory :: string
  snmp_thread :: "nat \<times> nat"
  eth_recv_thread :: "nat \<times> nat"
  bg_worker_thread :: "nat \<times> nat"

definition APP_SNMP_THREAD_PRIORITY :: nat where "APP_SNMP_THREAD_PRIORITY = 1"
definition APP_SNMP_THREAD_STACKSIZE :: nat where "APP_SNMP_THREAD_STACKSIZE = 256 * 1024"
definition APP_ETH_THREAD_PRIORITY :: nat where "APP_ETH_THREAD_PRIORITY = 10"
definition APP_ETH_THREAD_STACKSIZE :: nat where "APP_ETH_THREAD_STACKSIZE = 4096"
definition APP_BG_WORKER_THREAD_PRIORITY :: nat where "APP_BG_WORKER_THREAD_PRIORITY = 5"
definition APP_BG_WORKER_THREAD_STACKSIZE :: nat where "APP_BG_WORKER_THREAD_STACKSIZE = 4096"

definition main_config :: "prof_consts \<Rightarrow> string \<Rightarrow> (u16 \<times> pnet_if_cfg) option \<Rightarrow> string \<Rightarrow> main_cfg" where
  "main_config z name netifs directory =
     \<lparr>mc_pnet = (app_pnet_cfg_init_default (p_cfg z))
        \<lparr>cfg_station_name := name, cfg_ports := (case netifs of None \<Rightarrow> 1 | Some (n, _) \<Rightarrow> n)\<rparr>,
      mc_if = map_option snd netifs, file_directory = directory,
      snmp_thread = (APP_SNMP_THREAD_PRIORITY, APP_SNMP_THREAD_STACKSIZE),
      eth_recv_thread = (APP_ETH_THREAD_PRIORITY, APP_ETH_THREAD_STACKSIZE),
      bg_worker_thread = (APP_BG_WORKER_THREAD_PRIORITY, APP_BG_WORKER_THREAD_STACKSIZE)\<rparr>"

datatype main_effect =
    Set_log_level int
  | Remove_data_files string
  | Stack_init main_cfg
  | Pnet_factory_reset
  | Pnet_show int
  | Set_agentx_socket string

datatype 'n main_end = Exits int | Loops u16 "'n app_data"

text \<open>What the surroundings answer.\<close>

record 'n prof_env =
  pf_permute :: bool
  pf_cwd :: "string option"
  pf_exists :: "string \<Rightarrow> bool"
  pf_pnal :: pnal
  pf_pnet :: "'n pnet"
  pf_le :: bool
  pf_event_ok :: bool
  pf_timer_ok :: bool

text \<open>From \<open>app_init\<close> to the endless sleep.\<close>

definition main_run :: "'n prof_env \<Rightarrow> app_args \<Rightarrow> main_cfg \<Rightarrow> main_effect list \<Rightarrow> 'n main_end \<times> main_effect list" where
  "main_run env args cfg effs =
     (case app_init (pf_le env) (pf_pnet env) (cfg_ports (mc_pnet cfg)) of
        None \<Rightarrow> (Exits EXIT_FAILURE, effs)
      | Some app \<Rightarrow>
          (let effs = effs @ [Stack_init cfg] in
           if factory_reset args then (Exits EXIT_SUCCESS, effs @ [Pnet_factory_reset])
           else if 0 < show_count args then
             (Exits EXIT_SUCCESS, effs @ [Pnet_show (if show_count args = 1 then 0x2010 else 0xFFFF)])
           else
             (let effs = effs @ [Set_agentx_socket ''/var/run/agentx/master''] in
              case app_start (pf_event_ok env) (pf_timer_ok env) (Some app) of
                (rc, app') \<Rightarrow>
                  if rc \<noteq> 0 then (Exits EXIT_FAILURE, effs)
                  else (case app' of None \<Rightarrow> (Exits EXIT_FAILURE, effs) | Some a \<Rightarrow> (Loops (cfg_ports (mc_pnet cfg)) a, effs)))))"

definition profeth_main :: "prof_consts \<Rightarrow> 'n prof_env \<Rightarrow> string list \<Rightarrow> ('n main_end \<times> main_effect list) option" where
  "profeth_main z env argv =
     do {
       r \<leftarrow> parse_commandline_arguments z (pf_permute env) (pf_cwd env) argv;
       case r of
         Inl e \<Rightarrow> Some (Exits e, [])
       | Inr args \<Rightarrow>
           (let effs = [Set_log_level (log_level_of (verbosity args))] in
            do {
              name \<leftarrow> strcpy (PNET_STATION_NAME_MAX_SIZE z) (station_name args);
              (ret, netifs) \<leftarrow> app_utils_pnet_cfg_init_netifs (p_pnet z) (pf_pnal env) (eth_interfaces args);
              if ret \<noteq> 0 then Some (Exits EXIT_FAILURE, effs)
              else
                do {
                  (ret, directory) \<leftarrow> app_pnet_cfg_init_storage z (pf_exists env) args;
                  if ret \<noteq> 0 then Some (Exits EXIT_FAILURE, effs)
                  else if remove_files args then
                    Some (Exits EXIT_SUCCESS, effs @ [Remove_data_files directory])
                  else Some (main_run env args (main_config z name netifs directory) effs)
                }
            })
     }"

end
