(* ===== verification/ProfethProps.thy ===== *)
theory ProfethProps
  imports Profeth SampleTheorems
begin

text \<open>
  What the command line of the Profinet device may do, and that the program it starts is the application whose main
  loop is never stuck.
\<close>

section \<open>The parsed command line\<close>

definition args_wf :: "prof_consts \<Rightarrow> app_args \<Rightarrow> bool" where
  "args_wf z a =
     (length (path_button1 a) < PNET_MAX_FILE_FULLPATH_SIZE (p_sizes z) \<and>
      length (path_button2 a) < PNET_MAX_FILE_FULLPATH_SIZE (p_sizes z) \<and>
      length (path_storage_directory a) < PNET_MAX_DIRECTORYPATH_SIZE (p_sizes z) \<and>
      length (station_name a) < PNET_STATION_NAME_MAX_SIZE z \<and>
      length (eth_interfaces a) < eth_size (p_pnet z) \<and>
      0 \<le> verbosity a \<and> 0 \<le> show_count a \<and>
      (mode a = MODE_HW_OFFLOAD_NONE \<or> PNET_OPTION_DRIVER_ENABLE z))"

lemma default_args_wf: "default_args z = Some a \<Longrightarrow> args_wf z a"
  by (auto simp: default_args_def strcpy_def args_wf_def split: Option.bind_splits if_splits)

lemma parse_option_wf:
  assumes "args_wf z a" "parse_option z c s a = Some (Inr a')"
  shows "args_wf z a'"
  using assms
  by (auto simp: parse_option_def strcpy_def args_wf_def Let_def split: if_splits option.splits Option.bind_splits)

lemma parse_options_wf: "parse_options z os a = Some (Inr a') \<Longrightarrow> args_wf z a \<Longrightarrow> args_wf z a'"
proof (induction os arbitrary: a)
  case (Cons o' os)
  obtain c arg where o: "o' = Opt c arg" by (cases o')
  from Cons.prems(1) o obtain b where "parse_option z c (case arg of None \<Rightarrow> [] | Some s \<Rightarrow> s) a = Some (Inr b)"
    "parse_options z os b = Some (Inr a')"
    by (auto split: Option.bind_splits sum.splits)
  with Cons.IH Cons.prems(2) parse_option_wf show ?case by blast
qed simp


section \<open>Arrays that overflow\<close>

lemma parse_option_total:
  assumes "length s < PNET_STATION_NAME_MAX_SIZE z" "length s < PNET_MAX_DIRECTORYPATH_SIZE (p_sizes z)"
  shows "parse_option z c s a \<noteq> None"
  using assms by (auto simp: parse_option_def strcpy_def Let_def split: option.splits)

lemma parse_options_total:
  assumes "\<forall>c s. Opt c (Some s) \<in> set os \<longrightarrow>
      length s < PNET_STATION_NAME_MAX_SIZE z \<and> length s < PNET_MAX_DIRECTORYPATH_SIZE (p_sizes z)"
    and "0 < PNET_STATION_NAME_MAX_SIZE z" "0 < PNET_MAX_DIRECTORYPATH_SIZE (p_sizes z)"
  shows "parse_options z os a \<noteq> None"
  using assms(1)
proof (induction os arbitrary: a)
  case (Cons o' os)
  obtain c arg where o: "o' = Opt c arg" by (cases o')
  let ?s = "case arg of None \<Rightarrow> [] | Some s \<Rightarrow> s"
  have "parse_option z c ?s a \<noteq> None"
    using Cons.prems assms(2,3) o by (intro parse_option_total) (auto split: option.splits)
  then obtain r where r: "parse_option z c ?s a = Some r" by blast
  then show ?case using Cons o by (cases r) auto
qed simp

text \<open>C38. The arguments of \<open>-s\<close> and \<open>-p\<close> are copied into arrays they need not fit: a station name as long as its array,
  and a storage directory that is longer than a directory may be but not longer than a file name may be, are written
  behind the end.  No command line with shorter arguments does that.\<close>

theorem arguments_overflow:
  assumes "default_args z \<noteq> None"
  shows "(PNET_STATION_NAME_MAX_SIZE z \<le> length s \<longrightarrow> parse_commandline_arguments z permute cwd [''-s'', s] = None) \<and>
    (PNET_MAX_DIRECTORYPATH_SIZE (p_sizes z) \<le> length p \<and> length p < PNET_MAX_FILE_FULLPATH_SIZE (p_sizes z) \<longrightarrow>
      parse_commandline_arguments z permute cwd [''-p'', p] = None) \<and>
    ((\<forall>a \<in> set argv. length a < PNET_STATION_NAME_MAX_SIZE z \<and> length a < PNET_MAX_DIRECTORYPATH_SIZE (p_sizes z)) \<longrightarrow>
      parse_commandline_arguments z permute cwd argv \<noteq> None)"
proof -
  obtain a where a: "default_args z = Some a" using assms by blast
  have "parse_commandline_arguments z permute cwd argv \<noteq> None"
    if v: "\<forall>a \<in> set argv. length a < PNET_STATION_NAME_MAX_SIZE z \<and> length a < PNET_MAX_DIRECTORYPATH_SIZE (p_sizes z)"
  proof -
    let ?n = "min (PNET_STATION_NAME_MAX_SIZE z) (PNET_MAX_DIRECTORYPATH_SIZE (p_sizes z)) - 1"
    obtain os ops where g: "getopt permute ''hvgfri:s:b:d:p:m:'' argv = (os, ops)" by force
    have pos: "0 < PNET_STATION_NAME_MAX_SIZE z" "0 < PNET_MAX_DIRECTORYPATH_SIZE (p_sizes z)"
      using default_args_wf [OF a] by (auto simp: args_wf_def)
    have "length s < PNET_STATION_NAME_MAX_SIZE z \<and> length s < PNET_MAX_DIRECTORYPATH_SIZE (p_sizes z)"
      if "Opt c (Some s) \<in> set os" for c s
      using getopt_args [OF g that, of ?n] v pos by fastforce
    with parse_options_total [of os z a] pos have "parse_options z os a \<noteq> None" by blast
    with a g show ?thesis
      by (auto simp: parse_commandline_arguments_def split: sum.splits option.splits)
  qed
  with a show ?thesis by (simp add: parse_commandline_arguments_def parse_option_def strcpy_def Let_def)
qed

section \<open>From the command line to the main loop\<close>


text \<open>The options for a single task never start the application: with \<open>-r\<close> the stored files are removed
  before the stack is initialised, with \<open>-f\<close> and \<open>-g\<close> the stack is initialised and reset or shown, and the program then
  exits with success; \<open>-r\<close> goes before \<open>-f\<close> and \<open>-f\<close> before \<open>-g\<close>.\<close>

theorem single_tasks_exit:
  assumes "profeth_main z env argv = Some (res, effs)"
    and "parse_commandline_arguments z (pf_permute env) (pf_cwd env) argv = Some (Inr args)"
    and "remove_files args \<or> factory_reset args \<or> 0 < show_count args"
  shows "\<exists>cfg. res = Exits EXIT_FAILURE \<or> (res = Exits EXIT_SUCCESS \<and>
    effs = Set_log_level (log_level_of (verbosity args)) #
      (if remove_files args then [Remove_data_files (path_storage_directory args)]
       else if factory_reset args then [Stack_init cfg, Pnet_factory_reset]
       else [Stack_init cfg, Pnet_show (if show_count args = 1 then 0x2010 else 0xFFFF)]))"
  using assms
  by (auto simp: profeth_main_def main_run_def app_pnet_cfg_init_storage_def strcpy_def Let_def
      split: Option.bind_splits if_splits prod.splits option.splits)

text \<open>Each \<open>-v\<close> lowers the level that is printed by one.\<close>

lemma verbosity_selects:
  assumes "0 \<le> v" "APP_LOG_LEVEL_DEBUG \<le> level" "level \<le> APP_LOG_LEVEL_FATAL"
  shows "out (app_log level msg (app_log_set_log_level (log_level_of v) st)) =
    out st @ (if APP_LOG_LEVEL_FATAL \<le> level + v then msg else [])"
  using assms by (auto simp: app_log_def app_log_set_log_level_def log_level_of_def log_levels)

section \<open>A concrete device\<close>

definition demo_prof :: prof_consts where
  "demo_prof = \<lparr>p_sizes = \<lparr>PNET_MAX_FILE_FULLPATH_SIZE = 14, PNET_MAX_DIRECTORYPATH_SIZE = 10, PNET_MAX_FILENAME_SIZE = 4\<rparr>,
     p_pnet = demo_consts, p_cfg = demo_cfg, PNET_STATION_NAME_MAX_SIZE = 8, PNET_OPTION_DRIVER_ENABLE = False\<rparr>"

definition demo_prof_env :: "unit prof_env" where
  "demo_prof_env = \<lparr>pf_permute = True, pf_cwd = Some ''/tmp'', pf_exists = (\<lambda>p. True),
     pf_pnal = \<lparr>pnal_get_ipmask = (\<lambda>i. (0, 0, 0)), pnal_get_gateway = (\<lambda>i. 0)\<rparr>, pf_pnet = demo_pnet,
     pf_le = True, pf_event_ok = True, pf_timer_ok = True\<rparr>"

definition demo_args :: app_args where
  "demo_args = \<lparr>path_button1 = [], path_button2 = [], path_storage_directory = ''/tmp'', station_name = ''infix'',
     eth_interfaces = ''eth0'', verbosity = 1, show_count = 0, factory_reset = False, remove_files = True,
     mode = MODE_HW_OFFLOAD_NONE\<rparr>"

lemma demo_parse: "parse_commandline_arguments demo_prof True (Some ''/tmp'') [''-v'', ''-r''] = Some (Inr demo_args)"
  by code_simp


lemma demo_prof_sizes:
  "PNET_STATION_NAME_MAX_SIZE demo_prof = 8" "PNET_MAX_DIRECTORYPATH_SIZE (p_sizes demo_prof) = 10"
  "PNET_MAX_FILE_FULLPATH_SIZE (p_sizes demo_prof) = 14"
  by (simp_all add: demo_prof_def)

lemma demo_default: "default_args demo_prof \<noteq> None"
  by code_simp

theorem arguments_overflow_witness:
  "parse_commandline_arguments demo_prof True None [''-s'', ''my-first''] = None \<and>
   parse_commandline_arguments demo_prof True None [''-p'', ''/var/lib/dev''] = None \<and>
   parse_commandline_arguments demo_prof True None [''-p'', ''/var''] \<noteq> None"
  using arguments_overflow [OF demo_default, of "''my-first''" True None "''/var/lib/dev''" "[''-p'', ''/var'']"]
    demo_prof_sizes by simp

lemma demo_netifs: "\<exists>c. app_utils_pnet_cfg_init_netifs demo_consts (pf_pnal demo_prof_env) ''eth0'' = Some (0, Some (1, c))"
proof -
  have "map_option (map_prod id (map_option fst)) (app_utils_pnet_cfg_init_netifs demo_consts (pf_pnal demo_prof_env) ''eth0'') =
      Some (0, Some 1)" by code_simp
  then show ?thesis by auto
qed

lemma demo_start: "\<exists>a a'. app_init True demo_pnet 1 = Some a \<and> app_start True True (Some a) = (0, Some a')"
proof -
  have "app_init True demo_pnet 1 \<noteq> None" "map_prod id (\<lambda>a. a \<noteq> None) (app_start True True (app_init True demo_pnet 1)) = (0, True)"
    by code_simp+
  then show ?thesis by (auto simp: map_prod_def split: prod.splits)
qed

lemma demo_parse_none:
  "parse_commandline_arguments demo_prof True (Some ''/tmp'') [] = Some (Inr (demo_args\<lparr>verbosity := 0, remove_files := False\<rparr>))"
  by code_simp

lemma demo_main: "\<exists>ports app effs. profeth_main demo_prof demo_prof_env [] = Some (Loops ports app, effs)"
proof -
  obtain c where "app_utils_pnet_cfg_init_netifs demo_consts (pf_pnal demo_prof_env) ''eth0'' = Some (0, Some (1, c))"
    using demo_netifs by blast
  moreover obtain a a' where "app_init True demo_pnet 1 = Some a" "app_start True True (Some a) = (0, Some a')"
    using demo_start by blast
  ultimately show ?thesis using demo_parse_none
    by (simp add: profeth_main_def main_run_def main_config_def app_pnet_cfg_init_storage_def strcpy_def Let_def demo_args_def
        demo_prof_def demo_prof_env_def)
qed


theorem single_tasks_exit_witness:
  "profeth_main demo_prof demo_prof_env [''-v'', ''-r''] = Some (Exits 0, [Set_log_level 3, Remove_data_files ''/tmp''])"
proof -
  let ?m = "profeth_main demo_prof demo_prof_env [''-v'', ''-r'']"
  have r: "map_option fst ?m = Some (Exits 0)" by code_simp
  then obtain effs where m: "?m = Some (Exits 0, effs)" by auto
  have p: "parse_commandline_arguments demo_prof (pf_permute demo_prof_env) (pf_cwd demo_prof_env) [''-v'', ''-r''] = Some (Inr demo_args)"
    using demo_parse by (simp add: demo_prof_env_def)
  from single_tasks_exit [OF m p] m show ?thesis
    by (auto simp: demo_args_def EXIT_FAILURE_def EXIT_SUCCESS_def log_level_of_def log_levels)
qed

end
