(* ===== verification/Spec2Isabelle.thy ===== *)
theory Spec2Isabelle
  imports NetDemo DaggerProps SysStage SysAuth ConfdProps Statd Klinfix Factory IfInfer NetdagShape NetdagScripts
    SampleDevice SampleDemo ProfethProps
begin

text \<open>
  A verification library for the programs of Infix OS: the configuration daemon \<open>confd\<close> and the script
  \<open>sbin/dagger\<close> it runs, the status daemon \<open>statd\<close>, the tool \<open>net\<close>, the shell plugin \<open>klinfix\<close>, the tool
  \<open>factory\<close> and the PROFINET device \<open>profeth\<close>.

  \<^bold>\<open>How the parts interact.\<close>  sysrepo calls \<open>confd\<close> for every change of the configuration.  The callback of
  \<open>ietf-interfaces.c\<close> claims a new generation (\<open>dagger.c\<close>), writes scripts for every interface that changed
  into it, and evolves it when the change is done or abandons it.  For both \<open>dagger.c\<close> runs the script
  \<open>sbin/dagger\<close>, which runs the exit scripts of the old generation and the init scripts of the new one in the order
  of the dependencies.  \<open>net\<close> is a separate tool that activates generations of its own layout below
  \<open>/run/net\<close>.  \<open>ietf-system.c\<close> and \<open>infix-dhcp.c\<close> write
  files and control services directly.  \<open>core.c\<close> starts all of them and reloads the services once per
  change set.  \<open>profeth.c\<close> reads the command line, configures p-net and starts the application of
  \<open>sampleapp_common.c\<close>, which p-net calls back.

  \<^bold>\<open>Conventions.\<close>  A null pointer is \<^const>\<open>None\<close>.  Where a function may read outside of an object or
  dereference null, its model returns an option and \<^const>\<open>None\<close> is the crash.  The file system, \<open>errno\<close> and
  the log of shell commands are the record \<open>world\<close>; what a shell command does is the parameter \<open>os\<close>.
  For \<open>sbin/dagger\<close> the answers of \<open>find\<close> and \<open>date\<close> and the effect of the generated scripts are the parameter
  \<open>dg_env\<close>, its operations return the exit status, and that a command of \<open>dagger.c\<close> runs the script is the
  hypothesis \<open>runs_script\<close>.
  sysrepo, libyang, Augeas, jansson and p-net are parameters, with what is relied on as named hypotheses.
  Log messages are left out, and memory allocation succeeds unless a theory says otherwise.

  \<^bold>\<open>confd.\<close>
  \<^item> \<open>Prelude\<close>, \<open>Posix\<close>, \<open>Helpers\<close>: strings, numbers and their text, files, and \<open>lib/helpers.c\<close>.
  \<^item> \<open>Callback\<close>: events and statuses of sysrepo, and the contract of a change callback.
  \<^item> \<open>Order\<close>, \<open>Getopt\<close>: orders in which dependencies come first, and \<open>getopt\<close>, shared by the programs.
  \<^item> \<open>Dagger\<close>: \<open>dagger.c\<close>.  A claim is exclusive; claiming and evolving round trips; a claim after an
    abandoned one stays refused, both under a contract on the script.
  \<^item> \<open>DaggerScript\<close>, \<open>DaggerRuns\<close>, \<open>DaggerProps\<close>: the script \<open>sbin/dagger\<close>.  Its order files list dependencies
    first and their reverse; \<open>evolve\<close> takes the old generation down in the reverse of its order before it sets up the new
    one; the contract of \<open>Dagger\<close> is discharged for the script, and \<open>dagger.c\<close> and the script are put together.
  \<^item> \<open>Lyx\<close>, \<open>SrxVal\<close>, \<open>Inet\<close>: \<open>lib/lyx.c\<close> on trees with parent and sibling links, \<open>srx_val.c\<close>, addresses.
  \<^item> \<open>Netdag\<close>, \<open>NetdagSafety\<close>, \<open>NetdagScripts\<close>, \<open>NetdagShape\<close>, \<open>IfInfer\<close>: \<open>ietf-interfaces.c\<close>.  The
    callback never crashes, leaves its transaction open or abandoned, and writes scripts of a fixed shape;
    types and VLAN settings are inferred as named.
  \<^item> \<open>SysConf\<close>, \<open>SysStage\<close>, \<open>SysInfo\<close>, \<open>SysAuth\<close>: \<open>ietf-system.c\<close> and \<open>systemv.c\<close>.  The staged files follow
    the committed transactions; names of users cannot leave their directories; times round trip.
  \<^item> \<open>ConfdCore\<close>, \<open>ConfdProps\<close>: \<open>core.c\<close>, \<open>core.h\<close>, \<open>srx_module.c\<close>, \<open>infix-dhcp.c\<close>.  The plugin starts, and a
    change set reloads the services once.

  \<^bold>\<open>The other programs.\<close>
  \<^item> \<open>Statd\<close>: \<open>statd/core.c\<close>, what is answered for an interface.
  \<^item> \<open>Klinfix\<close>: \<open>klinfix.c\<close>, which datastores may be copied.
  \<^item> \<open>Factory\<close>: \<open>factory.c\<close>, the consent a reset needs.
  \<^item> \<open>NetTool\<close>, \<open>NetOrder\<close>, \<open>NetGenerations\<close>, \<open>NetDemo\<close>: \<open>net/src/main.c\<close>.  Activation ends and runs
    dependencies first; the teardown order is the reverse of the set-up.
  \<^item> \<open>AppAr\<close>, \<open>AppSlots\<close>, \<open>AppUtils\<close>, \<open>AppGsdml\<close>, \<open>AppData\<close>: the tables and data of \<open>profeth\<close>.
  \<^item> \<open>AppConfig\<close>, \<open>AppLog\<close>, \<open>PnalTools\<close>: the default configuration, \<open>app_log.c\<close> with the functions of
    \<open>app_utils.c\<close> that print, and \<open>pnal_filetools.c\<close>.
  \<^item> \<open>Profeth\<close>, \<open>ProfethProps\<close>: \<open>profeth.c\<close>.  Accepted command lines give well-formed arguments, two options can
    overflow, and the program that is started is the application below.
  \<^item> \<open>SampleApp\<close>, \<open>SampleCalls\<close>, \<open>SampleLoop\<close>, \<open>SampleEvents\<close>, \<open>SampleProps\<close>, \<open>SampleTheorems\<close>,
    \<open>SampleDevice\<close>, \<open>SampleDemo\<close>: \<open>sampleapp_common.c\<close>, its callbacks and main loop interleaved; it is
    never stuck, and its event handling refines a table from connections to events.

  \<^bold>\<open>Fuel.\<close>  Only the recursion of \<open>deps\<close> in \<open>NetTool\<close> has fuel, the depth of the recursion.  With dependencies
  that are ranked, a depth above every rank is enough; on a cycle no depth is.
  The event loop of \<open>SampleApp\<close> is a partial function without fuel, \<^const>\<open>None\<close> if it does not return;
  that it returns is part of what is shown of the application.

  \<^bold>\<open>Not modelled.\<close>  Messages and usage texts; the clean-up functions of the two daemons (calls of sysrepo and of
  \<open>free\<close>); \<open>popenf\<close>, which hands a formatted command to the C library; the replacements of \<open>asprintf\<close>; prototypes and
  logging macros; and the scripts that build images, boot and test, whose effect is that of external programs.
\<close>

end
